theory Spec2Isabelle
  imports Complex_Main "HOL-Library.Sublist" "HOL-Library.Multiset"
begin

section \<open>JavaScript values and strings\<close>

text \<open>
  Strings are modelled as \<^typ>\<open>string\<close>. The embedding covers the Latin-1 range; on ASCII
  text \<open>toLowerCase\<close>, \<open>trim\<close> and \<open>includes\<close> below agree with the JavaScript built-ins.
  JavaScript numbers are rationals here: every number the modelled code compares or adds
  is a rate, a counter or a status code, far from the limits of double precision.
\<close>

definition is_ws :: "char \<Rightarrow> bool" where
  "is_ws c = (c \<in> set [CHR 0x09, CHR 0x0A, CHR 0x0B, CHR 0x0C, CHR 0x0D, CHR 0x20, CHR 0xA0])"

definition trim :: "string \<Rightarrow> string" where
  "trim s = rev (dropWhile is_ws (rev (dropWhile is_ws s)))"

definition lower_char :: "char \<Rightarrow> char" where
  "lower_char c =
     (case map_of (zip ''ABCDEFGHIJKLMNOPQRSTUVWXYZ'' ''abcdefghijklmnopqrstuvwxyz'') c of
        Some d \<Rightarrow> d
      | None \<Rightarrow> c)"

definition toLowerCase :: "string \<Rightarrow> string" where
  "toLowerCase s = map lower_char s"

fun startsWith :: "string \<Rightarrow> string \<Rightarrow> bool" where
  "startsWith s [] = True"
| "startsWith [] (p # ps) = False"
| "startsWith (c # cs) (p # ps) = (c = p \<and> startsWith cs ps)"

text \<open>\<open>s.includes(p)\<close>\<close>

fun str_includes :: "string \<Rightarrow> string \<Rightarrow> bool" where
  "str_includes [] p = (p = [])"
| "str_includes (c # cs) p = (startsWith (c # cs) p \<or> str_includes cs p)"

text \<open>The regular expressions \<open>/<\s*12/\<close> and \<open>/>\s*12/\<close>: the character \<open>c\<close>, any
  run of white space, then \<open>12\<close>.\<close>

fun re_sym_ws_12 :: "char \<Rightarrow> string \<Rightarrow> bool" where
  "re_sym_ws_12 c [] = False"
| "re_sym_ws_12 c (x # xs) =
     ((x = c \<and> startsWith (dropWhile is_ws xs) ''12'') \<or> re_sym_ws_12 c xs)"

text \<open>The regular expression \<open>/a.*b/\<close> for literal \<open>a\<close> and \<open>b\<close>: the dot does not
  match a line terminator.\<close>

fun re_dots_then :: "string \<Rightarrow> string \<Rightarrow> bool" where
  "re_dots_then [] b = (b = [])"
| "re_dots_then (x # xs) b =
     (startsWith (x # xs) b \<or> (x \<noteq> CHR 0x0A \<and> x \<noteq> CHR 0x0D \<and> re_dots_then xs b))"

fun re_a_dots_b :: "string \<Rightarrow> string \<Rightarrow> string \<Rightarrow> bool" where
  "re_a_dots_b a b [] = (a = [] \<and> b = [])"
| "re_a_dots_b a b (x # xs) =
     ((startsWith (x # xs) a \<and> re_dots_then (drop (length a) (x # xs)) b) \<or> re_a_dots_b a b xs)"

text \<open>A field value of a Persistent Store record, as the Airtable client returns it. Array
  and object values (link and attachment fields) are not read by the code modelled here.\<close>

datatype fval = FNull | FNum int | FBool bool | FStr string

definition truthy :: "fval \<Rightarrow> bool" where
  "truthy v = (case v of FNull \<Rightarrow> False | FNum n \<Rightarrow> n \<noteq> 0 | FBool b \<Rightarrow> b | FStr s \<Rightarrow> s \<noteq> [])"

text \<open>\<open>v || ""\<close>\<close>

definition orEmpty :: "fval \<Rightarrow> fval" where
  "orEmpty v = (if truthy v then v else FStr [])"

definition digit_char :: "nat \<Rightarrow> char" where
  "digit_char d = ''0123456789'' ! (d mod 10)"

function showNat :: "nat \<Rightarrow> string" where
  "showNat n = (if n < 10 then [digit_char n] else showNat (n div 10) @ [digit_char (n mod 10)])"
  by pat_completeness auto
termination
  by (relation "measure id") auto

text \<open>\<open>String(v)\<close>\<close>

definition String_of :: "fval \<Rightarrow> string" where
  "String_of v =
     (case v of
        FNull \<Rightarrow> ''null''
      | FNum n \<Rightarrow> (if n < 0 then CHR ''-'' # showNat (nat (- n)) else showNat (nat n))
      | FBool b \<Rightarrow> (if b then ''true'' else ''false'')
      | FStr s \<Rightarrow> s)"

text \<open>A record of the Persistent Store: its id and its fields, by column name (the first
  entry for a name is the field's value).\<close>

record arec =
  rec_id :: string
  rec_fields :: "(string \<times> fval) list"

text \<open>\<open>rec.get(name)\<close>: an absent field reads as \<open>undefined\<close>, which every use below
  treats as \<open>null\<close>.\<close>

definition rget :: "arec \<Rightarrow> string \<Rightarrow> fval" where
  "rget r name = (case map_of (rec_fields r) name of None \<Rightarrow> FNull | Some v \<Rightarrow> v)"

text \<open>\<open>asOne\<close> of the main server: truthy helper for fields that may be
  1/true/'1'/'true'/'yes'.\<close>

definition asOne :: "fval \<Rightarrow> bool" where
  "asOne v =
     (case v of
        FNull \<Rightarrow> False
      | FNum n \<Rightarrow> n = 1
      | FBool b \<Rightarrow> b
      | FStr t \<Rightarrow> (let s = toLowerCase (trim t) in
                   s = ''1'' \<or> s = ''true'' \<or> s = ''yes'' \<or> s = ''y'' \<or> s = ''checked''))"

text \<open>\<open>getField\<close> of the main server and \<open>fieldStr\<close> of the generation server: the field
  as a string.\<close>

definition getField :: "arec \<Rightarrow> string \<Rightarrow> string" where
  "getField r name =
     (case rget r name of
        FNull \<Rightarrow> []
      | FStr s \<Rightarrow> s
      | FNum n \<Rightarrow> String_of (FNum n)
      | FBool b \<Rightarrow> (if b then ''Yes'' else ''No''))"

section \<open>Pricing Assembler\<close>

subsection \<open>Membership type and discount column\<close>

text \<open>\<open>normaliseType\<close> as declared inside \<open>buildPdfPayload\<close> and again, with the same text,
  inside the pricing preview route of the main server.\<close>

definition normaliseType :: "fval \<Rightarrow> string" where
  "normaliseType raw =
     (let s = toLowerCase (trim (String_of (orEmpty raw))) in
      if str_includes s ''full'' then ''Full Membership''
      else if str_includes s ''casual'' then ''Casual Membership''
      else if str_includes s ''day'' then ''Day Membership''
      else ''Casual Membership'')"

text \<open>\<open>normaliseType\<close> of the generation server (no \<open>trim\<close>).\<close>

definition normaliseType_srv :: "fval \<Rightarrow> string" where
  "normaliseType_srv raw =
     (let s = toLowerCase (String_of (orEmpty raw)) in
      if str_includes s ''full'' then ''Full Membership''
      else if str_includes s ''casual'' then ''Casual Membership''
      else if str_includes s ''day'' then ''Day Membership''
      else ''Casual Membership'')"

text \<open>\<open>discountColumnFor\<close> of the main server (\<open>buildPdfPayload\<close> and pricing preview).\<close>

definition discountColumnFor :: "fval \<Rightarrow> string option" where
  "discountColumnFor category =
     (let s = toLowerCase (String_of (orEmpty category)) in
      if str_includes s ''current'' \<and> str_includes s ''student'' then Some ''Current UTS Student''
      else if str_includes s ''current'' \<and> str_includes s ''staff'' then Some ''Current Staff''
      else if (str_includes s ''alumni'' \<and> (str_includes s ''within'' \<or> str_includes s ''< 12''))
              \<or> re_sym_ws_12 CHR ''<'' s then Some ''UTS Alumni < 12m''
      else if (str_includes s ''alumni'' \<and>
                 (str_includes s ''more than'' \<or> str_includes s ''over'' \<or> str_includes s ''> 12''))
              \<or> re_sym_ws_12 CHR ''>'' s then Some ''UTS Alumni > 12m''
      else if str_includes s ''former'' \<and> str_includes s ''staff'' \<and>
              (str_includes s ''within'' \<or> str_includes s ''< 12'') then Some ''Former Staff < 12m''
      else if str_includes s ''former'' \<and> str_includes s ''staff'' \<and>
              (str_includes s ''more than'' \<or> str_includes s ''over'' \<or> str_includes s ''> 12'')
           then Some ''Former Staff > 12m''
      else None)"

text \<open>\<open>discountColumnFor\<close> of the generation server, with its fallbacks for compact labels.\<close>

definition discountColumnFor_srv :: "string \<Rightarrow> string option" where
  "discountColumnFor_srv category =
     (let s = toLowerCase category in
      if str_includes s ''current'' \<and> str_includes s ''student'' then Some ''Current UTS Student''
      else if str_includes s ''current'' \<and> str_includes s ''staff'' then Some ''Current Staff''
      else if (str_includes s ''alumni'' \<and> (str_includes s ''within'' \<or> str_includes s ''< 12''))
              \<or> re_sym_ws_12 CHR ''<'' s then Some ''UTS Alumni < 12m''
      else if (str_includes s ''alumni'' \<and>
                 (str_includes s ''more than'' \<or> str_includes s ''over'' \<or> str_includes s ''> 12''))
              \<or> re_sym_ws_12 CHR ''>'' s then Some ''UTS Alumni > 12m''
      else if str_includes s ''former'' \<and> str_includes s ''staff'' \<and>
              (str_includes s ''within'' \<or> str_includes s ''< 12'') then Some ''Former Staff < 12m''
      else if str_includes s ''former'' \<and> str_includes s ''staff'' \<and>
              (str_includes s ''more than'' \<or> str_includes s ''over'' \<or> str_includes s ''> 12'')
           then Some ''Former Staff > 12m''
      else if str_includes s ''alumni'' \<and> str_includes s ''12'' \<and> str_includes s ''<''
           then Some ''UTS Alumni < 12m''
      else if str_includes s ''alumni'' \<and> str_includes s ''12'' \<and> str_includes s ''>''
           then Some ''UTS Alumni > 12m''
      else if str_includes s ''former'' \<and> str_includes s ''12'' \<and> str_includes s ''<''
           then Some ''Former Staff < 12m''
      else if str_includes s ''former'' \<and> str_includes s ''12'' \<and> str_includes s ''>''
           then Some ''Former Staff > 12m''
      else None)"

subsection \<open>Pricing matrix\<close>

record prow =
  base :: rat
  discounts :: "string \<rightharpoonup> rat"

type_synonym matrix = "string \<rightharpoonup> prow"

text \<open>\<open>matrix[type] || { base: 0, discounts: {} }\<close>\<close>

definition rowFor :: "matrix \<Rightarrow> string \<Rightarrow> prow" where
  "rowFor m t = (case m t of None \<Rightarrow> \<lparr>base = 0, discounts = Map.empty\<rparr> | Some row \<Rightarrow> row)"

subsection \<open>Main server: \<open>buildPdfPayload\<close>\<close>

definition effectiveDiscountCategory :: "arec \<Rightarrow> fval" where
  "effectiveDiscountCategory r =
     (let manualCheck = orEmpty (rget r ''Manual Discount Check'');
          manualCat = orEmpty (rget r ''Manual Discount Category'') in
      if trim (String_of manualCheck) \<noteq> [] \<and> trim (String_of manualCat) \<noteq> [] then manualCat
      else orEmpty (rget r ''Discount Category''))"

definition isDiscountValidated :: "arec \<Rightarrow> bool" where
  "isDiscountValidated r =
     (let manualCheck = orEmpty (rget r ''Manual Discount Check'');
          manualCat = orEmpty (rget r ''Manual Discount Category'') in
      if toLowerCase (trim (String_of manualCheck)) = ''valid'' \<and> trim (String_of manualCat) \<noteq> []
      then True
      else toLowerCase (trim (String_of (orEmpty (rget r ''Discount Validated'')))) = ''valid'')"

definition isWithin12m :: "fval \<Rightarrow> bool" where
  "isWithin12m discount =
     (let s = toLowerCase (String_of (orEmpty discount)) in
      if str_includes s ''within the last 12 months'' \<or> re_a_dots_b ''within'' ''12 months'' s
         \<or> re_sym_ws_12 CHR ''<'' s then True
      else if str_includes s ''current'' \<and> (str_includes s ''student'' \<or> str_includes s ''staff'')
      then True
      else False)"

definition isOver12m :: "fval \<Rightarrow> bool" where
  "isOver12m discount =
     (let s = toLowerCase (String_of (orEmpty discount)) in
      str_includes s ''more than 12 months'' \<or> re_a_dots_b ''over'' ''12 months'' s
      \<or> re_sym_ws_12 CHR ''>'' s)"

definition isUTSDiscount :: "fval \<Rightarrow> bool" where
  "isUTSDiscount discount =
     (let s = toLowerCase (String_of (orEmpty discount)) in
      str_includes s ''uts'' \<or> str_includes s ''alumni'' \<or> str_includes s ''staff''
      \<or> str_includes s ''student'')"

text \<open>The membership counters of \<open>buildPdfPayload\<close>, under the names the source declares them
  with (\<open>let fullNoDisc = 0, fullDisc = 0, casualNoDisc = 0, casualWithin = 0, casualOver = 0,
  dayCount = 0\<close>), in that order.\<close>

record counters =
  fullNoDisc :: nat
  fullDisc :: nat
  casualNoDisc :: nat
  casualWithin :: nat
  casualOver :: nat
  dayCount :: nat

definition countMember :: "counters \<Rightarrow> arec \<Rightarrow> counters" where
  "countMember c r =
     (let type = normaliseType (rget r ''Membership Type'');
          discountCat = effectiveDiscountCategory r;
          validated = isDiscountValidated r in
      if type = ''Full Membership'' then
        (if validated \<and> isUTSDiscount discountCat then c\<lparr>fullDisc := fullDisc c + 1\<rparr>
         else c\<lparr>fullNoDisc := fullNoDisc c + 1\<rparr>)
      else if type = ''Casual Membership'' then
        (if validated \<and> isWithin12m discountCat then c\<lparr>casualWithin := casualWithin c + 1\<rparr>
         else if validated \<and> isOver12m discountCat then c\<lparr>casualOver := casualOver c + 1\<rparr>
         else c\<lparr>casualNoDisc := casualNoDisc c + 1\<rparr>)
      else if type = ''Day Membership'' then c\<lparr>dayCount := dayCount c + 1\<rparr>
      else c)"

definition membershipCounts :: "arec list \<Rightarrow> counters" where
  "membershipCounts submitted =
     foldl countMember
       \<lparr>fullNoDisc = 0, fullDisc = 0, casualNoDisc = 0, casualWithin = 0, casualOver = 0,
        dayCount = 0\<rparr> submitted"

text \<open>The identifiers that are in scope where the fee label is chosen, with their values. An
  identifier that is not declared raises \<open>ReferenceError\<close> when it is read.\<close>

definition scopeOf :: "counters \<Rightarrow> (string \<times> nat) list" where
  "scopeOf c =
     [(''fullNoDisc'', fullNoDisc c), (''fullDisc'', fullDisc c), (''casualNoDisc'', casualNoDisc c),
      (''casualWithin'', casualWithin c), (''casualOver'', casualOver c), (''dayCount'', dayCount c)]"

definition readVar :: "(string \<times> nat) list \<Rightarrow> string \<Rightarrow> string + nat" where
  "readVar scope name =
     (case map_of scope name of
        None \<Rightarrow> Inl (name @ '' is not defined'')
      | Some v \<Rightarrow> Inr v)"

text \<open>One iteration of the pricing loop: \<open>None\<close> is \<open>continue\<close> (a Day member), \<open>Some fee\<close> is
  the amount added to \<open>sum\<close>.\<close>

definition memberFee :: "matrix \<Rightarrow> arec \<Rightarrow> rat option" where
  "memberFee m r =
     (let type = normaliseType (rget r ''Membership Type'') in
      if type = ''Day Membership'' then None
      else
        let row = rowFor m type;
            fee = base row;
            discountCat = effectiveDiscountCategory r;
            validated = isDiscountValidated r;
            col = discountColumnFor discountCat in
        if validated then
          (let rate = (case col of None \<Rightarrow> None | Some c \<Rightarrow> discounts row c);
               rate' = (if rate = None \<and> (col = Some ''Current UTS Student'' \<or> col = Some ''Current Staff'')
                        then discounts row ''UTS Alumni < 12m'' else rate) in
           case rate' of None \<Rightarrow> Some fee | Some v \<Rightarrow> Some v)
        else Some fee)"

definition feeSum :: "matrix \<Rightarrow> arec list \<Rightarrow> rat" where
  "feeSum m submitted =
     foldl (\<lambda>sum r. case memberFee m r of None \<Rightarrow> sum | Some fee \<Rightarrow> sum + fee) 0 submitted"

text \<open>The body of the inner \<open>try\<close> that assigns \<open>calculatedMonthlyFee\<close>: \<open>Inl\<close> is the exception
  that leaves the block, \<open>Inr\<close> the text assigned. \<open>fmt\<close> stands for \<open>Intl.NumberFormat("en-AU",
  two fraction digits).format\<close>. Line 2396 reads \<open>fullCount + casualCount\<close>.\<close>

definition feeLabel :: "(rat \<Rightarrow> string) \<Rightarrow> matrix \<Rightarrow> arec list \<Rightarrow> string + string" where
  "feeLabel fmt m submitted =
     (let sum = feeSum m submitted; scope = scopeOf (membershipCounts submitted) in
      if sum > 0 then Inr (''AUD '' @ fmt sum @ '' per month plus GST'')
      else
        (case readVar scope ''fullCount'' of
           Inl e \<Rightarrow> Inl e
         | Inr fullCount \<Rightarrow>
             (case readVar scope ''casualCount'' of
                Inl e \<Rightarrow> Inl e
              | Inr casualCount \<Rightarrow>
                  Inr (if fullCount + casualCount > 0 then ''AUD 0.00 per month (waived)''
                       else ''No monthly fee (Day Memberships charged per-day)''))))"

text \<open>\<open>payload.calculated_monthly_fee\<close>. \<open>startupName\<close> is the organization's name as fetched;
  \<open>team\<close> is what \<open>listTeamMembersByStartupId\<close> returns, or the exception it throws. Both the
  outer \<open>catch (_) {}\<close> and the inner \<open>catch (e)\<close>, which only logs, leave
  \<open>calculatedMonthlyFee\<close> at its initial empty string.\<close>

definition calculated_monthly_fee ::
  "(rat \<Rightarrow> string) \<Rightarrow> matrix \<Rightarrow> string \<Rightarrow> string + arec list \<Rightarrow> string" where
  "calculated_monthly_fee fmt m startupName team =
     (let calculatedMonthlyFee =
            (if startupName = [] then []
             else case team of
                    Inl e \<Rightarrow> []
                  | Inr teamMemberRecords \<Rightarrow>
                      (let submitted =
                             filter (\<lambda>r. asOne (rget r ''New onboarding form submitted''))
                               teamMemberRecords in
                       case feeLabel fmt m submitted of Inl e \<Rightarrow> [] | Inr t \<Rightarrow> t)) in
      if calculatedMonthlyFee \<noteq> [] then calculatedMonthlyFee
      else ''AUD 0.00 per month (placeholder)'')"

subsection \<open>Generation server: \<open>buildPayload\<close>\<close>

definition validationIsValid :: "arec \<Rightarrow> bool" where
  "validationIsValid r = (toLowerCase (trim (getField r ''Discount Validated'')) = ''valid'')"

definition rateForMember :: "arec \<Rightarrow> matrix \<Rightarrow> rat" where
  "rateForMember r m =
     (let type = normaliseType_srv (FStr (getField r ''Membership Type''));
          row = rowFor m type;
          base = base row in
      if type = ''Day Membership'' then 0
      else
        let discountCategory = getField r ''Discount Category'';
            col = discountColumnFor_srv discountCategory in
        if validationIsValid r then
          (case col of
             None \<Rightarrow> base
           | Some c \<Rightarrow> (case discounts row c of None \<Rightarrow> base | Some d \<Rightarrow> d))
        else base)"

definition hasFullOrCasual_srv :: "arec list \<Rightarrow> bool" where
  "hasFullOrCasual_srv teamMembers =
     list_ex (\<lambda>r. let t = normaliseType_srv (FStr (getField r ''Membership Type'')) in
                  t = ''Full Membership'' \<or> t = ''Casual Membership'') teamMembers"

text \<open>\<open>calculated_monthly_fee\<close> of \<open>buildPayload\<close>. \<open>loaded\<close> is the matrix that
  \<open>loadPricingMatrix\<close> returns, or the exception it throws; the \<open>catch\<close> assigns a dash.\<close>

definition calculated_monthly_fee_srv ::
  "(rat \<Rightarrow> string) \<Rightarrow> string + matrix \<Rightarrow> arec list \<Rightarrow> string" where
  "calculated_monthly_fee_srv fmt loaded teamMembers =
     (case loaded of
        Inl e \<Rightarrow> [CHR 0xE2, CHR 0x80, CHR 0x94]
      | Inr m \<Rightarrow>
          (let sum = foldl (\<lambda>sum r. sum + rateForMember r m) 0 teamMembers in
           if sum > 0 then ''AUD '' @ fmt sum @ '' per month plus GST''
           else if hasFullOrCasual_srv teamMembers then ''AUD 0.00 per month (waived)''
           else ''No monthly fee (Day Memberships charged per-day)''))"

subsection \<open>Unrecognised membership types, and sample records\<close>

text \<open>A record whose membership type is blank, or a string that contains none of \<open>full\<close>,
  \<open>casual\<close>, \<open>day\<close> in any letter case.\<close>

definition unrecognisedType :: "arec \<Rightarrow> bool" where
  "unrecognisedType r =
     (case rget r ''Membership Type'' of
        FNull \<Rightarrow> True
      | FStr t \<Rightarrow> (let s = toLowerCase t in
                   \<not> str_includes s ''full'' \<and> \<not> str_includes s ''casual'' \<and> \<not> str_includes s ''day'')
      | _ \<Rightarrow> False)"

text \<open>The same record with its membership type set to \<open>Casual Membership\<close>.\<close>

definition asCasual :: "arec \<Rightarrow> arec" where
  "asCasual r = r\<lparr>rec_fields := (''Membership Type'', FStr ''Casual Membership'') # rec_fields r\<rparr>"

definition ex_matrix :: matrix where
  "ex_matrix =
     [''Casual Membership'' \<mapsto> \<lparr>base = 100, discounts = [''Current UTS Student'' \<mapsto> 60]\<rparr>,
      ''Full Membership'' \<mapsto> \<lparr>base = 0, discounts = Map.empty\<rparr>]"

definition ex_full_member :: arec where
  "ex_full_member =
     \<lparr>rec_id = ''recF'',
      rec_fields = [(''Membership Type'', FStr ''Full Membership''),
                    (''New onboarding form submitted'', FNum 1)]\<rparr>"

definition ex_blank_member :: arec where
  "ex_blank_member =
     \<lparr>rec_id = ''recB'',
      rec_fields = [(''Membership Type'', FStr []),
                    (''Discount Category'', FStr ''Current UTS Student''),
                    (''Discount Validated'', FStr ''Valid''),
                    (''New onboarding form submitted'', FNum 1)]\<rparr>"

definition ex_blank_plain :: arec where
  "ex_blank_plain =
     \<lparr>rec_id = ''recP'',
      rec_fields = [(''Membership Type'', FStr ''Hot desk''),
                    (''New onboarding form submitted'', FNum 1)]\<rparr>"

section \<open>Eligibility Resolver\<close>

subsection \<open>Dates\<close>

text \<open>
  A \<open>Date\<close> built from calendar fields is modelled by its local calendar date (the time of
  day is midnight in every use below). The process runs at a fixed offset of \<open>tz\<close> minutes
  east of UTC. \<open>makeDay\<close> is the normalisation that the \<open>Date\<close> constructor and \<open>setMonth\<close>
  apply: month overflow carries into the year, day overflow into the neighbouring months.
\<close>

record ldate =
  ly :: int
  lm :: int
  ld :: int

definition leap :: "int \<Rightarrow> bool" where
  "leap y = (y mod 4 = 0 \<and> (y mod 100 \<noteq> 0 \<or> y mod 400 = 0))"

definition daysInMonth :: "int \<Rightarrow> int \<Rightarrow> int" where
  "daysInMonth y m =
     (if m = 2 then (if leap y then 29 else 28)
      else if m = 4 \<or> m = 6 \<or> m = 9 \<or> m = 11 then 30
      else 31)"


function rollFwd :: "int \<Rightarrow> int \<Rightarrow> int \<Rightarrow> ldate" where
  "rollFwd y m d =
     (if d > daysInMonth y m
      then (if m \<ge> 12 then rollFwd (y + 1) 1 (d - daysInMonth y m)
            else rollFwd y (m + 1) (d - daysInMonth y m))
      else \<lparr>ly = y, lm = m, ld = d\<rparr>)"
  by pat_completeness auto
termination
  by (relation "measure (\<lambda>(y, m, d). nat d)") (auto simp: daysInMonth_def split: if_splits)

function rollBack :: "int \<Rightarrow> int \<Rightarrow> int \<Rightarrow> ldate" where
  "rollBack y m d =
     (if d < 1
      then (if m \<le> 1 then rollBack (y - 1) 12 (d + daysInMonth (y - 1) 12)
            else rollBack y (m - 1) (d + daysInMonth y (m - 1)))
      else \<lparr>ly = y, lm = m, ld = d\<rparr>)"
  by pat_completeness auto
termination
  by (relation "measure (\<lambda>(y, m, d). nat (1 - d))") (auto simp: daysInMonth_def split: if_splits)

text \<open>\<open>MakeDay(year, month, date)\<close> read back as a calendar date; \<open>month\<close> counts from 0.\<close>

definition makeDay :: "int \<Rightarrow> int \<Rightarrow> int \<Rightarrow> ldate" where
  "makeDay year month date =
     (let ym = year + month div 12; mn = month mod 12 + 1 in
      if date < 1 then rollBack ym mn date else rollFwd ym mn date)"

text \<open>\<open>new Date(y, m, d)\<close>: a year from 0 to 99 means 1900 + year.\<close>

definition newDate :: "int \<Rightarrow> int \<Rightarrow> int \<Rightarrow> ldate" where
  "newDate y m d = makeDay (if 0 \<le> y \<and> y \<le> 99 then 1900 + y else y) m d"

text \<open>\<open>date.getTime()\<close> in milliseconds since the epoch: the day number of the calendar date
  (\<open>DayFromYear\<close> plus the days before the month), at local midnight.\<close>

definition dayFromYear :: "int \<Rightarrow> int" where
  "dayFromYear y = 365 * (y - 1970) + (y - 1969) div 4 - (y - 1901) div 100 + (y - 1601) div 400"

definition daysBeforeMonth :: "int \<Rightarrow> int \<Rightarrow> int" where
  "daysBeforeMonth y m = sum_list (map (daysInMonth y) [1..m - 1])"

definition getTime :: "int \<Rightarrow> ldate \<Rightarrow> int" where
  "getTime tz dt =
     (dayFromYear (ly dt) + daysBeforeMonth (ly dt) (lm dt) + ld dt - 1) * 86400000 - tz * 60000"

text \<open>\<open>date.toISOString()\<close>: the UTC calendar date and the UTC minute of the day of local
  midnight. The first ten characters of the string are the date.\<close>

record iso =
  iso_date :: ldate
  iso_minute :: int

definition toISOString :: "int \<Rightarrow> ldate \<Rightarrow> iso" where
  "toISOString tz dt =
     \<lparr>iso_date = makeDay (ly dt) (lm dt - 1) (ld dt + (- tz) div 1440),
      iso_minute = (- tz) mod 1440\<rparr>"

text \<open>\<open>addMonths\<close>\<close>

definition addMonths :: "ldate \<Rightarrow> int \<Rightarrow> ldate" where
  "addMonths date months = makeDay (ly date) ((lm date - 1) + months) (ld date)"

text \<open>\<open>monthsBetween\<close>, on two times in milliseconds.\<close>

definition monthsBetween :: "int \<Rightarrow> int \<Rightarrow> rat" where
  "monthsBetween a b = of_int (max 0 (b - a)) / (1000 * 60 * 60 * 24 * (304375 / 10000))"

text \<open>A fuzzy date of the Directory: \<open>{ y, m, d }\<close>, each a number or absent.\<close>

record fuzzy =
  fy :: "int option"
  fm :: "int option"
  fd :: "int option"

text \<open>A \<open>Date\<close> holds a time value of at most 8.64e15 milliseconds either side of the epoch;
  a \<open>Date\<close> built or moved beyond that is invalid: its \<open>getTime()\<close> is \<open>NaN\<close> and its
  \<open>toISOString()\<close> throws.\<close>

definition validTime :: "int \<Rightarrow> ldate \<Rightarrow> bool" where
  "validTime tz dt = (\<bar>getTime tz dt\<bar> \<le> 8640000000000000)"

text \<open>\<open>toDateFromYmd\<close>: the date, when the three components are numbers and the \<open>Date\<close>
  built from them is valid.\<close>

definition toDateFromYmd :: "int \<Rightarrow> fuzzy option \<Rightarrow> ldate option" where
  "toDateFromYmd tz start =
     (case start of
        None \<Rightarrow> None
      | Some s \<Rightarrow>
          (case (fy s, fm s, fd s) of
             (Some y, Some m, Some d) \<Rightarrow>
               (let dt = newDate y (max 0 (m - 1)) d in
                if validTime tz dt then Some dt else None)
           | _ \<Rightarrow> None))"

subsection \<open>Constituent codes and buckets\<close>

text \<open>A constituent code. \<open>date_modified\<close> and \<open>date_added\<close> hold the time in milliseconds
  when the field is a string that parses as a date, and nothing otherwise.\<close>

record ccode =
  cc_description :: string
  cc_inactive :: bool
  cc_date_modified :: "int option"
  cc_date_added :: "int option"
  cc_start :: "fuzzy option"

definition addBucket :: "string list \<Rightarrow> string \<Rightarrow> string list" where
  "addBucket out b = (if b \<in> set out then out else out @ [b])"

definition bucketStep :: "int \<Rightarrow> int \<Rightarrow> string list \<Rightarrow> ccode \<Rightarrow> string list" where
  "bucketStep tz now out c =
     (let desc = toLowerCase (trim (cc_description c)) in
      if desc = ''student'' then
        (if \<not> cc_inactive c then addBucket out ''Current UTS Student'' else out)
      else if desc = ''staff'' then
        (if \<not> cc_inactive c then addBucket out ''Current UTS Staff''
         else
           (let dt = (case cc_date_modified c of Some t \<Rightarrow> Some t | None \<Rightarrow> cc_date_added c);
                months = map_option (\<lambda>t. monthsBetween t now) dt in
            if (case months of None \<Rightarrow> False | Some mo \<Rightarrow> mo \<le> 12 + 1 / 1000000)
            then addBucket out ''Former UTS Staff (employed within the last 12 months)''
            else addBucket out ''Former UTS Staff (employed more than 12 months ago)''))
      else if desc = ''alumni'' then
        (let dt = (case toDateFromYmd tz (cc_start c) of
                     Some d \<Rightarrow> Some (getTime tz d)
                   | None \<Rightarrow> cc_date_added c);
             months = map_option (\<lambda>t. monthsBetween t now) dt in
         if (case months of None \<Rightarrow> False | Some mo \<Rightarrow> mo \<le> 12 + 1 / 1000000)
         then addBucket out ''UTS Alumni (graduated within the last 12 months)''
         else addBucket out ''UTS Alumni (graduated more than 12 months ago)'')
      else out)"

text \<open>\<open>inferBucketsFromCodes\<close>: the labels in the order they were first added.\<close>

definition inferBucketsFromCodes :: "int \<Rightarrow> int \<Rightarrow> ccode list \<Rightarrow> string list" where
  "inferBucketsFromCodes tz now codes = foldl (bucketStep tz now) [] codes"

text \<open>\<open>alumniCommencementFromCodes\<close>\<close>

fun alumniCommencementFromCodes :: "int \<Rightarrow> ccode list \<Rightarrow> ldate option" where
  "alumniCommencementFromCodes tz [] = None"
| "alumniCommencementFromCodes tz (c # cs) =
     (if toLowerCase (trim (cc_description c)) = ''alumni'' then
        (case toDateFromYmd tz (cc_start c) of
           Some dt \<Rightarrow> Some dt
         | None \<Rightarrow> alumniCommencementFromCodes tz cs)
      else alumniCommencementFromCodes tz cs)"

definition bucket_order :: "string list" where
  "bucket_order =
     [''Current UTS Student'',
      ''Current UTS Staff'',
      ''UTS Alumni (graduated within the last 12 months)'',
      ''UTS Alumni (graduated more than 12 months ago)'',
      ''Former UTS Staff (employed within the last 12 months)'',
      ''Former UTS Staff (employed more than 12 months ago)'']"

text \<open>\<open>choosePrimaryBucket\<close>\<close>

definition choosePrimaryBucket :: "string list \<Rightarrow> string option" where
  "choosePrimaryBucket buckets =
     (case find (\<lambda>b. b \<in> set buckets) bucket_order of
        Some b \<Rightarrow> Some b
      | None \<Rightarrow> (case buckets of [] \<Rightarrow> None | b # _ \<Rightarrow> (if b = [] then None else Some b)))"

subsection \<open>Name similarity\<close>

text \<open>\<open>stripDiacritics\<close>: \<open>normalize("NFD")\<close>, then the combining marks U+0300 to U+036F
  removed. In the Latin-1 range the characters with a canonical decomposition are the accented
  letters from U+00C0 to U+00FF, each a base letter followed by marks of that block; what is
  left of them is the base letter. Every other character of the range is its own form D.\<close>

definition base_letter :: "char \<Rightarrow> char" where
  "base_letter c =
     (case map_of (zip
         [CHR 0xC0, CHR 0xC1, CHR 0xC2, CHR 0xC3, CHR 0xC4, CHR 0xC5, CHR 0xC7, CHR 0xC8,
          CHR 0xC9, CHR 0xCA, CHR 0xCB, CHR 0xCC, CHR 0xCD, CHR 0xCE, CHR 0xCF, CHR 0xD1,
          CHR 0xD2, CHR 0xD3, CHR 0xD4, CHR 0xD5, CHR 0xD6, CHR 0xD9, CHR 0xDA, CHR 0xDB,
          CHR 0xDC, CHR 0xDD, CHR 0xE0, CHR 0xE1, CHR 0xE2, CHR 0xE3, CHR 0xE4, CHR 0xE5,
          CHR 0xE7, CHR 0xE8, CHR 0xE9, CHR 0xEA, CHR 0xEB, CHR 0xEC, CHR 0xED, CHR 0xEE,
          CHR 0xEF, CHR 0xF1, CHR 0xF2, CHR 0xF3, CHR 0xF4, CHR 0xF5, CHR 0xF6, CHR 0xF9,
          CHR 0xFA, CHR 0xFB, CHR 0xFC, CHR 0xFD, CHR 0xFF]
         ''AAAAAACEEEEIIIINOOOOOUUUUYaaaaaaceeeeiiiinooooouuuuyy'') c of
        Some b \<Rightarrow> b
      | None \<Rightarrow> c)"

definition stripDiacritics :: "string \<Rightarrow> string" where
  "stripDiacritics s = map base_letter s"

definition is_az :: "char \<Rightarrow> bool" where
  "is_az c = (c \<in> set ''abcdefghijklmnopqrstuvwxyz'')"

text \<open>\<open>replace(/\s+/g, " ")\<close>\<close>

function collapse_ws :: "string \<Rightarrow> string" where
  "collapse_ws [] = []"
| "collapse_ws (c # cs) =
     (if is_ws c then CHR '' '' # collapse_ws (dropWhile is_ws cs) else c # collapse_ws cs)"
  by pat_completeness auto
termination
  by (relation "measure length") (auto simp: length_dropWhile_le less_Suc_eq_le)

definition normalizeName :: "string \<Rightarrow> string" where
  "normalizeName s =
     trim (collapse_ws (map (\<lambda>c. if is_az c \<or> is_ws c then c else CHR '' '')
                            (toLowerCase (stripDiacritics s))))"

text \<open>\<open>s.trim().split(/\s+/).filter(Boolean)\<close>\<close>

function words_ws :: "string \<Rightarrow> string list" where
  "words_ws s =
     (let t = dropWhile is_ws s in
      if t = [] then []
      else takeWhile (\<lambda>c. \<not> is_ws c) t # words_ws (dropWhile (\<lambda>c. \<not> is_ws c) t))"
  by pat_completeness auto
termination
proof (relation "measure length", goal_cases)
  case 1
  show ?case by simp
next
  case (2 s t)
  then have "t \<noteq> []" by simp
  then obtain c cs where t: "t = c # cs"
    by (meson neq_Nil_conv)
  have c: "\<not> is_ws c"
    using 2 t hd_dropWhile [of is_ws s] by (metis list.sel(1))
  have "length (dropWhile (\<lambda>c. \<not> is_ws c) t) < length t"
    using c by (simp add: t length_dropWhile_le less_Suc_eq_le)
  also have "length t \<le> length s"
    using 2 by (simp add: length_dropWhile_le)
  finally show ?case by simp
qed

text \<open>\<open>parts.join(" ")\<close>\<close>

fun join_sp :: "string list \<Rightarrow> string" where
  "join_sp [] = []"
| "join_sp [w] = w"
| "join_sp (w # v # ws) = w @ CHR '' '' # join_sp (v # ws)"

text \<open>\<open>s.split(c)\<close> for a one-character separator.\<close>

fun split_on :: "char \<Rightarrow> string \<Rightarrow> string list" where
  "split_on sep [] = [[]]"
| "split_on sep (c # cs) =
     (if c = sep then [] # split_on sep cs
      else (case split_on sep cs of
              [] \<Rightarrow> [[c]]
            | w # ws \<Rightarrow> (c # w) # ws))"

record name_parts =
  nfirst :: string
  nlast :: string

definition splitName :: "string \<Rightarrow> name_parts" where
  "splitName nrm =
     (let parts = words_ws (trim nrm) in
      if parts = [] then \<lparr>nfirst = [], nlast = []\<rparr>
      else if length parts = 1 then \<lparr>nfirst = hd parts, nlast = []\<rparr>
      else \<lparr>nfirst = join_sp (butlast parts), nlast = last parts\<rparr>)"

text \<open>\<open>scoreName\<close>. The quotient of two token counts is compared with one half exactly, as
  the floating-point quotient of such small integers is.\<close>

definition scoreName :: "string \<Rightarrow> string \<Rightarrow> nat" where
  "scoreName candidateName expectedName =
     (let c = normalizeName candidateName; e = normalizeName expectedName in
      if c = [] \<or> e = [] then 0
      else if c = e then 100
      else
        let cs = splitName c; es = splitName e in
        if nlast cs \<noteq> [] \<and> nlast es \<noteq> [] \<and> nlast cs = nlast es
           \<and> (startsWith (nfirst cs) (nfirst es) \<or> startsWith (nfirst es) (nfirst cs))
        then 85
        else
          let ct = remdups (split_on CHR '' '' c);
              et = remdups (split_on CHR '' '' e);
              inter = length (filter (\<lambda>t. t \<in> set et) ct);
              jac = (of_nat inter :: rat) / of_nat (max 1 (length ct + length et - inter)) in
          if jac \<ge> 1 / 2 then 60 else 0)"

text \<open>A constituent of a search result. \<open>c_email\<close> is \<open>r.email.address || r.email\<close>.\<close>

record candidate =
  c_id :: string
  c_name :: string
  c_email :: string
  c_lookup_id :: string

definition normalizeEmail :: "string \<Rightarrow> string" where
  "normalizeEmail s = toLowerCase (trim s)"

text \<open>The candidates with their scores, best first; \<open>Array.prototype.sort\<close> is stable.\<close>

definition scoredPool :: "candidate list \<Rightarrow> string \<Rightarrow> (candidate \<times> nat) list" where
  "scoredPool pool name =
     sort_key (\<lambda>x. - int (snd x)) (map (\<lambda>r. (r, scoreName (c_name r) name)) pool)"

text \<open>The name step of \<open>resolveCandidate\<close>: the body of \<open>if (name) { ... }\<close>, for a pool of at
  least two candidates.\<close>

definition resolveByName :: "candidate list \<Rightarrow> string \<Rightarrow> candidate option" where
  "resolveByName pool name =
     (let scored = scoredPool pool name in
      case scored of
        top1 # second # rest \<Rightarrow>
          if snd top1 > 0 then
            (if snd top1 \<ge> 85 \<or> int (snd top1) - int (snd second) \<ge> 15 then Some (fst top1)
             else
               let eLast = nlast (splitName (normalizeName name)) in
               if eLast \<noteq> [] then
                 (let lastMatches =
                        filter (\<lambda>x. nlast (splitName (normalizeName (c_name (fst x)))) = eLast) scored in
                  if length lastMatches = 1 then Some (fst (hd lastMatches)) else None)
               else None)
          else None
      | _ \<Rightarrow> None)"

text \<open>\<open>resolveCandidate\<close>\<close>

definition resolveCandidate :: "candidate list \<Rightarrow> string \<Rightarrow> string \<Rightarrow> string \<Rightarrow> candidate option" where
  "resolveCandidate results searchId email name =
     (let idStr = trim searchId;
          pool = filter (\<lambda>r. c_lookup_id r \<noteq> idStr) results in
      if length pool \<le> 1 then (case pool of [] \<Rightarrow> None | r # _ \<Rightarrow> Some r)
      else
        let emailNorm = normalizeEmail email;
            emailHit = (if emailNorm \<noteq> [] then find (\<lambda>r. normalizeEmail (c_email r) = emailNorm) pool
                        else None) in
        case emailHit of
          Some r \<Rightarrow> Some r
        | None \<Rightarrow> (if name \<noteq> [] then resolveByName pool name else None))"

subsection \<open>The Directory, and \<open>validateDiscount\<close>\<close>

text \<open>\<open>sanitizeId\<close>: trim, turn each run of white space into one space, strip trailing
  punctuation.\<close>

definition sanitizeId :: "string \<Rightarrow> string" where
  "sanitizeId s =
     rev (dropWhile (\<lambda>c. c \<in> set ''.,;:'')
            (rev (filter (\<lambda>c. c \<noteq> CHR 0xA0) (collapse_ws (trim s)))))"

text \<open>A response of the Directory: the HTTP status, the \<open>statusCode\<close> (or \<open>status\<close>) that the
  JSON body carries when it has one, and the \<open>value\<close> array of the body (empty when the body
  has none; for a full constituent record it holds the birth date, when the record has one).
  Every call may also throw, for missing credentials or a failed connection.

  The Directory and the clock are outside the program, and what they answer may change from
  one call to the next. Every request to the Directory and every reading of the clock
  (\<open>new Date()\<close>) is therefore numbered: the first argument of each function below is the
  number of requests and readings that one call of \<open>validateDiscount\<close> has made before.\<close>

record 'a http =
  h_status :: nat
  h_body_status :: "nat option"
  h_value :: "'a list"

record directory =
  searchConstituents :: "nat \<Rightarrow> string \<Rightarrow> string + candidate http"
  getConstituentCodes :: "nat \<Rightarrow> string \<Rightarrow> string + ccode http"
  getConstituentById :: "nat \<Rightarrow> string \<Rightarrow> string + fuzzy http"

text \<open>The clock: the time in milliseconds read at a step.\<close>

type_synonym clock = "nat \<Rightarrow> int"

text \<open>The query of \<open>validateDiscount\<close>.\<close>

record query =
  q_search_id :: string
  q_expected_bucket :: string
  q_email :: string
  q_name :: string
  q_dob :: string

text \<open>A candidate as listed in a result.\<close>

record cand_view =
  cv_id :: string
  cv_name :: string
  cv_email :: string
  cv_lookup_id :: string
  cv_buckets :: "string list option"

text \<open>The result object of \<open>validateDiscount\<close>. Fields that a result does not carry are
  \<open>None\<close>, empty or \<open>False\<close>; \<open>v_raw_status\<close> is \<open>raw.statusCode\<close> (or \<open>raw.status\<close>).\<close>

record vresult =
  v_valid :: bool
  v_status :: string
  v_reason :: string
  v_raw_status :: "nat option"
  v_candidates :: "cand_view list"
  v_expected_bucket :: "string option"
  v_derived_buckets :: "string list"
  v_primary_bucket :: "string option"
  v_bb_record_id :: "string option"
  v_candidate :: "cand_view option"
  v_codes :: "ccode list"
  v_qualifies_other :: bool
  v_alumni_commencement :: "iso option"
  v_alumni_expires_at :: "iso option"

definition blank_result :: vresult where
  "blank_result =
     \<lparr>v_valid = False, v_status = [], v_reason = [], v_raw_status = None, v_candidates = [],
      v_expected_bucket = None, v_derived_buckets = [], v_primary_bucket = None,
      v_bb_record_id = None, v_candidate = None, v_codes = [], v_qualifies_other = False,
      v_alumni_commencement = None, v_alumni_expires_at = None\<rparr>"

definition view_of :: "candidate \<Rightarrow> cand_view" where
  "view_of r =
     \<lparr>cv_id = c_id r, cv_name = c_name r, cv_email = c_email r, cv_lookup_id = c_lookup_id r,
      cv_buckets = None\<rparr>"

text \<open>\<open>parseDobInput\<close>: the digit groups of the input, read as year-month-day,
  day-month-year, year-month or year.\<close>

record dob_target =
  ty :: nat
  tm :: "nat option"
  td :: "nat option"

definition is_digit :: "char \<Rightarrow> bool" where
  "is_digit c = (c \<in> set ''0123456789'')"

definition digit_val :: "char \<Rightarrow> nat" where
  "digit_val c = (case map_of (zip ''0123456789'' [0, 1, 2, 3, 4, 5, 6, 7, 8, 9]) c of
                    Some v \<Rightarrow> v | None \<Rightarrow> 0)"

definition Number_of :: "string \<Rightarrow> nat" where
  "Number_of ds = foldl (\<lambda>n c. 10 * n + digit_val c) 0 ds"

text \<open>\<open>replace(/-+/g, "-")\<close>\<close>

function collapse_dash :: "string \<Rightarrow> string" where
  "collapse_dash [] = []"
| "collapse_dash (c # cs) =
     (if c = CHR ''-'' then CHR ''-'' # collapse_dash (dropWhile (\<lambda>x. x = CHR ''-'') cs)
      else c # collapse_dash cs)"
  by pat_completeness auto
termination
  by (relation "measure length") (auto simp: length_dropWhile_le less_Suc_eq_le)

text \<open>\<open>replace(/^-|-$/g, "")\<close>\<close>

definition strip_dash :: "string \<Rightarrow> string" where
  "strip_dash t =
     (let u = (case t of c # cs \<Rightarrow> (if c = CHR ''-'' then cs else t) | [] \<Rightarrow> []) in
      if u \<noteq> [] \<and> last u = CHR ''-'' then butlast u else u)"

definition len4 :: "nat option \<Rightarrow> bool" where
  "len4 p = (case p of None \<Rightarrow> False | Some n \<Rightarrow> length (showNat n) = 4)"

definition parseDobInput :: "string \<Rightarrow> dob_target option" where
  "parseDobInput dobStr =
     (let s = trim dobStr in
      if s = [] then None
      else
        let t = strip_dash (collapse_dash (map (\<lambda>c. if is_digit c then c else CHR ''-'') s));
            parts = map (\<lambda>x. if x \<noteq> [] then Some (Number_of x) else None) (split_on CHR ''-'' t) in
        case parts of
          [p0, p1, p2] \<Rightarrow>
            (if len4 p0 then Some \<lparr>ty = the p0, tm = p1, td = p2\<rparr>
             else if len4 p2 then Some \<lparr>ty = the p2, tm = p1, td = p0\<rparr>
             else None)
        | [p0, p1] \<Rightarrow> (if len4 p0 then Some \<lparr>ty = the p0, tm = p1, td = None\<rparr> else None)
        | [p0] \<Rightarrow> (if len4 p0 then Some \<lparr>ty = the p0, tm = None, td = None\<rparr> else None)
        | _ \<Rightarrow> None)"

text \<open>\<open>Number(x) || null\<close> on a component of a birth date.\<close>

definition num_or_null :: "int option \<Rightarrow> int option" where
  "num_or_null v = (case v of None \<Rightarrow> None | Some n \<Rightarrow> (if n = 0 then None else Some n))"

definition dob_component_ok :: "nat option \<Rightarrow> int option \<Rightarrow> bool" where
  "dob_component_ok expected actual =
     (case expected of
        None \<Rightarrow> True
      | Some e \<Rightarrow> (if e = 0 then True else num_or_null actual = Some (int e)))"

text \<open>\<open>matchDob\<close>\<close>

definition matchDob :: "fuzzy option \<Rightarrow> dob_target \<Rightarrow> bool" where
  "matchDob candidateBirthdate dobExpected =
     (case candidateBirthdate of
        None \<Rightarrow> False
      | Some b \<Rightarrow>
          dob_component_ok (Some (ty dobExpected)) (fy b)
          \<and> dob_component_ok (tm dobExpected) (fm b)
          \<and> dob_component_ok (td dobExpected) (fd b))"

text \<open>The loop of \<open>resolveByDob\<close>, from step \<open>t\<close>: the candidates whose full record was
  fetched and whose birth date matches, and the step after the loop. \<open>Inl\<close> is an exception
  thrown by a Directory call.\<close>

fun dobMatches ::
  "directory \<Rightarrow> dob_target \<Rightarrow> candidate list \<Rightarrow> nat \<Rightarrow> string + (candidate list \<times> nat)" where
  "dobMatches dir target [] t = Inr ([], t)"
| "dobMatches dir target (r # rs) t =
     (case getConstituentById dir t (c_id r) of
        Inl e \<Rightarrow> Inl e
      | Inr det \<Rightarrow>
          (case dobMatches dir target rs (t + 1) of
             Inl e \<Rightarrow> Inl e
           | Inr (ms, t') \<Rightarrow>
               if h_status det \<noteq> 200 then Inr (ms, t')
               else if matchDob (case h_value det of [] \<Rightarrow> None | b # _ \<Rightarrow> Some b) target
               then Inr (r # ms, t') else Inr (ms, t')))"

definition resolveByDob ::
  "directory \<Rightarrow> candidate list \<Rightarrow> string \<Rightarrow> nat \<Rightarrow> string + (candidate option \<times> nat)" where
  "resolveByDob dir pool dobStr t =
     (case parseDobInput dobStr of
        None \<Rightarrow> Inr (None, t)
      | Some target \<Rightarrow>
          (case dobMatches dir target pool t of
             Inl e \<Rightarrow> Inl e
           | Inr (ms, t') \<Rightarrow> Inr (if length ms = 1 then Some (hd ms) else None, t')))"

text \<open>\<open>evaluateSingle\<close>, the helper inside \<open>validateDiscount\<close>, called at step \<open>t\<close>: the
  response for one resolved candidate. It fetches the codes of the candidate, and
  \<open>inferBucketsFromCodes\<close> reads the clock (its default argument \<open>now = new Date()\<close>). The
  \<open>toISOString()\<close> of an expiry beyond the range of \<open>Date\<close> throws.\<close>

definition evaluateSingle ::
  "directory \<Rightarrow> int \<Rightarrow> clock \<Rightarrow> string \<Rightarrow> candidate \<Rightarrow> nat \<Rightarrow> string + vresult" where
  "evaluateSingle dir tz clock expected resolved t =
     (let id = c_id resolved in
      case getConstituentCodes dir t id of
        Inl e \<Rightarrow> Inl e
      | Inr cr \<Rightarrow>
          if h_status cr \<noteq> 200 then
            Inr (blank_result\<lparr>v_valid := False, v_status := ''error'',
                   v_reason := ''codes '' @ showNat (h_status cr), v_bb_record_id := Some id,
                   v_raw_status := h_body_status cr\<rparr>)
          else
            let cs = h_value cr;
                buckets = inferBucketsFromCodes tz (clock (t + 1)) cs;
                primary = choosePrimaryBucket buckets;
                isValid = (if expected \<noteq> [] then expected \<in> set buckets else buckets \<noteq> []);
                qualifiesOther = (\<not> isValid \<and> buckets \<noteq> [] \<and> expected \<noteq> []);
                alumnStart = alumniCommencementFromCodes tz cs in
            if (case alumnStart of None \<Rightarrow> False | Some d \<Rightarrow> \<not> validTime tz (addMonths d 12))
            then Inl ''Invalid time value''
            else
              Inr (blank_result\<lparr>v_valid := isValid,
                     v_status := (if isValid then ''valid'' else ''invalid''),
                     v_expected_bucket := (if expected \<noteq> [] then Some expected else None),
                     v_derived_buckets := buckets,
                     v_primary_bucket := primary,
                     v_bb_record_id := Some id,
                     v_candidate := Some (view_of resolved),
                     v_codes := cs,
                     v_qualifies_other := qualifiesOther,
                     v_alumni_commencement := map_option (toISOString tz) alumnStart,
                     v_alumni_expires_at :=
                       map_option (\<lambda>d. toISOString tz (addMonths d 12)) alumnStart\<rparr>))"

text \<open>The loop that evaluates every pool candidate, from step \<open>t\<close>: those whose codes were
  fetched with status 200, each with the buckets derived at the clock read after the fetch,
  in pool order; and the step after the loop.\<close>

fun evaluatePool ::
  "directory \<Rightarrow> int \<Rightarrow> clock \<Rightarrow> candidate list \<Rightarrow> nat
   \<Rightarrow> string + ((candidate \<times> string list) list \<times> nat)" where
  "evaluatePool dir tz clock [] t = Inr ([], t)"
| "evaluatePool dir tz clock (r # rs) t =
     (case getConstituentCodes dir t (c_id r) of
        Inl e \<Rightarrow> Inl e
      | Inr cr \<Rightarrow>
          if h_status cr \<noteq> 200 then evaluatePool dir tz clock rs (t + 1)
          else
            (case evaluatePool dir tz clock rs (t + 2) of
               Inl e \<Rightarrow> Inl e
             | Inr (ev, t') \<Rightarrow>
                 Inr ((r, inferBucketsFromCodes tz (clock (t + 1)) (h_value cr)) # ev, t')))"

text \<open>The part of \<open>validateDiscount\<close> after no single candidate was resolved, from step
  \<open>t\<close>. When exactly one evaluated candidate has the expected bucket, \<open>evaluateSingle\<close> is
  called for it after the loop: the codes are fetched and the clock is read once more.\<close>

definition evaluateAmbiguous ::
  "directory \<Rightarrow> int \<Rightarrow> clock \<Rightarrow> string \<Rightarrow> candidate list \<Rightarrow> nat \<Rightarrow> string + vresult" where
  "evaluateAmbiguous dir tz clock expected pool t =
     (if pool = [] then
        Inr (blank_result\<lparr>v_valid := False, v_status := ''not_found'',
               v_reason := ''no matches after excluding lookup collisions'', v_candidates := []\<rparr>)
      else
        case evaluatePool dir tz clock pool t of
          Inl e \<Rightarrow> Inl e
        | Inr (evaluated, t') \<Rightarrow>
            let expectedMatches =
                  (if expected \<noteq> [] then filter (\<lambda>x. expected \<in> set (snd x)) evaluated
                   else filter (\<lambda>x. snd x \<noteq> []) evaluated) in
            if expected \<noteq> [] \<and> length expectedMatches = 1 then
              evaluateSingle dir tz clock expected (fst (hd expectedMatches)) t'
            else if expected \<noteq> [] \<and> length expectedMatches > 1 then
              Inr (blank_result\<lparr>v_valid := False, v_status := ''ambiguous'',
                     v_reason := ''multiple candidates match expected bucket'',
                     v_candidates := map (\<lambda>x. view_of (fst x)) expectedMatches\<rparr>)
            else
              Inr (blank_result\<lparr>v_valid := False, v_status := ''invalid'',
                     v_reason := (if expected \<noteq> [] then ''expected bucket not present on any candidate''
                                else ''no qualifying buckets''),
                     v_candidates := map (\<lambda>x. (view_of (fst x))\<lparr>cv_buckets := Some (snd x)\<rparr>) evaluated\<rparr>))"

text \<open>The candidate that the disambiguation steps resolve, from step \<open>t\<close>: \<open>resolveCandidate\<close>,
  then \<open>resolveByDob\<close> when that found none and a birth date was supplied; and the step
  after.\<close>

definition disambiguate ::
  "directory \<Rightarrow> string \<Rightarrow> query \<Rightarrow> candidate list \<Rightarrow> nat \<Rightarrow> string + (candidate option \<times> nat)" where
  "disambiguate dir sanitized q value t =
     (let candidate = resolveCandidate value sanitized (q_email q) (q_name q);
          pool = filter (\<lambda>r. c_lookup_id r \<noteq> sanitized) value in
      if candidate = None \<and> q_dob q \<noteq> [] then resolveByDob dir pool (q_dob q) t
      else Inr (candidate, t))"

text \<open>\<open>validateDiscount\<close>. The search is request number 0. \<open>Inl\<close> is an exception that leaves
  the function.\<close>

definition validateDiscount :: "directory \<Rightarrow> int \<Rightarrow> clock \<Rightarrow> query \<Rightarrow> string + vresult" where
  "validateDiscount dir tz clock q =
     (let sanitized = sanitizeId (q_search_id q) in
      case searchConstituents dir 0 sanitized of
        Inl e \<Rightarrow> Inl e
      | Inr sr \<Rightarrow>
          if h_status sr \<noteq> 200 then
            Inr (blank_result\<lparr>v_valid := False, v_status := ''error'',
                   v_reason := ''search '' @ showNat (h_status sr), v_raw_status := h_body_status sr\<rparr>)
          else
            (let value = h_value sr in
             if value = [] then
               Inr (blank_result\<lparr>v_valid := False, v_status := ''not_found'', v_reason := ''no matches'',
                      v_candidates := []\<rparr>)
             else
               (let pool = filter (\<lambda>r. c_lookup_id r \<noteq> sanitized) value in
                (case disambiguate dir sanitized q value 1 of
                   Inl e \<Rightarrow> Inl e
                 | Inr (Some candidate, t) \<Rightarrow>
                     evaluateSingle dir tz clock (q_expected_bucket q) candidate t
                 | Inr (None, t) \<Rightarrow> evaluateAmbiguous dir tz clock (q_expected_bucket q) pool t))))"

subsection \<open>Sample Directory data\<close>

definition no_codes :: "string + ccode http" where
  "no_codes = Inr \<lparr>h_status = 404, h_body_status = None, h_value = []\<rparr>"

definition mk_code :: "string \<Rightarrow> bool \<Rightarrow> fuzzy option \<Rightarrow> ccode" where
  "mk_code desc inact st =
     \<lparr>cc_description = desc, cc_inactive = inact, cc_date_modified = None, cc_date_added = None, cc_start = st\<rparr>"




text \<open>\<open>2024-06-01T00:00:00Z\<close> in milliseconds, and a clock that stands still there.\<close>

definition ex_now :: int where
  "ex_now = 1717200000000"

definition ex_clock :: clock where
  "ex_clock = (\<lambda>t. ex_now)"





text \<open>The buckets derived for a candidate whose codes are requested at step \<open>t\<close>, when the
  request answers with status 200: the clock is read at the next step.\<close>

definition bucketsAt :: "directory \<Rightarrow> int \<Rightarrow> clock \<Rightarrow> nat \<Rightarrow> candidate \<Rightarrow> string list option" where
  "bucketsAt dir tz clock t r =
     (case getConstituentCodes dir t (c_id r) of
        Inl e \<Rightarrow> None
      | Inr cr \<Rightarrow> (if h_status cr = 200
                    then Some (inferBucketsFromCodes tz (clock (t + 1)) (h_value cr)) else None))"

text \<open>The steps at which the codes of the pool candidates are requested by a loop that starts
  at step \<open>t\<close>: a request that answers 200 is followed by a reading of the clock.\<close>

fun poolSteps :: "directory \<Rightarrow> candidate list \<Rightarrow> nat \<Rightarrow> nat list" where
  "poolSteps dir [] t = []"
| "poolSteps dir (r # rs) t =
     t # poolSteps dir rs
           (case getConstituentCodes dir t (c_id r) of
              Inl e \<Rightarrow> t + 1
            | Inr cr \<Rightarrow> (if h_status cr = 200 then t + 2 else t + 1))"

text \<open>Whether the expiry that \<open>evaluateSingle\<close> computes for a list of codes is a valid
  \<open>Date\<close>.\<close>

definition expiryInRange :: "int \<Rightarrow> ccode list \<Rightarrow> bool" where
  "expiryInRange tz cs =
     (case alumniCommencementFromCodes tz cs of
        None \<Rightarrow> True
      | Some d \<Rightarrow> validTime tz (addMonths d 12))"

definition mk_cand :: "string \<Rightarrow> string \<Rightarrow> candidate" where
  "mk_cand i n = \<lparr>c_id = i, c_name = n, c_email = [], c_lookup_id = ''L-'' @ i\<rparr>"

definition ok_codes :: "ccode list \<Rightarrow> string + ccode http" where
  "ok_codes cs = Inr \<lparr>h_status = 200, h_body_status = None, h_value = cs\<rparr>"

text \<open>Three constituents found for one id: two current students and one current member of
  staff.\<close>

definition ex_dir_three :: directory where
  "ex_dir_three =
     \<lparr>searchConstituents =
        (\<lambda>t s. Inr \<lparr>h_status = 200, h_body_status = None,
                   h_value = [mk_cand ''1'' ''Ann Lee'', mk_cand ''2'' ''Bo Chan'', mk_cand ''3'' ''Cy Diaz'']\<rparr>),
      getConstituentCodes =
        (\<lambda>t i. if i = ''1'' \<or> i = ''2'' then ok_codes [mk_code ''Student'' False None]
              else if i = ''3'' then ok_codes [mk_code ''Staff'' False None]
              else no_codes),
      getConstituentById = (\<lambda>t i. Inr \<lparr>h_status = 404, h_body_status = None, h_value = []\<rparr>)\<rparr>"

text \<open>Two constituents found; the codes of the first cannot be fetched.\<close>

definition ex_dir_partial :: directory where
  "ex_dir_partial =
     \<lparr>searchConstituents =
        (\<lambda>t s. Inr \<lparr>h_status = 200, h_body_status = None,
                   h_value = [mk_cand ''1'' ''Ann Lee'', mk_cand ''2'' ''Bo Chan'']\<rparr>),
      getConstituentCodes =
        (\<lambda>t i. if i = ''1'' then Inr \<lparr>h_status = 500, h_body_status = Some 500, h_value = []\<rparr>
              else if i = ''2'' then ok_codes [mk_code ''Staff'' False None]
              else no_codes),
      getConstituentById = (\<lambda>t i. Inr \<lparr>h_status = 404, h_body_status = None, h_value = []\<rparr>)\<rparr>"

definition ex_query :: query where
  "ex_query = \<lparr>q_search_id = ''UTS-001  '', q_expected_bucket = ''Current UTS Student'', q_email = [],
               q_name = [], q_dob = []\<rparr>"

text \<open>One pool of two constituents, the first a current student, the second a current member
  of staff. The codes of the first are served once: the second request for them (request
  number 5, after the search, two requests with a reading of the clock each) is refused.\<close>

definition ex_dir_flaky :: directory where
  "ex_dir_flaky =
     \<lparr>searchConstituents =
        (\<lambda>t s. Inr \<lparr>h_status = 200, h_body_status = None,
                     h_value = [mk_cand ''1'' ''Ann Lee'', mk_cand ''2'' ''Bo Chan'']\<rparr>),
      getConstituentCodes =
        (\<lambda>t i. if i = ''1'' then
                 (if t < 5 then ok_codes [mk_code ''Student'' False None]
                  else Inr \<lparr>h_status = 429, h_body_status = Some 429, h_value = []\<rparr>)
               else if i = ''2'' then ok_codes [mk_code ''Staff'' False None]
               else no_codes),
      getConstituentById = (\<lambda>t i. Inr \<lparr>h_status = 404, h_body_status = None, h_value = []\<rparr>)\<rparr>"

subsection \<open>Name disambiguation, as a specification\<close>

text \<open>A string of ASCII characters. On such a string the Unicode normalisation of
  \<open>stripDiacritics\<close> changes nothing, and \<open>toLowerCase\<close> changes the letters A to Z only.\<close>

definition is_ascii :: "string \<Rightarrow> bool" where
  "is_ascii s = list_all (\<lambda>c. (of_char c :: nat) < 128) s"

text \<open>The score of a pool candidate against the expected name.\<close>

definition scoreOf :: "string \<Rightarrow> candidate \<Rightarrow> nat" where
  "scoreOf expectedName r = scoreName (c_name r) expectedName"

text \<open>The tokens of a normalised name, as a set.\<close>

definition tokens :: "string \<Rightarrow> string set" where
  "tokens s = set (split_on CHR '' '' s)"

text \<open>The score as a case distinction on the two normalised names, with the Jaccard
  similarity of their token sets.\<close>

definition scoreSpec :: "string \<Rightarrow> string \<Rightarrow> nat" where
  "scoreSpec candidateName expectedName =
     (let c = normalizeName candidateName; e = normalizeName expectedName;
          cs = splitName c; es = splitName e in
      if c = [] \<or> e = [] then 0
      else if c = e then 100
      else if nlast cs \<noteq> [] \<and> nlast cs = nlast es
              \<and> (prefix (nfirst es) (nfirst cs) \<or> prefix (nfirst cs) (nfirst es)) then 85
      else if 2 * card (tokens c \<inter> tokens e) \<ge> card (tokens c \<union> tokens e) then 60
      else 0)"

text \<open>The best score in the pool, the first candidate that has it, and the best score among
  the other candidates.\<close>

definition bestScore :: "candidate list \<Rightarrow> string \<Rightarrow> nat" where
  "bestScore pool expectedName = Max (set (map (scoreOf expectedName) pool))"

definition firstBest :: "candidate list \<Rightarrow> string \<Rightarrow> candidate option" where
  "firstBest pool expectedName =
     find (\<lambda>r. scoreOf expectedName r = bestScore pool expectedName) pool"

definition runnerUp :: "candidate list \<Rightarrow> string \<Rightarrow> nat" where
  "runnerUp pool expectedName =
     (case firstBest pool expectedName of
        None \<Rightarrow> 0
      | Some b \<Rightarrow> Max (set (map (scoreOf expectedName) (remove1 b pool))))"

text \<open>The pool candidates whose normalised last name is the expected last name.\<close>

definition lastNameMatches :: "candidate list \<Rightarrow> string \<Rightarrow> candidate list" where
  "lastNameMatches pool expectedName =
     filter (\<lambda>r. nlast (splitName (normalizeName (c_name r)))
                  = nlast (splitName (normalizeName expectedName))) pool"

text \<open>Acceptance as the code decides it.\<close>

definition acceptSpec :: "candidate list \<Rightarrow> string \<Rightarrow> candidate option" where
  "acceptSpec pool expectedName =
     (if bestScore pool expectedName = 0 then None
      else if bestScore pool expectedName \<ge> 85
              \<or> bestScore pool expectedName \<ge> runnerUp pool expectedName + 15
           then firstBest pool expectedName
      else if nlast (splitName (normalizeName expectedName)) \<noteq> []
              \<and> length (lastNameMatches pool expectedName) = 1
           then Some (hd (lastNameMatches pool expectedName))
      else None)"

text \<open>Acceptance as the claim words it: the top scorer is accepted if and only if its score
  is at least 85, or it beats the runner-up by at least 15, or it is the unique candidate whose
  normalised last name equals the expected last name.\<close>

definition acceptClaimed :: "candidate list \<Rightarrow> string \<Rightarrow> candidate option" where
  "acceptClaimed pool expectedName =
     (case firstBest pool expectedName of
        None \<Rightarrow> None
      | Some b \<Rightarrow>
          if bestScore pool expectedName \<ge> 85
             \<or> bestScore pool expectedName \<ge> runnerUp pool expectedName + 15
             \<or> lastNameMatches pool expectedName = [b]
          then Some b else None)"

definition ex_pool_zero :: "candidate list" where
  "ex_pool_zero = [mk_cand ''1'' ''X Smith'', mk_cand ''2'' ''Y Jones'']"

definition ex_pool_tie :: "candidate list" where
  "ex_pool_tie =
     [mk_cand ''1'' ''John Paul Jones'', mk_cand ''2'' ''Paul John Jones'',
      mk_cand ''3'' ''X Y Z W Smith'']"

section \<open>Job Orchestrator\<close>

subsection \<open>Jobs and the registry\<close>

datatype job_state = Idle | Running | Done | Error | Blocked

record progress =
  validated :: nat
  total :: nat

text \<open>An entry of the live checklist \<open>job.members\<close>.\<close>

record checklist_entry =
  ce_id :: string
  ce_name :: string
  ce_type :: fval
  ce_expected_bucket :: fval
  ce_status :: string
  ce_reason_code :: "string option"
  ce_reason_message :: "string option"

text \<open>An element of the \<open>results\<close> array of \<open>runMemberValidationsSequential\<close>: either
  \<open>{ memberId, skipped: true, reason }\<close> or \<open>{ memberId, result, airtableUpdate }\<close>, where the
  last component is the error message when the write to the Persistent Store threw.\<close>

datatype member_outcome = Skipped string | Validated vresult "string option"

record member_result =
  memberId :: string
  outcome :: member_outcome

datatype job_result =
    NoResult
  | BlockedResult bool bool bool
  | DoneResult string string "member_result list"
  | ErrorResult string

record job =
  j_state :: job_state
  j_startedAt :: nat
  j_finishedAt :: "nat option"
  j_progress :: progress
  j_members :: "checklist_entry list"
  j_result :: job_result

type_synonym registry = "string \<rightharpoonup> job"

text \<open>The \<open>job\<close> object of a response of the trigger route.\<close>

record snapshot =
  s_state :: job_state
  s_startedAt :: nat
  s_progress :: progress

record response =
  http_status :: nat
  message :: string
  job_view :: "snapshot option"

definition snapshot_of :: "job \<Rightarrow> snapshot" where
  "snapshot_of j = \<lparr>s_state = j_state j, s_startedAt = j_startedAt j, s_progress = j_progress j\<rparr>"

text \<open>The handler of \<open>POST /validate-and-generate/:token\<close>, from the resolved
  organization id to its response; the middleware in front of it follows below.
  \<open>startupRecordId\<close> is the resolved organization id (empty when none was found) and \<open>now\<close>
  the clock. The result is the response, the registry \<open>JOBS\<close> afterwards, and whether the
  detached run was started.\<close>

definition triggerRoute :: "registry \<Rightarrow> string \<Rightarrow> nat \<Rightarrow> response \<times> registry \<times> bool" where
  "triggerRoute JOBS startupRecordId now =
     (if startupRecordId = [] then
        (\<lparr>http_status = 400, message = ''No linked UTS Startups record found for this token.'',
          job_view = None\<rparr>, JOBS, False)
      else
        let existing = JOBS startupRecordId in
        if (case existing of None \<Rightarrow> False | Some ex \<Rightarrow> j_state ex = Running) then
          (\<lparr>http_status = 202, message = ''Validation/generation already in progress'',
            job_view = map_option snapshot_of existing\<rparr>, JOBS, False)
        else
          let job = \<lparr>j_state = Running, j_startedAt = now, j_finishedAt = None,
                      j_progress = \<lparr>validated = 0, total = 0\<rparr>, j_members = [],
                      j_result = NoResult\<rparr> in
          (\<lparr>http_status = 202, message = ''Validation and generation started'',
            job_view = Some (snapshot_of job)\<rparr>, JOBS(startupRecordId \<mapsto> job), True))"


text \<open>No stored job is \<open>idle\<close>: that state is only reported for an organization without a
  job.\<close>

definition registry_ok :: "registry \<Rightarrow> bool" where
  "registry_ok JOBS = (\<forall>j \<in> ran JOBS. j_state j \<noteq> Idle)"

subsection \<open>The middleware in front of the trigger handler\<close>














subsection \<open>Per-member validation\<close>

text \<open>\<open>hasDiscountRequest\<close>\<close>

definition hasDiscountRequest :: "string \<Rightarrow> bool" where
  "hasDiscountRequest expectedRaw =
     (if expectedRaw = [] then False
      else let s = toLowerCase (trim expectedRaw) in
           if s = [] then False else s \<noteq> ''none of the above'')"

text \<open>\<open>mapReason\<close>, on a string.\<close>

definition mapReason :: "string \<Rightarrow> string option \<times> string" where
  "mapReason internal =
     (let s = toLowerCase internal in
      if s = ''valid'' \<or> internal = ''validated'' then (Some ''validated'', ''Validated'')
      else if s = ''ambiguous'' then (Some ''ambiguous'', ''Multiple possible matches'')
      else if s = ''unauthorized'' then (Some ''unauthorized'', ''Authorization is required'')
      else if s = ''not_found'' then (Some ''not_found'', ''No matching record found'')
      else if s = ''invalid'' \<or> s = ''mismatch'' then (Some ''mismatch'', ''Does not match records'')
      else if s = ''error'' then (Some ''error'', ''Validation error'')
      else if s = ''skipped'' \<or> s = ''no_request'' then (Some ''no_request'', ''No discount requested'')
      else if s = ''manual'' \<or> s = ''manual_override'' then (Some ''manual'', ''Manual check override'')
      else (None, []))"

text \<open>The argument of \<open>onUpdate\<close>; an absent or empty property is the empty string.\<close>

record partial =
  pa_status :: string
  pa_reason_code :: string
  pa_reason_message :: string

fun update_first :: "string \<Rightarrow> (checklist_entry \<Rightarrow> checklist_entry) \<Rightarrow> checklist_entry list
                     \<Rightarrow> checklist_entry list" where
  "update_first mid upd [] = []"
| "update_first mid upd (m # ms) =
     (if ce_id m = mid then upd m # ms else m # update_first mid upd ms)"

text \<open>The \<open>onUpdate\<close> callback that the trigger route passes to
  \<open>runMemberValidationsSequential\<close>.\<close>

definition onUpdate :: "job \<Rightarrow> string \<Rightarrow> partial \<Rightarrow> job" where
  "onUpdate job mid p =
     (case find (\<lambda>x. ce_id x = mid) (j_members job) of
        None \<Rightarrow> job
      | Some m \<Rightarrow>
          let upd = (\<lambda>m. m\<lparr>ce_status := (if pa_status p \<noteq> [] then pa_status p else ce_status m),
                           ce_reason_code := (if pa_reason_code p \<noteq> [] then Some (pa_reason_code p)
                                              else ce_reason_code m),
                           ce_reason_message := (if pa_reason_message p \<noteq> []
                                                 then Some (pa_reason_message p)
                                                 else ce_reason_message m)\<rparr>);
              job' = job\<lparr>j_members := update_first mid upd (j_members job)\<rparr> in
          if toLowerCase (pa_status p) \<in> set [''valid'', ''invalid'', ''ambiguous'', ''error'', ''skipped'']
          then job'\<lparr>j_progress := (j_progress job')
                       \<lparr>validated := min (validated (j_progress job') + 1) (total (j_progress job'))\<rparr>\<rparr>
          else job')"

text \<open>The Persistent Store, as far as the run writes to it: the field writes to member
  records, in order, and the attachment list and creation date written to the organization.\<close>

datatype wval = WStr string | WDate ldate

record store =
  member_writes :: "(string \<times> (string \<times> wval) list) list"
  agreement :: "string list option"
  agreement_created :: "string option"

text \<open>What the run observes of its collaborators. Each call either returns or throws
  (\<open>Inl\<close>, or \<open>Some\<close> message for a call without a result). \<open>e_validate n\<close> is
  \<open>validator.validateDiscount\<close> after \<open>n\<close> successful token refreshes; \<open>e_refresh k\<close> tells
  whether the refresh attempted after \<open>k\<close> earlier attempts succeeds.\<close>

record env =
  e_fetch :: "string + (arec \<times> arec list)"
  e_devFake :: bool
  e_validate :: "nat \<Rightarrow> query \<Rightarrow> string + vresult"
  e_refresh :: "nat \<Rightarrow> bool"
  e_storeUpdate :: "string \<Rightarrow> string option"
  e_payload :: "string + string"
  e_render :: "string + string"
  e_cache :: "string option"
  e_existing_agreement :: "string list"
  e_attach :: "string option"
  e_stamp :: "string option"
  e_now :: nat
  e_today :: string
  e_download_url :: string
  e_stable_url :: string

text \<open>The calls that leave the process, and the two log lines that mark the gate check and
  the start of a member's processing, in the order they happen.\<close>

datatype event =
    EvFetch
  | EvGates bool bool bool
  | EvMember string
  | EvResolver string query
  | EvRefresh
  | EvStoreWrite string
  | EvPayload
  | EvRender
  | EvCache
  | EvAttach
  | EvStamp

text \<open>\<open>updateMemberValidation\<close>: the fields written for a result.\<close>

definition validationFields :: "string \<Rightarrow> vresult \<Rightarrow> string \<Rightarrow> (string \<times> wval) list" where
  "validationFields today result expected =
     (let selection =
            (if v_valid result then ''Valid''
             else if v_qualifies_other result then ''Qualifies for Other''
             else if v_status result = ''ambiguous'' then ''Ambiguous''
             else ''Invalid'') in
      [(''Discount Validated'', WStr selection), (''Discount Valid Date'', WStr today)]
      @ (case v_alumni_expires_at result of
           None \<Rightarrow> []
         | Some t \<Rightarrow> [(''Discount Expires'', WDate (iso_date t))])
      @ (if expected \<noteq> [] then [(''Discount Category'', WStr expected)] else []))"

text \<open>The state that the member loop threads: the job, the store, the events so far, the
  \<open>results\<close> array, and the numbers of successful and of attempted token refreshes.\<close>

record lstate =
  l_job :: job
  l_store :: store
  l_trace :: "event list"
  l_results :: "member_result list"
  l_refreshed :: nat
  l_attempts :: nat

definition needsRefresh :: "vresult \<Rightarrow> bool" where
  "needsRefresh result = (v_raw_status result = Some 401 \<or> str_includes (v_reason result) ''401'')"

definition devFakeResult :: "string \<Rightarrow> string \<Rightarrow> string \<Rightarrow> string \<Rightarrow> vresult" where
  "devFakeResult expected name email sid =
     (let bucket = (if expected \<noteq> [] then expected else ''Current UTS Staff'') in
      blank_result\<lparr>v_valid := True, v_status := ''valid'',
        v_expected_bucket := (if expected \<noteq> [] then Some expected else None),
        v_derived_buckets := [bucket], v_primary_bucket := Some bucket,
        v_bb_record_id := Some ''DEV-FAKE'',
        v_candidate := Some \<lparr>cv_id = ''DEV'', cv_name = name, cv_email = email,
                              cv_lookup_id = sid, cv_buckets = None\<rparr>\<rparr>)"

text \<open>The call of the Resolver for one member, with the single refresh and retry on 401.
  The result is the state, and the result object or the exception thrown.\<close>

definition callValidator :: "env \<Rightarrow> string \<Rightarrow> query \<Rightarrow> lstate \<Rightarrow> lstate \<times> (string + vresult)" where
  "callValidator env mid q s =
     (let s1 = s\<lparr>l_trace := l_trace s @ [EvResolver mid q]\<rparr> in
      case e_validate env (l_refreshed s) q of
        Inl e \<Rightarrow> (s1, Inl e)
      | Inr result \<Rightarrow>
          if needsRefresh result then
            (let ok = e_refresh env (l_attempts s1);
                 s2 = s1\<lparr>l_trace := l_trace s1 @ [EvRefresh], l_attempts := l_attempts s1 + 1\<rparr> in
             if ok then
               (let s3 = s2\<lparr>l_refreshed := l_refreshed s2 + 1,
                            l_trace := l_trace s2 @ [EvResolver mid q]\<rparr> in
                (s3, e_validate env (l_refreshed s3) q))
             else (s2, Inr result))
          else (s1, Inr result))"

definition pendingUpdate :: partial where
  "pendingUpdate = \<lparr>pa_status = ''pending'', pa_reason_code = [], pa_reason_message = []\<rparr>"

text \<open>The state after a member was marked pending.\<close>

definition startMember :: "arec \<Rightarrow> lstate \<Rightarrow> lstate" where
  "startMember r s =
     s\<lparr>l_job := onUpdate (l_job s) (rec_id r) pendingUpdate,
       l_trace := l_trace s @ [EvMember (rec_id r)]\<rparr>"

text \<open>The state after a pending member was skipped with a checklist update.\<close>

definition skipMember :: "arec \<Rightarrow> string \<Rightarrow> string \<Rightarrow> string \<Rightarrow> lstate \<Rightarrow> lstate" where
  "skipMember r code msg why s0 =
     s0\<lparr>l_job := onUpdate (l_job s0) (rec_id r)
                     \<lparr>pa_status = ''skipped'', pa_reason_code = code, pa_reason_message = msg\<rparr>,
        l_results := l_results s0 @ [\<lparr>memberId = rec_id r, outcome = Skipped why\<rparr>]\<rparr>"

text \<open>The inputs that are built for a member: the expected category, with the manual
  category taking its place when a manual check and a manual category are both present, and
  the query.\<close>

definition memberExpected :: "arec \<Rightarrow> string" where
  "memberExpected r =
     (if trim (getField r ''Manual Discount Check'') \<noteq> []
         \<and> trim (getField r ''Manual Discount Category'') \<noteq> []
      then getField r ''Manual Discount Category'' else getField r ''Discount Category'')"

definition memberQuery :: "arec \<Rightarrow> query" where
  "memberQuery r =
     \<lparr>q_search_id = trim (getField r ''UTS ID''),
      q_expected_bucket = memberExpected r,
      q_email = getField r ''UTS Email'',
      q_name = (if getField r ''Name'' \<noteq> [] then getField r ''Name''
                else getField r ''Team member ID''),
      q_dob = (if getField r ''Date of birth*'' \<noteq> [] then getField r ''Date of birth*''
               else if getField r ''Date of Birth'' \<noteq> [] then getField r ''Date of Birth''
               else getField r ''DOB'')\<rparr>"

text \<open>The end of an iteration that has a result: the write to the Persistent Store (whose
  exception is caught and kept with the result), the checklist update, the push to
  \<open>results\<close>.\<close>

definition recordResult :: "env \<Rightarrow> arec \<Rightarrow> vresult \<Rightarrow> lstate \<Rightarrow> lstate" where
  "recordResult env r result s1 =
     (let mid = rec_id r;
          threw = (if mid = [] then None else e_storeUpdate env mid);
          s2 = (if mid = [] then s1
                else s1\<lparr>l_trace := l_trace s1 @ [EvStoreWrite mid],
                        l_store := (if threw = None
                                    then (l_store s1)
                                           \<lparr>member_writes := member_writes (l_store s1)
                                              @ [(mid, validationFields (e_today env) result
                                                         (memberExpected r))]\<rparr>
                                    else l_store s1)\<rparr>);
          pub = mapReason (if v_status result \<noteq> [] then v_status result else v_reason result);
          st = (if toLowerCase (v_status result) \<noteq> [] then toLowerCase (v_status result)
                else if v_valid result then ''valid'' else ''invalid'') in
      s2\<lparr>l_job := onUpdate (l_job s2) mid
                      \<lparr>pa_status = st,
                       pa_reason_code = (case fst pub of None \<Rightarrow> [] | Some c \<Rightarrow> c),
                       pa_reason_message = snd pub\<rparr>,
          l_results := l_results s2 @ [\<lparr>memberId = mid, outcome = Validated result threw\<rparr>]\<rparr>)"

text \<open>One iteration of the loop of \<open>runMemberValidationsSequential\<close>, with \<open>updateAirtable\<close>
  true and the \<open>onUpdate\<close> callback above. \<open>Some e\<close> is an exception that leaves the loop.\<close>

definition memberStep :: "env \<Rightarrow> arec \<Rightarrow> lstate \<Rightarrow> lstate \<times> string option" where
  "memberStep env r s =
     (let mid = rec_id r;
          s0 = startMember r s;
          q = memberQuery r;
          expected = memberExpected r;
          manual = getField r ''Manual Discount Check'' in
      if trim manual \<noteq> [] then
        (skipMember r ''manual'' ''Manual check override'' ''manual_override'' s0, None)
      else if \<not> hasDiscountRequest expected then
        (skipMember r ''no_request'' ''No discount requested'' ''no_discount_requested'' s0, None)
      else if q_search_id q = [] then
        (s0\<lparr>l_results := l_results s0 @ [\<lparr>memberId = mid, outcome = Skipped ''missing search_id''\<rparr>]\<rparr>,
         None)
      else
        case (if e_devFake env
              then (s0, Inr (devFakeResult expected (q_name q) (q_email q) (q_search_id q)))
              else callValidator env mid q s0) of
          (s1, Inl e) \<Rightarrow> (s1, Some e)
        | (s1, Inr result) \<Rightarrow> (recordResult env r result s1, None))"

text \<open>\<open>runMemberValidationsSequential\<close>: the members in fetch order; an exception ends the
  loop and leaves the state as it is.\<close>

fun runMemberValidationsSequential :: "env \<Rightarrow> arec list \<Rightarrow> lstate \<Rightarrow> lstate \<times> string option" where
  "runMemberValidationsSequential env [] s = (s, None)"
| "runMemberValidationsSequential env (r # rs) s =
     (case memberStep env r s of
        (s', Some e) \<Rightarrow> (s', Some e)
      | (s', None) \<Rightarrow> runMemberValidationsSequential env rs s')"

subsection \<open>The detached run\<close>

definition fullName :: "arec \<Rightarrow> string" where
  "fullName r =
     (let n = trim (String_of (if truthy (rget r ''Name'') then rget r ''Name''
                               else if truthy (rget r ''Full name'') then rget r ''Full name''
                               else orEmpty (rget r ''Full Name''))) in
      if n \<noteq> [] then n
      else trim (trim (String_of (orEmpty (rget r ''First Name''))) @ '' ''
                 @ trim (String_of (orEmpty (rget r ''Last Name'')))))"

text \<open>The checklist entry that a member is seeded with.\<close>

definition seedEntry :: "arec \<Rightarrow> checklist_entry" where
  "seedEntry r =
     \<lparr>ce_id = rec_id r,
      ce_name = (if fullName r \<noteq> [] then fullName r else rec_id r),
      ce_type = orEmpty (rget r ''Membership Type''),
      ce_expected_bucket = effectiveDiscountCategory r,
      ce_status = ''queued'',
      ce_reason_code = None,
      ce_reason_message = None\<rparr>"

text \<open>The three organization-level gates.\<close>

definition startupFormSubmitted :: "arec \<Rightarrow> bool" where
  "startupFormSubmitted startupRec =
     (asOne (rget startupRec ''New onboarding form submitted'')
      \<or> asOne (rget startupRec ''Onboarding Submitted''))"

definition submissionConfirmation :: "arec \<Rightarrow> bool" where
  "submissionConfirmation startupRec = asOne (rget startupRec ''Submission Confirmation'')"

definition anyRepSubmitted :: "arec list \<Rightarrow> bool" where
  "anyRepSubmitted members =
     list_ex (\<lambda>m. asOne (rget m ''Representative'')
                  \<and> asOne (rget m ''New onboarding form submitted'')) members"

text \<open>\<open>suggestPdfFilename\<close>\<close>

definition suggestPdfFilename :: "string \<Rightarrow> string \<Rightarrow> string" where
  "suggestPdfFilename today b =
     (let name = (if trim (if b \<noteq> [] then b else ''agreement'') \<noteq> []
                  then trim (if b \<noteq> [] then b else ''agreement'') else ''agreement'') in
      name @ '' - UTS Incubator Agreement - '' @ today @ ''.pdf'')"

record rstate =
  r_job :: job
  r_store :: store
  r_trace :: "event list"

text \<open>The \<open>catch\<close> of the run.\<close>

definition failJob :: "env \<Rightarrow> job \<Rightarrow> store \<Rightarrow> event list \<Rightarrow> string \<Rightarrow> rstate" where
  "failJob env job st tr e =
     \<lparr>r_job = job\<lparr>j_state := Error, j_result := ErrorResult e, j_finishedAt := Some (e_now env)\<rparr>,
      r_store = st, r_trace = tr\<rparr>"

text \<open>The run after the member loop: assemble, render, cache, attach, finish.\<close>

definition finishRun :: "env \<Rightarrow> string \<Rightarrow> lstate \<Rightarrow> rstate" where
  "finishRun env startupName s =
     (let job = l_job s; st = l_store s; tr1 = l_trace s @ [EvPayload] in
      case e_payload env of
        Inl e \<Rightarrow> failJob env job st tr1 e
      | Inr legal_name \<Rightarrow>
          let filename = suggestPdfFilename (e_today env)
                           (if legal_name \<noteq> [] then legal_name
                            else if startupName \<noteq> [] then startupName else ''agreement'');
              tr2 = tr1 @ [EvRender] in
          (case e_render env of
             Inl e \<Rightarrow> failJob env job st tr2 e
           | Inr pdfBuffer \<Rightarrow>
               let tr3 = tr2 @ [EvCache] in
               (case e_cache env of
                  Some e \<Rightarrow> failJob env job st tr3 e
                | None \<Rightarrow>
                    let tr4 = tr3 @ [EvAttach];
                        attached = (e_attach env = None);
                        st1 = (if attached
                               then st\<lparr>agreement := Some (e_existing_agreement env
                                                            @ [e_download_url env])\<rparr>
                               else st);
                        tr5 = (if attached then tr4 @ [EvStamp] else tr4);
                        st2 = (if attached \<and> e_stamp env = None
                               then st1\<lparr>agreement_created := Some (e_today env)\<rparr> else st1) in
                    \<lparr>r_job = job\<lparr>j_state := Done,
                                  j_result := DoneResult (e_stable_url env) filename (l_results s),
                                  j_finishedAt := Some (e_now env)\<rparr>,
                     r_store = st2, r_trace = tr5\<rparr>)))"

text \<open>The state in which the member loop starts.\<close>

definition init_lstate :: "job \<Rightarrow> store \<Rightarrow> event list \<Rightarrow> lstate" where
  "init_lstate job st tr =
     \<lparr>l_job = job, l_store = st, l_trace = tr, l_results = [], l_refreshed = 0, l_attempts = 0\<rparr>"

text \<open>The detached run that the trigger route starts for the job it created.\<close>

definition runJob :: "env \<Rightarrow> job \<Rightarrow> store \<Rightarrow> rstate" where
  "runJob env job st =
     (case e_fetch env of
        Inl e \<Rightarrow> failJob env job st [EvFetch] e
      | Inr (startupRec, members) \<Rightarrow>
          let startupName = String_of (orEmpty (rget startupRec ''Startup Name (or working title)''));
              job1 = job\<lparr>j_progress := (j_progress job)\<lparr>total := length members\<rparr>\<rparr>;
              a = startupFormSubmitted startupRec;
              job2 = job1\<lparr>j_members := map seedEntry members\<rparr>;
              b = submissionConfirmation startupRec;
              c = anyRepSubmitted members;
              tr = [EvFetch, EvGates a b c] in
          if \<not> (a \<and> b \<and> c) then
            \<lparr>r_job = job2\<lparr>j_state := Blocked, j_result := BlockedResult a b c,
                           j_finishedAt := Some (e_now env)\<rparr>,
             r_store = st, r_trace = tr\<rparr>
          else
            (case runMemberValidationsSequential env members (init_lstate job2 st tr) of
               (s, Some e) \<Rightarrow> failJob env (l_job s) (l_store s) (l_trace s) e
             | (s, None) \<Rightarrow> finishRun env startupName s))"

declare showNat.simps [simp del]
declare rollFwd.simps [simp del]
declare rollBack.simps [simp del]
declare words_ws.simps [simp del]

subsection \<open>Classification of members and events, and sample runs\<close>

definition manualPresent :: "arec \<Rightarrow> bool" where
  "manualPresent r = (trim (getField r ''Manual Discount Check'') \<noteq> [])"

definition discountRequested :: "arec \<Rightarrow> bool" where
  "discountRequested r = hasDiscountRequest (getField r ''Discount Category'')"

definition hasLookupId :: "arec \<Rightarrow> bool" where
  "hasLookupId r = (trim (getField r ''UTS ID'') \<noteq> [])"

fun is_gates :: "event \<Rightarrow> bool" where
  "is_gates (EvGates a b c) = True"
| "is_gates _ = False"

fun is_resolver :: "event \<Rightarrow> bool" where
  "is_resolver (EvResolver mid q) = True"
| "is_resolver _ = False"

fun is_skipped :: "member_outcome \<Rightarrow> bool" where
  "is_skipped (Skipped reason) = True"
| "is_skipped (Validated result threw) = False"

definition new_job :: "nat \<Rightarrow> job" where
  "new_job now =
     \<lparr>j_state = Running, j_startedAt = now, j_finishedAt = None,
      j_progress = \<lparr>validated = 0, total = 0\<rparr>, j_members = [], j_result = NoResult\<rparr>"

definition empty_store :: store where
  "empty_store = \<lparr>member_writes = [], agreement = None, agreement_created = None\<rparr>"

definition ex_startup :: arec where
  "ex_startup =
     \<lparr>rec_id = ''recOrg'',
      rec_fields = [(''Startup Name (or working title)'', FStr ''Acme''),
                    (''New onboarding form submitted'', FNum 1),
                    (''Submission Confirmation'', FStr ''yes'')]\<rparr>"

text \<open>A representative who submitted the form and asks for the student discount, with and
  without a lookup id.\<close>

definition ex_member :: "string \<Rightarrow> string \<Rightarrow> arec" where
  "ex_member mid uts_id =
     \<lparr>rec_id = mid,
      rec_fields = [(''Name'', FStr ''Ada Byron''),
                    (''Representative'', FBool True),
                    (''New onboarding form submitted'', FNum 1),
                    (''Membership Type'', FStr ''Full Membership''),
                    (''Discount Category'', FStr ''Current UTS Student''),
                    (''UTS ID'', FStr uts_id)]\<rparr>"

text \<open>A member with a manual category but no manual check.\<close>

definition ex_member_manual_cat :: arec where
  "ex_member_manual_cat =
     \<lparr>rec_id = ''recM3'',
      rec_fields = [(''Name'', FStr ''Cy Diaz''),
                    (''Manual Discount Category'', FStr ''Current UTS Staff''),
                    (''Discount Category'', FStr ''Current UTS Student''),
                    (''UTS ID'', FStr ''777'')]\<rparr>"

definition ex_valid_result :: vresult where
  "ex_valid_result =
     blank_result\<lparr>v_valid := True, v_status := ''valid'',
       v_derived_buckets := [''Current UTS Student''],
       v_primary_bucket := Some ''Current UTS Student''\<rparr>"

definition ex_not_found_result :: vresult where
  "ex_not_found_result = blank_result\<lparr>v_status := ''not_found'', v_reason := ''no matches''\<rparr>"

definition ex_env :: "arec list \<Rightarrow> (nat \<Rightarrow> query \<Rightarrow> string + vresult) \<Rightarrow> env" where
  "ex_env members validate =
     \<lparr>e_fetch = Inr (ex_startup, members), e_devFake = False, e_validate = validate,
      e_refresh = (\<lambda>k. False), e_storeUpdate = (\<lambda>mid. None), e_payload = Inr ''Acme Pty Ltd'',
      e_render = Inr ''%PDF'', e_cache = None, e_existing_agreement = [], e_attach = None,
      e_stamp = None, e_now = 2000, e_today = ''2026-01-01'',
      e_download_url = ''https://host/download/ab12'',
      e_stable_url = ''https://host/agreement/latest/tok''\<rparr>"

text \<open>A Resolver that answers the first lookup id and throws on any other.\<close>

definition ex_validate_then_throw :: "nat \<Rightarrow> query \<Rightarrow> string + vresult" where
  "ex_validate_then_throw n q =
     (if q_search_id q = ''111'' then Inr ex_valid_result else Inl ''socket hang up'')"










subsection \<open>Invariant of the member loop\<close>

text \<open>A later state of the loop extends an earlier one: events and member writes are only
  appended, no gate check is among the new events, the organization's fields are untouched,
  the job keeps its state and total, and its progress does not go back.\<close>

definition extends :: "lstate \<Rightarrow> lstate \<Rightarrow> bool" where
  "extends s s' =
     ((\<exists>more. l_trace s' = l_trace s @ more \<and> (\<forall>x \<in> set more. \<not> is_gates x))
      \<and> (\<exists>ws. member_writes (l_store s') = member_writes (l_store s) @ ws)
      \<and> agreement (l_store s') = agreement (l_store s)
      \<and> agreement_created (l_store s') = agreement_created (l_store s)
      \<and> j_state (l_job s') = j_state (l_job s)
      \<and> j_startedAt (l_job s') = j_startedAt (l_job s)
      \<and> total (j_progress (l_job s')) = total (j_progress (l_job s))
      \<and> (validated (j_progress (l_job s)) \<le> total (j_progress (l_job s)) \<longrightarrow>
            validated (j_progress (l_job s)) \<le> validated (j_progress (l_job s'))
            \<and> validated (j_progress (l_job s')) \<le> total (j_progress (l_job s))))"

text \<open>The job as the run has it when the member loop starts: total set, checklist seeded.\<close>

definition seededJob :: "job \<Rightarrow> arec list \<Rightarrow> job" where
  "seededJob job members =
     job\<lparr>j_progress := (j_progress job)\<lparr>total := length members\<rparr>,
         j_members := map seedEntry members\<rparr>"

definition gatesOf :: "arec \<Rightarrow> arec list \<Rightarrow> event" where
  "gatesOf startupRec members =
     EvGates (startupFormSubmitted startupRec) (submissionConfirmation startupRec)
       (anyRepSubmitted members)"

definition gatesPass :: "arec \<Rightarrow> arec list \<Rightarrow> bool" where
  "gatesPass startupRec members =
     (startupFormSubmitted startupRec \<and> submissionConfirmation startupRec
      \<and> anyRepSubmitted members)"

text \<open>The member loop of a run.\<close>

definition loopOf :: "env \<Rightarrow> job \<Rightarrow> store \<Rightarrow> arec \<Rightarrow> arec list \<Rightarrow> lstate \<times> string option" where
  "loopOf env job st startupRec members =
     runMemberValidationsSequential env members
       (init_lstate (seededJob job members) st [EvFetch, gatesOf startupRec members])"

text \<open>The state in which the member loop of a run starts.\<close>

definition loopStart :: "job \<Rightarrow> store \<Rightarrow> arec \<Rightarrow> arec list \<Rightarrow> lstate" where
  "loopStart job st startupRec members =
     init_lstate (seededJob job members) st [EvFetch, gatesOf startupRec members]"

text \<open>What the Resolver answers to a query, told from the run's collaborators alone, when
  \<open>refreshed\<close> token refreshes have succeeded and \<open>attempts\<close> have been made before: its first
  answer; or, when that answer reports a 401 and the token refresh succeeds, its answer to the
  one retry. \<open>Inl\<close> is an exception thrown by the call.\<close>

definition resolverAnswer :: "env \<Rightarrow> query \<Rightarrow> nat \<Rightarrow> nat \<Rightarrow> string + vresult" where
  "resolverAnswer env q refreshed attempts =
     (case e_validate env refreshed q of
        Inl e \<Rightarrow> Inl e
      | Inr result \<Rightarrow>
          if needsRefresh result \<and> e_refresh env attempts then e_validate env (refreshed + 1) q
          else Inr result)"

text \<open>A member that is resolved: no manual check, a discount requested, a lookup id.\<close>

definition resolvable :: "arec \<Rightarrow> bool" where
  "resolvable r = (\<not> manualPresent r \<and> discountRequested r \<and> hasLookupId r)"

text \<open>The exception, if any, of the Resolver call that is made for a member when the loop
  has reached it in state \<open>s\<close>.\<close>

definition resolverThrows :: "env \<Rightarrow> arec \<Rightarrow> lstate \<Rightarrow> string option" where
  "resolverThrows env r s =
     (if resolvable r \<and> \<not> e_devFake env then
        (case resolverAnswer env (memberQuery r) (l_refreshed s) (l_attempts s) of
           Inl e \<Rightarrow> Some e
         | Inr result \<Rightarrow> None)
      else None)"

text \<open>An organization whose submission confirmation is missing.\<close>

definition ex_startup_unconfirmed :: arec where
  "ex_startup_unconfirmed =
     \<lparr>rec_id = ''recOrg'',
      rec_fields = [(''Startup Name (or working title)'', FStr ''Acme''),
                    (''New onboarding form submitted'', FNum 1)]\<rparr>"

definition ex_valid_resolver :: "nat \<Rightarrow> query \<Rightarrow> string + vresult" where
  "ex_valid_resolver n q = Inr ex_valid_result"

definition ex_not_found_resolver :: "nat \<Rightarrow> query \<Rightarrow> string + vresult" where
  "ex_not_found_resolver n q = Inr ex_not_found_result"

definition ex_env_blocked :: env where
  "ex_env_blocked =
     (ex_env [ex_member ''recM2'' ''111''] ex_valid_resolver)
       \<lparr>e_fetch := Inr (ex_startup_unconfirmed, [ex_member ''recM2'' ''111''])\<rparr>"

definition ex_env_attach_fails :: env where
  "ex_env_attach_fails =
     (ex_env [ex_member ''recM2'' ''111''] ex_valid_resolver)\<lparr>e_attach := Some ''Airtable 422''\<rparr>"

definition ex_env_second_throws :: env where
  "ex_env_second_throws =
     ex_env [ex_member ''recM2'' ''111'', ex_member ''recM4'' ''222''] ex_validate_then_throw"

definition ex_env_no_id :: env where
  "ex_env_no_id = ex_env [ex_member ''recM1'' []] ex_valid_resolver"

definition ex_env_not_found :: env where
  "ex_env_not_found = ex_env [ex_member ''recM2'' ''111''] ex_not_found_resolver"

text \<open>A member with a manual check.\<close>

definition ex_member_manual_check :: arec where
  "ex_member_manual_check =
     \<lparr>rec_id = ''recM5'',
      rec_fields = [(''Name'', FStr ''Di Evans''),
                    (''Manual Discount Check'', FStr ''Valid''),
                    (''Manual Discount Category'', FStr ''Current UTS Staff''),
                    (''Discount Category'', FStr ''Current UTS Student''),
                    (''UTS ID'', FStr ''555'')]\<rparr>"

text \<open>A run in the development mode that fakes results, and a run in which the write of a
  member's validation to the Persistent Store throws.\<close>

definition ex_env_dev_fake :: env where
  "ex_env_dev_fake = (ex_env [ex_member ''recM2'' ''111''] ex_valid_resolver)\<lparr>e_devFake := True\<rparr>"

definition ex_env_write_fails :: env where
  "ex_env_write_fails =
     (ex_env [ex_member ''recM2'' ''111''] ex_valid_resolver)
       \<lparr>e_storeUpdate := (\<lambda>mid. Some ''Airtable 503'')\<rparr>"


section \<open>Properties of the Pricing Assembler\<close>

lemma startsWith_prefix: "startsWith s p \<longleftrightarrow> prefix p s"
  by (induction s p rule: startsWith.induct) auto

lemma str_includes_sublist: "str_includes s p \<longleftrightarrow> sublist p s"
  by (induction s) (auto simp: startsWith_prefix sublist_Cons_right)

lemma trim_sublist: "sublist (trim s) s"
proof -
  have "suffix (dropWhile is_ws (rev (dropWhile is_ws s))) (rev (dropWhile is_ws s))"
    by (rule suffix_dropWhile)
  then have "prefix (trim s) (dropWhile is_ws s)"
    by (simp add: trim_def suffix_to_prefix)
  moreover have "suffix (dropWhile is_ws s) s" by (rule suffix_dropWhile)
  ultimately show ?thesis
    by (meson prefix_imp_sublist suffix_imp_sublist sublist_order.order_trans)
qed

lemma toLowerCase_sublist: "sublist a b \<Longrightarrow> sublist (toLowerCase a) (toLowerCase b)"
  unfolding sublist_def toLowerCase_def by (metis map_append)

lemma includes_trim: "str_includes (toLowerCase (trim t)) p \<Longrightarrow> str_includes (toLowerCase t) p"
  unfolding str_includes_sublist
  by (meson toLowerCase_sublist trim_sublist sublist_order.order_trans)

lemma unrec_cases:
  assumes "unrecognisedType r"
  obtains "rget r ''Membership Type'' = FNull"
  | t where "rget r ''Membership Type'' = FStr t" "\<not> str_includes (toLowerCase t) ''full''"
      "\<not> str_includes (toLowerCase t) ''casual''" "\<not> str_includes (toLowerCase t) ''day''"
  using assms by (auto simp: unrecognisedType_def Let_def split: fval.splits)

lemma normaliseType_unrec:
  assumes "unrecognisedType r"
  shows "normaliseType (rget r ''Membership Type'') = ''Casual Membership''"
  using assms
proof (cases rule: unrec_cases)
  case 1
  then show ?thesis
    by (simp add: normaliseType_def orEmpty_def truthy_def String_of_def trim_def toLowerCase_def)
next
  case (2 t)
  then show ?thesis
    by (auto simp: normaliseType_def orEmpty_def truthy_def String_of_def Let_def
             dest: includes_trim)
qed

lemma normaliseType_srv_unrec:
  assumes "unrecognisedType r"
  shows "normaliseType_srv (FStr (getField r ''Membership Type'')) = ''Casual Membership''"
  using assms
proof (cases rule: unrec_cases)
  case 1
  then show ?thesis
    by (simp add: normaliseType_srv_def getField_def orEmpty_def truthy_def String_of_def
                  toLowerCase_def)
next
  case (2 t)
  then show ?thesis
    by (auto simp: normaliseType_srv_def getField_def orEmpty_def truthy_def String_of_def Let_def)
qed

lemma rget_asCasual_other:
  "name \<noteq> ''Membership Type'' \<Longrightarrow> rget (asCasual r) name = rget r name"
  by (simp add: rget_def asCasual_def)

lemma getField_asCasual_other:
  "name \<noteq> ''Membership Type'' \<Longrightarrow> getField (asCasual r) name = getField r name"
  by (simp add: getField_def rget_asCasual_other)

lemma normaliseType_asCasual:
  "normaliseType (rget (asCasual r) ''Membership Type'') = ''Casual Membership''"
  by (simp add: rget_def asCasual_def) code_simp

lemma normaliseType_srv_asCasual:
  "normaliseType_srv (FStr (getField (asCasual r) ''Membership Type'')) = ''Casual Membership''"
  by (simp add: getField_def rget_def asCasual_def) code_simp

lemma effectiveDiscountCategory_asCasual:
  "effectiveDiscountCategory (asCasual r) = effectiveDiscountCategory r"
  by (simp add: effectiveDiscountCategory_def rget_asCasual_other Let_def)

lemma isDiscountValidated_asCasual: "isDiscountValidated (asCasual r) = isDiscountValidated r"
  by (simp add: isDiscountValidated_def rget_asCasual_other Let_def)

lemma validationIsValid_asCasual: "validationIsValid (asCasual r) = validationIsValid r"
  by (simp add: validationIsValid_def getField_asCasual_other)

lemma memberFee_unrec:
  assumes "unrecognisedType r"
  shows "memberFee m r = memberFee m (asCasual r)"
  by (simp add: memberFee_def normaliseType_unrec [OF assms] normaliseType_asCasual
                effectiveDiscountCategory_asCasual isDiscountValidated_asCasual)

lemma memberFee_unrec_base:
  assumes "unrecognisedType r" and "\<not> isDiscountValidated r"
  shows "memberFee m r = Some (base (rowFor m ''Casual Membership''))"
  using assms(2) by (simp add: memberFee_def normaliseType_unrec [OF assms(1)] Let_def)

lemma rateForMember_unrec:
  assumes "unrecognisedType r"
  shows "rateForMember r m = rateForMember (asCasual r) m"
  by (simp add: rateForMember_def normaliseType_srv_unrec [OF assms] normaliseType_srv_asCasual
                getField_asCasual_other validationIsValid_asCasual)

lemma rateForMember_unrec_base:
  assumes "unrecognisedType r" and "\<not> validationIsValid r"
  shows "rateForMember r m = base (rowFor m ''Casual Membership'')"
  using assms(2) by (simp add: rateForMember_def normaliseType_srv_unrec [OF assms(1)] Let_def)

lemma countMember_unrec:
  assumes "unrecognisedType r"
  shows "dayCount (countMember c r) = dayCount c
       \<and> fullNoDisc (countMember c r) = fullNoDisc c \<and> fullDisc (countMember c r) = fullDisc c
       \<and> casualNoDisc (countMember c r) + casualWithin (countMember c r) + casualOver (countMember c r)
           = casualNoDisc c + casualWithin c + casualOver c + 1"
  by (simp add: countMember_def normaliseType_unrec [OF assms] Let_def)

lemma hasFullOrCasual_srv_unrec:
  assumes "unrecognisedType r" and "r \<in> set team"
  shows "hasFullOrCasual_srv team"
  using assms(2) normaliseType_srv_unrec [OF assms(1)]
  by (auto simp: hasFullOrCasual_srv_def list_ex_iff Let_def)

lemma readVar_fullCount: "readVar (scopeOf c) ''fullCount'' = Inl ''fullCount is not defined''"
  by (simp add: readVar_def scopeOf_def)

text \<open>In the main server the fee label is never chosen: whenever the sum is not positive,
  reading \<open>fullCount\<close> raises, and the payload falls back to the placeholder text.\<close>

lemma feeLabel_not_positive:
  "\<not> feeSum m submitted > 0 \<Longrightarrow> feeLabel fmt m submitted = Inl ''fullCount is not defined''"
  by (simp add: feeLabel_def Let_def readVar_fullCount)

lemma calculated_monthly_fee_not_positive:
  assumes "\<not> feeSum m (filter (\<lambda>r. asOne (rget r ''New onboarding form submitted'')) team) > 0"
  shows "calculated_monthly_fee fmt m startupName (Inr team) = ''AUD 0.00 per month (placeholder)''"
  by (simp add: calculated_monthly_fee_def feeLabel_not_positive [OF assms])

text \<open>The generation server chooses the label as intended.\<close>

lemma normaliseType_srv_range:
  "normaliseType_srv v \<in> {''Full Membership'', ''Casual Membership'', ''Day Membership''}"
  by (simp add: normaliseType_srv_def Let_def)

lemma hasFullOrCasual_srv_iff:
  "hasFullOrCasual_srv team \<longleftrightarrow>
   \<not> (\<forall>r \<in> set team. normaliseType_srv (FStr (getField r ''Membership Type'')) = ''Day Membership'')"
proof -
  have "\<And>r. (normaliseType_srv (FStr (getField r ''Membership Type'')) \<noteq> ''Day Membership'') =
        (normaliseType_srv (FStr (getField r ''Membership Type'')) = ''Full Membership'' \<or>
         normaliseType_srv (FStr (getField r ''Membership Type'')) = ''Casual Membership'')"
    using normaliseType_srv_range by fastforce
  then show ?thesis
    by (auto simp: hasFullOrCasual_srv_def list_ex_iff Let_def)
qed

lemma calculated_monthly_fee_srv_zero:
  assumes "foldl (\<lambda>sum r. sum + rateForMember r m) 0 team = 0"
  shows "calculated_monthly_fee_srv fmt (Inr m) team =
         (if \<forall>r \<in> set team. normaliseType_srv (FStr (getField r ''Membership Type'')) = ''Day Membership''
          then ''No monthly fee (Day Memberships charged per-day)''
          else ''AUD 0.00 per month (waived)'')"
  using assms by (simp add: calculated_monthly_fee_srv_def hasFullOrCasual_srv_iff)

text \<open>
  Claim C7. When the computed monthly fee sum is zero, the assembled fee text reports
  "AUD 0.00 per month (waived)" whenever at least one Full-type or Casual-type member exists.
  The main server's \<open>buildPdfPayload\<close> does not: for one submitted Full member whose rate is 0
  the sum is zero and the fee text of the payload is the placeholder, because the label branch
  reads two identifiers that are declared nowhere. The generation server's \<open>buildPayload\<close>,
  on the same member and matrix, reports the waived zero.
\<close>

theorem C7_main_server_zero_sum_placeholder:
  "feeSum ex_matrix [ex_full_member] = 0
   \<and> normaliseType (rget ex_full_member ''Membership Type'') = ''Full Membership''
   \<and> feeLabel fmt ex_matrix [ex_full_member] = Inl ''fullCount is not defined''
   \<and> calculated_monthly_fee fmt ex_matrix ''Acme'' (Inr [ex_full_member])
       = ''AUD 0.00 per month (placeholder)''
   \<and> calculated_monthly_fee_srv fmt (Inr ex_matrix) [ex_full_member]
       = ''AUD 0.00 per month (waived)''"
  by code_simp

text \<open>
  Claim C10, as stated: a member with an unrecognised or blank membership type contributes
  the Casual base rate. It fails for a member with a blank type whose discount is validated:
  with a Casual base rate of 100 and a Casual student rate of 60 the member contributes 60,
  in both servers.
\<close>

theorem C10_counterexample:
  "unrecognisedType ex_blank_member
   \<and> base (rowFor ex_matrix ''Casual Membership'') = 100
   \<and> memberFee ex_matrix ex_blank_member = Some 60
   \<and> rateForMember ex_blank_member ex_matrix = 60
   \<and> memberFee ex_matrix ex_blank_member \<noteq> Some (base (rowFor ex_matrix ''Casual Membership''))
   \<and> rateForMember ex_blank_member ex_matrix \<noteq> base (rowFor ex_matrix ''Casual Membership'')"
  by code_simp

text \<open>
  Claim C10, amended. Every copy of the membership-type normalisation maps a blank type, and
  a type containing none of \<open>full\<close>, \<open>casual\<close>, \<open>day\<close>, to \<open>Casual Membership\<close>. Such a member
  is priced exactly as a Casual member: the Casual base rate when its discount is not
  validated, the Casual row's rate otherwise. It is never skipped as a Day member, it is
  counted in one of the Casual counters and never in the Day counter, and in the generation
  server's zero-sum label decision it counts as a Full/Casual member.
\<close>

theorem C10_unrecognised_type_priced_as_casual:
  assumes "unrecognisedType r"
  shows "normaliseType (rget r ''Membership Type'') = ''Casual Membership''
       \<and> normaliseType_srv (FStr (getField r ''Membership Type'')) = ''Casual Membership''
       \<and> memberFee m r = memberFee m (asCasual r)
       \<and> memberFee m r \<noteq> None
       \<and> (\<not> isDiscountValidated r \<longrightarrow> memberFee m r = Some (base (rowFor m ''Casual Membership'')))
       \<and> rateForMember r m = rateForMember (asCasual r) m
       \<and> (\<not> validationIsValid r \<longrightarrow> rateForMember r m = base (rowFor m ''Casual Membership''))
       \<and> dayCount (countMember c r) = dayCount c
       \<and> casualNoDisc (countMember c r) + casualWithin (countMember c r) + casualOver (countMember c r)
           = casualNoDisc c + casualWithin c + casualOver c + 1
       \<and> (r \<in> set team \<longrightarrow> hasFullOrCasual_srv team)"
proof -
  have "memberFee m r \<noteq> None"
    by (simp add: memberFee_def normaliseType_unrec [OF assms] Let_def split: option.splits)
  then show ?thesis
    using normaliseType_unrec [OF assms] normaliseType_srv_unrec [OF assms]
      memberFee_unrec [OF assms] memberFee_unrec_base [OF assms]
      rateForMember_unrec [OF assms] rateForMember_unrec_base [OF assms]
      countMember_unrec [OF assms] hasFullOrCasual_srv_unrec [OF assms]
    by blast
qed

theorem C10_unrecognised_type_witness:
  "unrecognisedType ex_blank_plain
   \<and> \<not> isDiscountValidated ex_blank_plain \<and> \<not> validationIsValid ex_blank_plain
   \<and> normaliseType (rget ex_blank_plain ''Membership Type'') = ''Casual Membership''
   \<and> memberFee ex_matrix ex_blank_plain = Some 100
   \<and> rateForMember ex_blank_plain ex_matrix = 100
   \<and> hasFullOrCasual_srv [ex_blank_plain]"
proof -
  have u: "unrecognisedType ex_blank_plain" by code_simp
  have v: "\<not> isDiscountValidated ex_blank_plain" "\<not> validationIsValid ex_blank_plain"
    by code_simp+
  have b: "base (rowFor ex_matrix ''Casual Membership'') = 100" by code_simp
  show ?thesis
    using C10_unrecognised_type_priced_as_casual [OF u, where m = ex_matrix and team = "[ex_blank_plain]"] u v b
    by (metis list.set_intros(1))
qed

section \<open>Properties of the Eligibility Resolver\<close>

subsection \<open>Alumni expiry\<close>





















subsection \<open>Several candidates, none resolved\<close>

lemma evaluatePool_sound:
  "evaluatePool dir tz clock pool t = Inr (evaluated, t') \<Longrightarrow>
   evaluated = map (\<lambda>x. (fst x, the (bucketsAt dir tz clock (snd x) (fst x))))
                   (filter (\<lambda>x. bucketsAt dir tz clock (snd x) (fst x) \<noteq> None)
                           (zip pool (poolSteps dir pool t)))"
proof (induction pool arbitrary: evaluated t t')
  case Nil
  then show ?case by simp
next
  case (Cons r rs)
  from Cons.prems obtain cr where cr: "getConstituentCodes dir t (c_id r) = Inr cr"
    by (auto split: sum.splits)
  show ?case
  proof (cases "h_status cr = 200")
    case False
    then have ev: "evaluatePool dir tz clock rs (t + 1) = Inr (evaluated, t')"
      using Cons.prems cr by simp
    have b: "bucketsAt dir tz clock t r = None" using cr False by (simp add: bucketsAt_def)
    show ?thesis
      using Cons.IH [OF ev] cr False b by simp
  next
    case True
    then obtain ev where ev: "evaluatePool dir tz clock rs (t + 2) = Inr (ev, t')"
      and e: "evaluated = (r, inferBucketsFromCodes tz (clock (t + 1)) (h_value cr)) # ev"
      using Cons.prems cr by (auto split: sum.splits)
    have b: "bucketsAt dir tz clock t r
             = Some (inferBucketsFromCodes tz (clock (t + 1)) (h_value cr))"
      using cr True by (simp add: bucketsAt_def)
    show ?thesis
      using Cons.IH [OF ev] cr True b e by simp
  qed
qed

lemma evaluateSingle_error:
  assumes "getConstituentCodes dir t (c_id r) = Inr cr" and "h_status cr \<noteq> 200"
  shows "\<exists>res. evaluateSingle dir tz clock expected r t = Inr res \<and> v_status res = ''error''
           \<and> \<not> v_valid res \<and> v_bb_record_id res = Some (c_id r)"
  using assms by (simp add: evaluateSingle_def Let_def blank_result_def)

lemma evaluateSingle_throws:
  assumes "getConstituentCodes dir t (c_id r) = Inl e"
  shows "evaluateSingle dir tz clock expected r t = Inl e"
  using assms by (simp add: evaluateSingle_def Let_def)

lemma evaluateSingle_out_of_range:
  assumes "getConstituentCodes dir t (c_id r) = Inr cr" and "h_status cr = 200"
    and "\<not> expiryInRange tz (h_value cr)"
  shows "evaluateSingle dir tz clock expected r t = Inl ''Invalid time value''"
  using assms
  by (auto simp: evaluateSingle_def Let_def expiryInRange_def split: option.splits)

lemma evaluateSingle_evaluated:
  assumes "getConstituentCodes dir t (c_id r) = Inr cr" and "h_status cr = 200"
    and "expiryInRange tz (h_value cr)" and "expected \<noteq> []"
  shows "\<exists>res. evaluateSingle dir tz clock expected r t = Inr res
           \<and> v_candidate res = Some (view_of r)
           \<and> v_derived_buckets res = inferBucketsFromCodes tz (clock (t + 1)) (h_value cr)
           \<and> v_status res
               = (if expected \<in> set (inferBucketsFromCodes tz (clock (t + 1)) (h_value cr))
                  then ''valid'' else ''invalid'')"
  using assms
  by (auto simp: evaluateSingle_def Let_def expiryInRange_def blank_result_def
           split: option.splits)

lemma validateDiscount_unresolved:
  assumes "searchConstituents dir 0 (sanitizeId (q_search_id q)) = Inr sr"
    and "h_status sr = 200" and "h_value sr \<noteq> []"
    and "disambiguate dir (sanitizeId (q_search_id q)) q (h_value sr) 1 = Inr (None, t1)"
  shows "validateDiscount dir tz clock q =
         evaluateAmbiguous dir tz clock (q_expected_bucket q)
           (filter (\<lambda>r. c_lookup_id r \<noteq> sanitizeId (q_search_id q)) (h_value sr)) t1"
  using assms by (simp add: validateDiscount_def Let_def)

lemma evaluateAmbiguous_one:
  assumes "expected \<noteq> []" and "pool \<noteq> []"
    and "evaluatePool dir tz clock pool t1 = Inr (evaluated, t2)"
    and "length (filter (\<lambda>x. expected \<in> set (snd x)) evaluated) = 1"
  shows "evaluateAmbiguous dir tz clock expected pool t1
         = evaluateSingle dir tz clock expected
             (fst (hd (filter (\<lambda>x. expected \<in> set (snd x)) evaluated))) t2"
  using assms by (simp add: evaluateAmbiguous_def)

lemma evaluateAmbiguous_many:
  assumes "expected \<noteq> []" and "pool \<noteq> []"
    and "evaluatePool dir tz clock pool t1 = Inr (evaluated, t2)"
    and "length (filter (\<lambda>x. expected \<in> set (snd x)) evaluated) > 1"
  shows "\<exists>res. evaluateAmbiguous dir tz clock expected pool t1 = Inr res
           \<and> v_status res = ''ambiguous''
           \<and> v_candidates res = map (\<lambda>x. view_of (fst x)) (filter (\<lambda>x. expected \<in> set (snd x)) evaluated)"
  using assms by (simp add: evaluateAmbiguous_def)

lemma evaluateAmbiguous_none:
  assumes "expected \<noteq> []" and "pool \<noteq> []"
    and "evaluatePool dir tz clock pool t1 = Inr (evaluated, t2)"
    and "filter (\<lambda>x. expected \<in> set (snd x)) evaluated = []"
  shows "\<exists>res. evaluateAmbiguous dir tz clock expected pool t1 = Inr res
           \<and> v_status res = ''invalid''
           \<and> v_candidates res = map (\<lambda>x. (view_of (fst x))\<lparr>cv_buckets := Some (snd x)\<rparr>) evaluated"
  using assms by (simp add: evaluateAmbiguous_def)

text \<open>What \<open>evaluateSingle\<close> answers, by the answer to its request for the codes.\<close>

lemma evaluateSingle_cases:
  assumes "expected \<noteq> []"
  shows "case getConstituentCodes dir t (c_id r) of
           Inl e \<Rightarrow> evaluateSingle dir tz clock expected r t = Inl e
         | Inr cr \<Rightarrow>
             if h_status cr \<noteq> 200 then
               (\<exists>res. evaluateSingle dir tz clock expected r t = Inr res
                      \<and> v_status res = ''error'')
             else if \<not> expiryInRange tz (h_value cr) then
               evaluateSingle dir tz clock expected r t = Inl ''Invalid time value''
             else
               (\<exists>res. evaluateSingle dir tz clock expected r t = Inr res
                  \<and> v_candidate res = Some (view_of r)
                  \<and> v_derived_buckets res = inferBucketsFromCodes tz (clock (t + 1)) (h_value cr)
                  \<and> v_status res
                      = (if expected \<in> set (inferBucketsFromCodes tz (clock (t + 1)) (h_value cr))
                         then ''valid'' else ''invalid''))"
proof (cases "getConstituentCodes dir t (c_id r)")
  case (Inl e)
  then show ?thesis using evaluateSingle_throws [OF Inl] by simp
next
  case (Inr cr)
  consider "h_status cr \<noteq> 200" | "h_status cr = 200" "\<not> expiryInRange tz (h_value cr)"
    | "h_status cr = 200" "expiryInRange tz (h_value cr)"
    by blast
  then show ?thesis
  proof cases
    case 1
    obtain res where "evaluateSingle dir tz clock expected r t = Inr res" "v_status res = ''error''"
      using evaluateSingle_error [OF Inr 1] by blast
    then show ?thesis using Inr 1 by simp
  next
    case 2
    then show ?thesis using Inr evaluateSingle_out_of_range [OF Inr 2] by simp
  next
    case 3
    then show ?thesis using Inr evaluateSingle_evaluated [OF Inr 3 assms] by simp
  qed
qed

text \<open>
  Claim C5, as stated. It fails in two ways. First, when no pool candidate's buckets contain
  the expected bucket, the result is said to report every pool candidate with its derived
  buckets: of two pool candidates, the first with a codes response of status 500, only the
  second is reported. Second, when exactly one pool candidate's buckets contain the expected
  bucket, the result is said to have status \<open>valid\<close>: the single-candidate evaluation requests
  the codes of that candidate a second time, and when that request is refused the status is
  \<open>error\<close>.
\<close>

theorem C5_counterexample:
  "disambiguate ex_dir_partial (sanitizeId (q_search_id ex_query)) ex_query
       [mk_cand ''1'' ''Ann Lee'', mk_cand ''2'' ''Bo Chan''] 1 = Inr (None, 1)
   \<and> filter (\<lambda>r. c_lookup_id r \<noteq> sanitizeId (q_search_id ex_query))
        [mk_cand ''1'' ''Ann Lee'', mk_cand ''2'' ''Bo Chan'']
       = [mk_cand ''1'' ''Ann Lee'', mk_cand ''2'' ''Bo Chan'']
   \<and> (case validateDiscount ex_dir_partial 0 ex_clock ex_query of
         Inl e \<Rightarrow> False
       | Inr res \<Rightarrow> v_status res = ''invalid''
                    \<and> map cv_id (v_candidates res) = [''2'']
                    \<and> map cv_buckets (v_candidates res) = [Some [''Current UTS Staff'']]
                    \<and> length (v_candidates res) \<noteq> 2)
   \<and> disambiguate ex_dir_flaky (sanitizeId (q_search_id ex_query)) ex_query
       [mk_cand ''1'' ''Ann Lee'', mk_cand ''2'' ''Bo Chan''] 1 = Inr (None, 1)
   \<and> evaluatePool ex_dir_flaky 0 ex_clock [mk_cand ''1'' ''Ann Lee'', mk_cand ''2'' ''Bo Chan''] 1
       = Inr ([(mk_cand ''1'' ''Ann Lee'', [''Current UTS Student'']),
               (mk_cand ''2'' ''Bo Chan'', [''Current UTS Staff''])], 5)
   \<and> q_expected_bucket ex_query = ''Current UTS Student''
   \<and> (case validateDiscount ex_dir_flaky 0 ex_clock ex_query of
         Inl e \<Rightarrow> False
       | Inr res \<Rightarrow> v_status res = ''error'' \<and> v_status res \<noteq> ''valid'' \<and> \<not> v_valid res
                    \<and> v_reason res = ''codes 429'')"
  by code_simp

text \<open>
  Claim C5, amended. When disambiguation resolved no candidate and an expected bucket was
  supplied, the codes of the pool candidates are requested in pool order, and those whose
  request answers with status 200 are evaluated, each with the buckets derived at the time of
  its request. If exactly one of them has the expected bucket among its derived buckets, the
  result is the single-candidate evaluation of that candidate, which requests its codes and
  reads the clock once more: when that request throws, so does the resolution; when it
  answers with another status than 200 the status is \<open>error\<close>; otherwise the status is \<open>valid\<close>
  if the buckets derived from the new answer at the new time contain the expected bucket and
  \<open>invalid\<close> if not (and the resolution throws when the alumni expiry is no valid date). If
  more than one evaluated candidate has the expected bucket, the status is \<open>ambiguous\<close> and
  the result lists exactly the matching candidates; if none, the status is \<open>invalid\<close> and the
  result reports every evaluated candidate with its derived buckets.
\<close>

theorem C5_unresolved_pool_by_expected_bucket:
  assumes "searchConstituents dir 0 (sanitizeId (q_search_id q)) = Inr sr"
    and "h_status sr = 200" and "h_value sr \<noteq> []"
    and "disambiguate dir (sanitizeId (q_search_id q)) q (h_value sr) 1 = Inr (None, t1)"
    and "pool = filter (\<lambda>r. c_lookup_id r \<noteq> sanitizeId (q_search_id q)) (h_value sr)"
    and "pool \<noteq> []" and "q_expected_bucket q \<noteq> []"
    and "evaluatePool dir tz clock pool t1 = Inr (evaluated, t2)"
  shows "evaluated = map (\<lambda>x. (fst x, the (bucketsAt dir tz clock (snd x) (fst x))))
                         (filter (\<lambda>x. bucketsAt dir tz clock (snd x) (fst x) \<noteq> None)
                                 (zip pool (poolSteps dir pool t1)))
       \<and> (let ms = filter (\<lambda>x. q_expected_bucket q \<in> set (snd x)) evaluated in
          (length ms = 1 \<longrightarrow>
             validateDiscount dir tz clock q
               = evaluateSingle dir tz clock (q_expected_bucket q) (fst (hd ms)) t2
             \<and> (case getConstituentCodes dir t2 (c_id (fst (hd ms))) of
                  Inl e \<Rightarrow> validateDiscount dir tz clock q = Inl e
                | Inr cr \<Rightarrow>
                    if h_status cr \<noteq> 200 then
                      (\<exists>res. validateDiscount dir tz clock q = Inr res \<and> v_status res = ''error'')
                    else if \<not> expiryInRange tz (h_value cr) then
                      validateDiscount dir tz clock q = Inl ''Invalid time value''
                    else
                      (\<exists>res. validateDiscount dir tz clock q = Inr res
                         \<and> v_candidate res = Some (view_of (fst (hd ms)))
                         \<and> v_derived_buckets res
                             = inferBucketsFromCodes tz (clock (t2 + 1)) (h_value cr)
                         \<and> v_status res
                             = (if q_expected_bucket q
                                     \<in> set (inferBucketsFromCodes tz (clock (t2 + 1)) (h_value cr))
                                then ''valid'' else ''invalid''))))
        \<and> (length ms > 1 \<longrightarrow>
             (\<exists>res. validateDiscount dir tz clock q = Inr res
                   \<and> v_status res = ''ambiguous'' \<and> v_candidates res = map (\<lambda>x. view_of (fst x)) ms))
        \<and> (ms = [] \<longrightarrow>
             (\<exists>res. validateDiscount dir tz clock q = Inr res
                   \<and> v_status res = ''invalid''
                   \<and> v_candidates res
                       = map (\<lambda>x. (view_of (fst x))\<lparr>cv_buckets := Some (snd x)\<rparr>) evaluated)))"
proof -
  let ?e = "q_expected_bucket q"
  let ?ms = "filter (\<lambda>x. ?e \<in> set (snd x)) evaluated"
  have v: "validateDiscount dir tz clock q = evaluateAmbiguous dir tz clock ?e pool t1"
    using validateDiscount_unresolved [OF assms(1-4)] assms(5) by simp
  have e: "evaluated = map (\<lambda>x. (fst x, the (bucketsAt dir tz clock (snd x) (fst x))))
                         (filter (\<lambda>x. bucketsAt dir tz clock (snd x) (fst x) \<noteq> None)
                                 (zip pool (poolSteps dir pool t1)))"
    by (rule evaluatePool_sound [OF assms(8)])
  have one: "length ?ms = 1 \<longrightarrow>
             validateDiscount dir tz clock q = evaluateSingle dir tz clock ?e (fst (hd ?ms)) t2
             \<and> (case getConstituentCodes dir t2 (c_id (fst (hd ?ms))) of
                  Inl e \<Rightarrow> validateDiscount dir tz clock q = Inl e
                | Inr cr \<Rightarrow>
                    if h_status cr \<noteq> 200 then
                      (\<exists>res. validateDiscount dir tz clock q = Inr res \<and> v_status res = ''error'')
                    else if \<not> expiryInRange tz (h_value cr) then
                      validateDiscount dir tz clock q = Inl ''Invalid time value''
                    else
                      (\<exists>res. validateDiscount dir tz clock q = Inr res
                         \<and> v_candidate res = Some (view_of (fst (hd ?ms)))
                         \<and> v_derived_buckets res
                             = inferBucketsFromCodes tz (clock (t2 + 1)) (h_value cr)
                         \<and> v_status res
                             = (if ?e \<in> set (inferBucketsFromCodes tz (clock (t2 + 1)) (h_value cr))
                                then ''valid'' else ''invalid'')))"
  proof
    assume l: "length ?ms = 1"
    have s: "validateDiscount dir tz clock q = evaluateSingle dir tz clock ?e (fst (hd ?ms)) t2"
      unfolding v by (rule evaluateAmbiguous_one [OF assms(7,6,8) l])
    show "validateDiscount dir tz clock q = evaluateSingle dir tz clock ?e (fst (hd ?ms)) t2
             \<and> (case getConstituentCodes dir t2 (c_id (fst (hd ?ms))) of
                  Inl e \<Rightarrow> validateDiscount dir tz clock q = Inl e
                | Inr cr \<Rightarrow>
                    if h_status cr \<noteq> 200 then
                      (\<exists>res. validateDiscount dir tz clock q = Inr res \<and> v_status res = ''error'')
                    else if \<not> expiryInRange tz (h_value cr) then
                      validateDiscount dir tz clock q = Inl ''Invalid time value''
                    else
                      (\<exists>res. validateDiscount dir tz clock q = Inr res
                         \<and> v_candidate res = Some (view_of (fst (hd ?ms)))
                         \<and> v_derived_buckets res
                             = inferBucketsFromCodes tz (clock (t2 + 1)) (h_value cr)
                         \<and> v_status res
                             = (if ?e \<in> set (inferBucketsFromCodes tz (clock (t2 + 1)) (h_value cr))
                                then ''valid'' else ''invalid'')))"
      unfolding s
      by (rule conjI [OF refl evaluateSingle_cases [OF assms(7)]])
  qed
  have many: "length ?ms > 1 \<longrightarrow>
             (\<exists>res. validateDiscount dir tz clock q = Inr res
                   \<and> v_status res = ''ambiguous'' \<and> v_candidates res = map (\<lambda>x. view_of (fst x)) ?ms)"
    unfolding v using evaluateAmbiguous_many [OF assms(7,6,8)] by (rule impI)
  have none: "?ms = [] \<longrightarrow>
             (\<exists>res. validateDiscount dir tz clock q = Inr res
                   \<and> v_status res = ''invalid''
                   \<and> v_candidates res
                       = map (\<lambda>x. (view_of (fst x))\<lparr>cv_buckets := Some (snd x)\<rparr>) evaluated)"
    unfolding v using evaluateAmbiguous_none [OF assms(7,6,8)] by (rule impI)
  show ?thesis
    unfolding Let_def by (intro conjI) (fact e, fact one, fact many, fact none)
qed

theorem C5_unresolved_pool_witness:
  "(\<exists>res. validateDiscount ex_dir_three 0 ex_clock ex_query = Inr res
       \<and> v_status res = ''ambiguous''
       \<and> v_candidates res = [view_of (mk_cand ''1'' ''Ann Lee''), view_of (mk_cand ''2'' ''Bo Chan'')])
   \<and> (\<exists>res. validateDiscount ex_dir_flaky 0 ex_clock ex_query = Inr res
       \<and> v_status res = ''error'')"
proof -
  let ?a = "mk_cand ''1'' ''Ann Lee''" and ?b = "mk_cand ''2'' ''Bo Chan''"
    and ?c = "mk_cand ''3'' ''Cy Diaz''"
  let ?sr = "\<lparr>h_status = 200, h_body_status = None, h_value = [?a, ?b, ?c]\<rparr> :: candidate http"
  let ?ev = "[(?a, [''Current UTS Student'']), (?b, [''Current UTS Student'']),
              (?c, [''Current UTS Staff''])]"
  have h1: "searchConstituents ex_dir_three 0 (sanitizeId (q_search_id ex_query)) = Inr ?sr"
    by (simp add: ex_dir_three_def)
  have h2: "h_status ?sr = 200" and h3: "h_value ?sr \<noteq> []" by simp_all
  have h4: "disambiguate ex_dir_three (sanitizeId (q_search_id ex_query)) ex_query (h_value ?sr) 1
            = Inr (None, 1)"
    by code_simp
  have h5: "[?a, ?b, ?c] = filter (\<lambda>r. c_lookup_id r \<noteq> sanitizeId (q_search_id ex_query)) (h_value ?sr)"
    by code_simp
  have h6: "[?a, ?b, ?c] \<noteq> []" by simp
  have h7: "q_expected_bucket ex_query \<noteq> []" by (simp add: ex_query_def)
  have h8: "evaluatePool ex_dir_three 0 ex_clock [?a, ?b, ?c] 1 = Inr (?ev, 7)"
    by code_simp
  have ms: "filter (\<lambda>x. q_expected_bucket ex_query \<in> set (snd x)) ?ev
            = [(?a, [''Current UTS Student'']), (?b, [''Current UTS Student''])]"
    by code_simp
  have A: "\<exists>res. validateDiscount ex_dir_three 0 ex_clock ex_query = Inr res
       \<and> v_status res = ''ambiguous''
       \<and> v_candidates res = [view_of ?a, view_of ?b]"
    using C5_unresolved_pool_by_expected_bucket [OF h1 h2 h3 h4 h5 h6 h7 h8]
    unfolding Let_def ms by simp
  let ?sr2 = "\<lparr>h_status = 200, h_body_status = None, h_value = [?a, ?b]\<rparr> :: candidate http"
  let ?ev2 = "[(?a, [''Current UTS Student'']), (?b, [''Current UTS Staff''])]"
  have k1: "searchConstituents ex_dir_flaky 0 (sanitizeId (q_search_id ex_query)) = Inr ?sr2"
    by (simp add: ex_dir_flaky_def)
  have k2: "h_status ?sr2 = 200" and k3: "h_value ?sr2 \<noteq> []" by simp_all
  have k4: "disambiguate ex_dir_flaky (sanitizeId (q_search_id ex_query)) ex_query (h_value ?sr2) 1
            = Inr (None, 1)"
    by code_simp
  have k5: "[?a, ?b] = filter (\<lambda>r. c_lookup_id r \<noteq> sanitizeId (q_search_id ex_query)) (h_value ?sr2)"
    by code_simp
  have k6: "[?a, ?b] \<noteq> []" by simp
  have k8: "evaluatePool ex_dir_flaky 0 ex_clock [?a, ?b] 1 = Inr (?ev2, 5)"
    by code_simp
  have ms2: "filter (\<lambda>x. q_expected_bucket ex_query \<in> set (snd x)) ?ev2
            = [(?a, [''Current UTS Student''])]"
    by code_simp
  have g: "getConstituentCodes ex_dir_flaky 5 (c_id ?a)
           = Inr \<lparr>h_status = 429, h_body_status = Some 429, h_value = []\<rparr>"
    by (simp add: ex_dir_flaky_def mk_cand_def)
  have B: "\<exists>res. validateDiscount ex_dir_flaky 0 ex_clock ex_query = Inr res
       \<and> v_status res = ''error''"
    using C5_unresolved_pool_by_expected_bucket [OF k1 k2 k3 k4 k5 k6 h7 k8, unfolded Let_def ms2,
            THEN conjunct2, THEN conjunct1]
    by (auto simp: g) metis
  from A B show ?thesis by (rule conjI)
qed

subsection \<open>Name disambiguation\<close>

lemma split_on_nonempty: "split_on sep s \<noteq> []"
  by (induction s) (auto split: list.splits)

lemma tokens_nonempty: "tokens s \<noteq> {}"
  by (simp add: tokens_def split_on_nonempty)

lemma inter_count: "length (filter (\<lambda>t. t \<in> set ys) (remdups xs)) = card (set xs \<inter> set ys)"
proof -
  let ?F = "filter (\<lambda>t. t \<in> set ys) (remdups xs)"
  have "card (set ?F) = length ?F" by (rule distinct_card) simp
  moreover have "set ?F = set xs \<inter> set ys" by auto
  ultimately show ?thesis by simp
qed

lemma union_count:
  "length (remdups xs) + length (remdups ys) - card (set xs \<inter> set ys) = card (set xs \<union> set ys)"
  using card_Un_Int [of "set xs" "set ys"] by (simp add: length_remdups_card_conv)

lemma jaccard_half:
  assumes "0 < u"
  shows "((1::rat) / 2 \<le> of_nat i / of_nat (max 1 u)) \<longleftrightarrow> u \<le> 2 * i"
proof -
  have m: "max 1 u = u" using assms by simp
  have "((1::rat) / 2 \<le> of_nat i / of_nat u) \<longleftrightarrow> (of_nat u :: rat) \<le> 2 * of_nat i"
    using assms by (simp add: field_simps)
  also have "\<dots> \<longleftrightarrow> (of_nat u :: rat) \<le> of_nat (2 * i)" by simp
  also have "\<dots> \<longleftrightarrow> u \<le> 2 * i" by (rule of_nat_le_iff)
  finally show ?thesis unfolding m .
qed

lemma scoreName_spec: "scoreName c e = scoreSpec c e"
proof -
  let ?c = "normalizeName c" and ?e = "normalizeName e"
  have u: "0 < card (tokens ?c \<union> tokens ?e)"
    using tokens_nonempty [of ?c] by (simp add: card_gt_0_iff tokens_def)
  have j: "((1::rat) / 2 \<le> of_nat (length (filter (\<lambda>t. t \<in> set (remdups (split_on CHR '' '' ?e)))
                                     (remdups (split_on CHR '' '' ?c))))
              / of_nat (max 1 (length (remdups (split_on CHR '' '' ?c))
                               + length (remdups (split_on CHR '' '' ?e))
                               - length (filter (\<lambda>t. t \<in> set (remdups (split_on CHR '' '' ?e)))
                                     (remdups (split_on CHR '' '' ?c))))))
           \<longleftrightarrow> card (tokens ?c \<union> tokens ?e) \<le> 2 * card (tokens ?c \<inter> tokens ?e)"
    using jaccard_half [OF u, of "card (tokens ?c \<inter> tokens ?e)"]
      inter_count [of "split_on CHR '' '' ?e" "split_on CHR '' '' ?c"]
      union_count [of "split_on CHR '' '' ?c" "split_on CHR '' '' ?e"]
    by (simp add: tokens_def)
  show ?thesis
    unfolding scoreName_def scoreSpec_def Let_def j startsWith_prefix
    by auto
qed


lemma sort_key_hd:
  assumes "xs \<noteq> []"
  shows "hd (sort_key f xs) \<in> set xs"
    and "\<forall>y \<in> set xs. f (hd (sort_key f xs)) \<le> f y"
    and "hd (sort_key f xs) = hd (filter (\<lambda>y. f y = f (hd (sort_key f xs))) xs)"
proof -
  let ?S = "sort_key f xs"
  from assms have "length ?S \<noteq> 0" by simp
  then obtain a T where S: "?S = a # T" by (cases ?S) auto
  have st: "set ?S = set xs" by simp
  show "hd ?S \<in> set xs" using st S by auto
  have "sorted (map f ?S)" by (rule sorted_sort_key)
  then have "\<forall>y \<in> set T. f a \<le> f y" by (simp add: S)
  then have "\<forall>y \<in> set (a # T). f a \<le> f y" by simp
  then have "\<forall>y \<in> set ?S. f (hd ?S) \<le> f y" by (simp only: S list.sel)
  then show "\<forall>y \<in> set xs. f (hd ?S) \<le> f y" by (simp only: st)
  have "filter (\<lambda>y. f y = f a) ?S = filter (\<lambda>y. f y = f a) xs" by (rule sort_key_stable)
  then have "filter (\<lambda>y. f y = f a) xs = a # filter (\<lambda>y. f y = f a) T" by (simp add: S)
  then have "hd (filter (\<lambda>y. f y = f a) xs) = a" by simp
  then show "hd ?S = hd (filter (\<lambda>y. f y = f (hd ?S)) xs)" by (simp add: S)
qed

lemma sort_key_second:
  assumes "2 \<le> length xs"
  shows "\<exists>a b rest. sort_key f xs = a # b # rest
           \<and> b \<in> set (remove1 a xs) \<and> (\<forall>y \<in> set (remove1 a xs). f b \<le> f y)"
proof -
  let ?S = "sort_key f xs"
  from assms have "2 \<le> length ?S" by simp
  then obtain a b rest where S: "?S = a # b # rest"
    by (cases ?S; cases "tl ?S") auto
  have "mset xs = mset (a # b # rest)" by (metis S mset_sort)
  then have "mset (remove1 a xs) = mset (b # rest)" by simp
  then have st: "set (remove1 a xs) = set (b # rest)" by (rule mset_eq_setD)
  have "sorted (map f ?S)" by (rule sorted_sort_key)
  then have "\<forall>y \<in> set rest. f b \<le> f y" by (simp add: S)
  then have "\<forall>y \<in> set (b # rest). f b \<le> f y" by simp
  with st S show ?thesis by auto
qed

lemma find_hd_filter: "filter P xs \<noteq> [] \<Longrightarrow> find P xs = Some (hd (filter P xs))"
  by (induction xs) auto

lemma remove1_map_inj: "inj g \<Longrightarrow> remove1 (g b) (map g xs) = map g (remove1 b xs)"
  by (induction xs) (auto dest: injD)

lemma filter_sort_key_single:
  "length (filter Q (sort_key f xs)) = length (filter Q xs)"
  "length (filter Q (sort_key f xs)) = 1 \<Longrightarrow> filter Q (sort_key f xs) = filter Q xs"
proof -
  have m: "mset (filter Q (sort_key f xs)) = mset (filter Q xs)" by simp
  then show "length (filter Q (sort_key f xs)) = length (filter Q xs)"
    by (rule mset_eq_length)
  assume "length (filter Q (sort_key f xs)) = 1"
  then obtain z where z: "filter Q (sort_key f xs) = [z]"
    by (cases "filter Q (sort_key f xs)") auto
  with m have "mset (filter Q xs) = {#z#}" by simp
  then have "filter Q xs = [z]" by (simp only: mset_single_iff)
  with z show "filter Q (sort_key f xs) = filter Q xs" by simp
qed


lemma resolveByName_acceptSpec:
  assumes "2 \<le> length pool"
  shows "resolveByName pool name = acceptSpec pool name"
proof -
  define g where "g = (\<lambda>r. (r, scoreOf name r))"
  define f where "f = (\<lambda>x :: candidate \<times> nat. - int (snd x))"
  define xs where "xs = map g pool"
  define P where "P = (\<lambda>r. scoreOf name r = bestScore pool name)"
  define eLast where "eLast = nlast (splitName (normalizeName name))"
  define Q where "Q = (\<lambda>x :: candidate \<times> nat. nlast (splitName (normalizeName (c_name (fst x)))) = eLast)"
  have S: "scoredPool pool name = sort_key f xs"
    by (simp add: scoredPool_def f_def xs_def g_def scoreOf_def)
  have len: "2 \<le> length xs" "xs \<noteq> []" using assms by (auto simp: xs_def)
  obtain a b rest where abr: "sort_key f xs = a # b # rest"
      and b_in: "b \<in> set (remove1 a xs)" and b_min: "\<forall>y \<in> set (remove1 a xs). f b \<le> f y"
    using sort_key_second [OF len(1), of f] by blast
  have hdS: "hd (sort_key f xs) = a" by (simp add: abr)
  have a_in: "a \<in> set xs" using sort_key_hd(1) [OF len(2), of f] by (simp only: hdS)
  have a_min: "\<forall>y \<in> set xs. f a \<le> f y" using sort_key_hd(2) [OF len(2), of f] by (simp only: hdS)
  have a_first: "a = hd (filter (\<lambda>y. f y = f a) xs)"
    using sort_key_hd(3) [OF len(2), of f] by (simp only: hdS)
  have sx: "snd ` set xs = set (map (scoreOf name) pool)"
    by (auto simp: xs_def g_def image_iff)
  have best: "bestScore pool name = snd a"
    unfolding bestScore_def
  proof (rule Max_eqI)
    show "finite (set (map (scoreOf name) pool))" by simp
    show "snd a \<in> set (map (scoreOf name) pool)" using a_in sx by blast
    fix y assume "y \<in> set (map (scoreOf name) pool)"
    then obtain z where "z \<in> set xs" "y = snd z" using sx by blast
    then show "y \<le> snd a" using a_min by (auto simp: f_def)
  qed
  have fP: "filter (\<lambda>y. f y = f a) xs = map g (filter P pool)"
    by (simp add: xs_def filter_map comp_def f_def g_def P_def best)
  have "a \<in> set (filter (\<lambda>y. f y = f a) xs)" using a_in by simp
  then have "map g (filter P pool) \<noteq> []" unfolding fP by (metis empty_iff empty_set)
  then have ne: "filter P pool \<noteq> []" by simp
  define b0 where "b0 = hd (filter P pool)"
  have a_eq: "a = g b0" using a_first ne by (simp add: fP b0_def hd_map)
  have fb: "firstBest pool name = Some b0"
    unfolding firstBest_def b0_def using find_hd_filter [OF ne] by (simp add: P_def)
  have "inj g" by (auto simp: inj_on_def g_def)
  then have rm: "remove1 a xs = map g (remove1 b0 pool)"
    unfolding a_eq xs_def by (rule remove1_map_inj)
  have sr: "snd ` set (remove1 a xs) = set (map (scoreOf name) (remove1 b0 pool))"
    unfolding rm by (auto simp: g_def image_iff)
  have run: "runnerUp pool name = snd b"
    unfolding runnerUp_def fb option.case
  proof (rule Max_eqI)
    show "finite (set (map (scoreOf name) (remove1 b0 pool)))" by simp
    show "snd b \<in> set (map (scoreOf name) (remove1 b0 pool))" using b_in sr by blast
    fix y assume "y \<in> set (map (scoreOf name) (remove1 b0 pool))"
    then obtain z where "z \<in> set (remove1 a xs)" "y = snd z" using sr by blast
    then show "y \<le> snd b" using b_min by (auto simp: f_def)
  qed
  have fQ: "filter Q xs = map g (lastNameMatches pool name)"
    by (simp add: xs_def filter_map comp_def Q_def g_def lastNameMatches_def eLast_def)
  have lq: "length (filter Q (sort_key f xs)) = length (lastNameMatches pool name)"
    using filter_sort_key_single(1) [of Q f xs] by (simp add: fQ)
  have hq: "fst (hd (filter Q (sort_key f xs))) = hd (lastNameMatches pool name)"
    if "length (lastNameMatches pool name) = 1"
  proof -
    from that lq have "length (filter Q (sort_key f xs)) = 1" by simp
    then have "filter Q (sort_key f xs) = map g (lastNameMatches pool name)"
      using filter_sort_key_single(2) [of Q f xs] by (simp add: fQ)
    moreover from that have "lastNameMatches pool name \<noteq> []" by auto
    ultimately show ?thesis by (simp add: hd_map g_def)
  qed
  have lead: "(15 \<le> int (snd a) - int (snd b)) = (snd b + 15 \<le> snd a)" by arith
  have fa: "fst a = b0" by (simp add: a_eq g_def)
  have R: "resolveByName pool name =
      (if snd a > 0 then
         (if snd a \<ge> 85 \<or> snd b + 15 \<le> snd a then Some b0
          else if eLast \<noteq> [] then
            (if length (lastNameMatches pool name) = 1 then Some (hd (lastNameMatches pool name))
             else None)
          else None)
       else None)"
  proof -
    have sc: "scoredPool pool name = a # b # rest" by (simp add: S abr)
    have lm: "filter (\<lambda>x. nlast (splitName (normalizeName (c_name (fst x)))) = eLast) (a # b # rest)
              = filter Q (sort_key f xs)"
      by (simp add: Q_def abr)
    have "resolveByName pool name =
      (if snd a > 0 then
         (if snd a \<ge> 85 \<or> 15 \<le> int (snd a) - int (snd b) then Some (fst a)
          else if eLast \<noteq> [] then
            (if length (filter Q (sort_key f xs)) = 1
             then Some (fst (hd (filter Q (sort_key f xs)))) else None)
          else None)
       else None)"
      unfolding resolveByName_def sc Let_def list.case eLast_def [symmetric]
      unfolding lm by simp
    then show ?thesis
      unfolding lq lead fa by (simp add: hq)
  qed
  show ?thesis
    unfolding R acceptSpec_def best run fb eLast_def [symmetric] by auto
qed


lemma resolveCandidate_by_name:
  assumes "pool = filter (\<lambda>r. c_lookup_id r \<noteq> trim searchId) results"
    and "2 \<le> length pool"
    and "normalizeEmail email = [] \<or> find (\<lambda>r. normalizeEmail (c_email r) = normalizeEmail email) pool = None"
    and "name \<noteq> []"
  shows "resolveCandidate results searchId email name = resolveByName pool name"
  using assms by (auto simp: resolveCandidate_def Let_def)

text \<open>Accented letters of the Latin-1 range count as their base letters: "Emile Zola"
  written with an E acute (U+00C9) and an a acute (U+00E1) has the normalised name
  \<open>emile zola\<close>.\<close>

lemma normalizeName_accented:
  "normalizeName (CHR 0xC9 # ''mile Zol'' @ [CHR 0xE1]) = ''emile zola''
   \<and> scoreName (CHR 0xC9 # ''mile Zol'' @ [CHR 0xE1]) ''Emile Zola'' = 100"
  by code_simp

text \<open>
  Claim C6, as stated: the top scorer is accepted if and only if its score is at least 85, or
  it beats the runner-up by at least 15, or it is the unique candidate whose normalised last
  name equals the expected last name. It fails in two ways. For the expected name
  "A B C D Smith" and the pool "X Smith", "Y Jones", both candidates score 0 and the first is
  the unique candidate with the expected last name, yet no candidate is accepted. For the
  expected name "John Paul Smith" and the pool "John Paul Jones", "Paul John Jones",
  "X Y Z W Smith" the scores are 60, 60 and 0, and the candidate accepted is the third, which
  is not the top scorer.
\<close>

theorem C6_counterexample:
  "map (scoreOf ''A B C D Smith'') ex_pool_zero = [0, 0]
   \<and> lastNameMatches ex_pool_zero ''A B C D Smith'' = [mk_cand ''1'' ''X Smith'']
   \<and> acceptClaimed ex_pool_zero ''A B C D Smith'' = Some (mk_cand ''1'' ''X Smith'')
   \<and> resolveByName ex_pool_zero ''A B C D Smith'' = None
   \<and> resolveCandidate ex_pool_zero ''UTS-1'' [] ''A B C D Smith'' = None
   \<and> map (scoreOf ''John Paul Smith'') ex_pool_tie = [60, 60, 0]
   \<and> acceptClaimed ex_pool_tie ''John Paul Smith'' = None
   \<and> resolveByName ex_pool_tie ''John Paul Smith'' = Some (mk_cand ''3'' ''X Y Z W Smith'')
   \<and> resolveCandidate ex_pool_tie ''UTS-1'' [] ''John Paul Smith''
       = Some (mk_cand ''3'' ''X Y Z W Smith'')"
  by code_simp

text \<open>
  Claim C6, amended. For names written in ASCII characters (on these the normalisation is
  exactly: lower case, every character other than a to z and white space replaced by a space,
  runs of white space collapsed, trimmed): a pool candidate scores 0 when either normalised
  name is empty; otherwise 100 for equal normalised names; otherwise 85 when the last names
  are non-empty and equal and one first name is a prefix of the other; otherwise 60 when the
  Jaccard similarity of the token sets is at least one half; otherwise 0. For a pool of at
  least two candidates: when the best score is 0 no candidate is accepted; when the best score
  is at least 85, or exceeds the best score among the other candidates by at least 15, the
  first candidate with the best score is accepted; otherwise, when the expected last name is
  non-empty and exactly one pool candidate has that normalised last name, that candidate is
  accepted, whether or not it is the top scorer; otherwise none is.
\<close>

theorem C6_name_scoring_and_acceptance:
  "(is_ascii candidateName \<and> is_ascii expectedName \<longrightarrow>
      scoreName candidateName expectedName = scoreSpec candidateName expectedName)
   \<and> (2 \<le> length pool \<and> is_ascii name \<and> (\<forall>r \<in> set pool. is_ascii (c_name r)) \<longrightarrow>
        resolveByName pool name = acceptSpec pool name)
   \<and> (2 \<le> length (filter (\<lambda>r. c_lookup_id r \<noteq> trim searchId) results)
        \<and> normalizeEmail email = [] \<and> name \<noteq> []
        \<and> is_ascii name \<and> (\<forall>r \<in> set results. is_ascii (c_name r)) \<longrightarrow>
      resolveCandidate results searchId email name
        = acceptSpec (filter (\<lambda>r. c_lookup_id r \<noteq> trim searchId) results) name)"
proof -
  have "resolveCandidate results searchId email name
        = acceptSpec (filter (\<lambda>r. c_lookup_id r \<noteq> trim searchId) results) name"
    if "2 \<le> length (filter (\<lambda>r. c_lookup_id r \<noteq> trim searchId) results)"
      and "normalizeEmail email = []" and "name \<noteq> []"
    using resolveCandidate_by_name [OF refl that(1) disjI1 [OF that(2)] that(3)]
      resolveByName_acceptSpec [OF that(1)]
    by simp
  then show ?thesis
    using scoreName_spec resolveByName_acceptSpec by blast
qed

theorem C6_name_scoring_witness:
  "2 \<le> length ex_pool_tie
   \<and> is_ascii ''John Paul Smith'' \<and> list_all (\<lambda>r. is_ascii (c_name r)) ex_pool_tie
   \<and> resolveByName ex_pool_tie ''John Paul Smith'' = acceptSpec ex_pool_tie ''John Paul Smith''
   \<and> resolveByName ex_pool_tie ''John Paul Smith'' = Some (mk_cand ''3'' ''X Y Z W Smith'')
   \<and> is_ascii ''J Smith'' \<and> is_ascii ''John Smith''
   \<and> scoreSpec ''J Smith'' ''John Smith'' = 85"
proof -
  have l: "2 \<le> length ex_pool_tie" by (simp add: ex_pool_tie_def)
  have a: "is_ascii ''John Paul Smith''" "is_ascii ''J Smith''" "is_ascii ''John Smith''"
    by code_simp+
  have p: "list_all (\<lambda>r. is_ascii (c_name r)) ex_pool_tie" by code_simp
  have q: "\<forall>r \<in> set ex_pool_tie. is_ascii (c_name r)"
    using p by (simp add: list_all_iff)
  have r: "resolveByName ex_pool_tie ''John Paul Smith'' = Some (mk_cand ''3'' ''X Y Z W Smith'')"
    by code_simp
  have s: "scoreName ''J Smith'' ''John Smith'' = 85" by code_simp
  show ?thesis
    using C6_name_scoring_and_acceptance
            [of "''J Smith''" "''John Smith''" ex_pool_tie "''John Paul Smith''" "[]" "[]" "[]"]
      l a p q r s
    by simp
qed

section \<open>Properties of the Job Orchestrator\<close>

subsection \<open>The trigger route\<close>


lemma triggerRoute_leaves_running:
  assumes "org \<noteq> []"
  shows "\<exists>j. fst (snd (triggerRoute JOBS org now)) org = Some j \<and> j_state j = Running
            \<and> job_view (fst (triggerRoute JOBS org now)) = Some (snapshot_of j)"
  using assms by (auto simp: triggerRoute_def Let_def snapshot_of_def split: option.splits)

lemma registry_ok_empty: "registry_ok Map.empty"
  by (simp add: registry_ok_def)

lemma registry_ok_trigger:
  assumes "registry_ok JOBS"
  shows "registry_ok (fst (snd (triggerRoute JOBS org now)))"
proof -
  have "registry_ok (JOBS(org \<mapsto> j))" if "j_state j \<noteq> Idle" for j
    unfolding registry_ok_def
  proof
    fix x assume "x \<in> ran (JOBS(org \<mapsto> j))"
    then obtain k where "(JOBS(org \<mapsto> j)) k = Some x" by (auto simp: ran_def)
    then have "x = j \<or> x \<in> ran JOBS" by (auto simp: ran_def split: if_splits)
    then show "j_state x \<noteq> Idle" using that assms by (auto simp: registry_ok_def)
  qed
  then show ?thesis using assms by (simp add: triggerRoute_def Let_def)
qed










subsection \<open>The member loop\<close>

lemma onUpdate_state [simp]: "j_state (onUpdate j m p) = j_state j"
  and onUpdate_startedAt [simp]: "j_startedAt (onUpdate j m p) = j_startedAt j"
  and onUpdate_total [simp]: "total (j_progress (onUpdate j m p)) = total (j_progress j)"
  and onUpdate_result [simp]: "j_result (onUpdate j m p) = j_result j"
  by (simp_all add: onUpdate_def Let_def split: option.splits)

lemma onUpdate_validated_mono:
  "validated (j_progress j) \<le> total (j_progress j) \<Longrightarrow>
   validated (j_progress j) \<le> validated (j_progress (onUpdate j m p))
   \<and> validated (j_progress (onUpdate j m p)) \<le> total (j_progress j)"
  by (simp add: onUpdate_def Let_def split: option.splits)

lemma memberExpected_plain:
  "\<not> manualPresent r \<Longrightarrow> memberExpected r = getField r ''Discount Category''"
  by (simp add: memberExpected_def manualPresent_def)

lemma memberStep_manual:
  assumes "manualPresent r"
  shows "memberStep env r s =
         (skipMember r ''manual'' ''Manual check override'' ''manual_override'' (startMember r s),
          None)"
  using assms by (simp add: memberStep_def manualPresent_def Let_def)

lemma memberStep_no_request:
  assumes "\<not> manualPresent r" and "\<not> discountRequested r"
  shows "memberStep env r s =
         (skipMember r ''no_request'' ''No discount requested'' ''no_discount_requested''
            (startMember r s), None)"
  using assms memberExpected_plain [OF assms(1)]
  by (simp add: memberStep_def manualPresent_def discountRequested_def Let_def)

lemma memberStep_no_id:
  assumes "\<not> manualPresent r" and "discountRequested r" and "\<not> hasLookupId r"
  shows "memberStep env r s =
         ((startMember r s)
            \<lparr>l_results := l_results (startMember r s)
               @ [\<lparr>memberId = rec_id r, outcome = Skipped ''missing search_id''\<rparr>]\<rparr>,
          None)"
  using assms memberExpected_plain [OF assms(1)]
  by (simp add: memberStep_def manualPresent_def discountRequested_def hasLookupId_def
                memberQuery_def Let_def)

lemma memberStep_validate:
  assumes "\<not> manualPresent r" and "discountRequested r" and "hasLookupId r"
  shows "memberStep env r s =
         (case (if e_devFake env
                then (startMember r s,
                      Inr (devFakeResult (memberExpected r) (q_name (memberQuery r))
                             (q_email (memberQuery r)) (q_search_id (memberQuery r))))
                else callValidator env (rec_id r) (memberQuery r) (startMember r s)) of
            (s1, Inl e) \<Rightarrow> (s1, Some e)
          | (s1, Inr result) \<Rightarrow> (recordResult env r result s1, None))"
proof -
  have a: "trim (getField r ''Manual Discount Check'') = []"
    using assms(1) by (simp add: manualPresent_def)
  have b: "hasDiscountRequest (memberExpected r)"
    using assms(2) memberExpected_plain [OF assms(1)] by (simp add: discountRequested_def)
  have c: "q_search_id (memberQuery r) \<noteq> []"
    using assms(3) by (simp add: hasLookupId_def memberQuery_def)
  show ?thesis
    unfolding memberStep_def Let_def by (simp only: a b c simp_thms if_True if_False)
qed

lemma extends_refl: "extends s s"
  by (simp add: extends_def)

lemma extends_trans:
  assumes "extends a b" and "extends b c"
  shows "extends a c"
proof -
  from assms(1) obtain m1 w1 where 1: "l_trace b = l_trace a @ m1" "\<forall>x \<in> set m1. \<not> is_gates x"
      "member_writes (l_store b) = member_writes (l_store a) @ w1"
    by (auto simp: extends_def)
  from assms(2) obtain m2 w2 where 2: "l_trace c = l_trace b @ m2" "\<forall>x \<in> set m2. \<not> is_gates x"
      "member_writes (l_store c) = member_writes (l_store b) @ w2"
    by (auto simp: extends_def)
  have t: "l_trace c = l_trace a @ (m1 @ m2)" "\<forall>x \<in> set (m1 @ m2). \<not> is_gates x"
    and w: "member_writes (l_store c) = member_writes (l_store a) @ (w1 @ w2)"
    using 1 2 by auto
  have rest: "agreement (l_store c) = agreement (l_store a)"
      "agreement_created (l_store c) = agreement_created (l_store a)"
      "j_state (l_job c) = j_state (l_job a)" "j_startedAt (l_job c) = j_startedAt (l_job a)"
      "total (j_progress (l_job c)) = total (j_progress (l_job a))"
    using assms by (simp_all add: extends_def)
  have v: "validated (j_progress (l_job a)) \<le> validated (j_progress (l_job c))
           \<and> validated (j_progress (l_job c)) \<le> total (j_progress (l_job a))"
    if "validated (j_progress (l_job a)) \<le> total (j_progress (l_job a))"
    using that assms by (auto simp: extends_def)
  show ?thesis
    unfolding extends_def using t w rest v by blast
qed

lemma extends_startMember: "extends s (startMember r s)"
  using onUpdate_validated_mono [of "l_job s" "rec_id r" pendingUpdate]
  by (simp add: extends_def startMember_def)

lemma extends_onUpdate: "extends s (s\<lparr>l_job := onUpdate (l_job s) m p, l_results := rs\<rparr>)"
  using onUpdate_validated_mono [of "l_job s" m p]
  by (simp add: extends_def)

lemma extends_skipMember: "extends s0 (skipMember r code msg why s0)"
  unfolding skipMember_def by (rule extends_onUpdate)

lemma extends_results: "extends s (s\<lparr>l_results := rs\<rparr>)"
  by (simp add: extends_def)

lemma extends_recordResult: "extends s (recordResult env r result s)"
proof -
  define threw where "threw = (if rec_id r = [] then None else e_storeUpdate env (rec_id r))"
  define s2 where "s2 =
     (if rec_id r = [] then s
      else s\<lparr>l_trace := l_trace s @ [EvStoreWrite (rec_id r)],
              l_store := (if threw = None
                          then (l_store s)
                                 \<lparr>member_writes := member_writes (l_store s)
                                    @ [(rec_id r, validationFields (e_today env) result
                                                    (memberExpected r))]\<rparr>
                          else l_store s)\<rparr>)"
  define p where "p =
     \<lparr>pa_status = (if toLowerCase (v_status result) \<noteq> [] then toLowerCase (v_status result)
                    else if v_valid result then ''valid'' else ''invalid''),
      pa_reason_code = (case fst (mapReason (if v_status result \<noteq> [] then v_status result
                                             else v_reason result)) of
                          None \<Rightarrow> [] | Some c \<Rightarrow> c),
      pa_reason_message = snd (mapReason (if v_status result \<noteq> [] then v_status result
                                          else v_reason result))\<rparr>"
  have a: "extends s s2" by (simp add: s2_def extends_def)
  have "recordResult env r result s
        = s2\<lparr>l_job := onUpdate (l_job s2) (rec_id r) p,
              l_results := l_results s2 @ [\<lparr>memberId = rec_id r, outcome = Validated result threw\<rparr>]\<rparr>"
    unfolding recordResult_def Let_def s2_def [symmetric] threw_def [symmetric] p_def [symmetric]
    by (rule refl)
  then have "extends s2 (recordResult env r result s)" by (simp add: extends_onUpdate)
  with a show ?thesis by (rule extends_trans)
qed

lemma extends_callValidator: "extends s (fst (callValidator env mid q s))"
  by (auto simp: extends_def callValidator_def Let_def split: sum.splits)

lemma extends_memberStep: "extends s (fst (memberStep env r s))"
proof -
  consider "manualPresent r" | "\<not> manualPresent r" "\<not> discountRequested r"
    | "\<not> manualPresent r" "discountRequested r" "\<not> hasLookupId r"
    | "\<not> manualPresent r" "discountRequested r" "hasLookupId r" by blast
  then show ?thesis
  proof cases
    case 1
    have "extends s (skipMember r ''manual'' ''Manual check override'' ''manual_override''
                       (startMember r s))"
      using extends_startMember extends_skipMember by (rule extends_trans)
    then show ?thesis using 1 by (simp add: memberStep_manual)
  next
    case 2
    have "extends s (skipMember r ''no_request'' ''No discount requested''
                       ''no_discount_requested'' (startMember r s))"
      using extends_startMember extends_skipMember by (rule extends_trans)
    then show ?thesis using 2 by (simp add: memberStep_no_request)
  next
    case 3
    have "extends (startMember r s) ((startMember r s)\<lparr>l_results := l_results (startMember r s)
             @ [\<lparr>memberId = rec_id r, outcome = Skipped ''missing search_id''\<rparr>]\<rparr>)"
      by (rule extends_results)
    with extends_startMember have "extends s ((startMember r s)\<lparr>l_results := l_results (startMember r s)
             @ [\<lparr>memberId = rec_id r, outcome = Skipped ''missing search_id''\<rparr>]\<rparr>)"
      by (rule extends_trans)
    then show ?thesis using 3 by (simp add: memberStep_no_id)
  next
    case 4
    show ?thesis
    proof (cases "e_devFake env")
      case True
      have "extends (startMember r s) (recordResult env r res (startMember r s))" for res
        by (rule extends_recordResult)
      with extends_startMember have "extends s (recordResult env r res (startMember r s))" for res
        by (rule extends_trans)
      then show ?thesis using 4 True by (simp add: memberStep_validate)
    next
      case False
      obtain s1 res where cv: "callValidator env (rec_id r) (memberQuery r) (startMember r s) = (s1, res)"
        by (cases "callValidator env (rec_id r) (memberQuery r) (startMember r s)") auto
      have "extends (startMember r s) s1"
        using extends_callValidator [of "startMember r s" env "rec_id r" "memberQuery r"] cv by simp
      with extends_startMember have e1: "extends s s1" by (rule extends_trans)
      show ?thesis
      proof (cases res)
        case (Inl e)
        then show ?thesis using 4 False cv e1 by (simp add: memberStep_validate)
      next
        case (Inr result)
        have "extends s (recordResult env r result s1)"
          using e1 extends_recordResult by (rule extends_trans)
        then show ?thesis using 4 False cv Inr by (simp add: memberStep_validate)
      qed
    qed
  qed
qed

lemma extends_loop: "extends s (fst (runMemberValidationsSequential env rs s))"
proof (induction rs arbitrary: s)
  case Nil
  show ?case by (simp add: extends_refl)
next
  case (Cons r rs)
  obtain s' ex where m: "memberStep env r s = (s', ex)" by (cases "memberStep env r s") auto
  have e: "extends s s'" using extends_memberStep [of s env r] m by simp
  show ?case
  proof (cases ex)
    case None
    have "extends s' (fst (runMemberValidationsSequential env rs s'))" by (rule Cons.IH)
    with e have "extends s (fst (runMemberValidationsSequential env rs s'))" by (rule extends_trans)
    then show ?thesis using m None by simp
  next
    case (Some a)
    then show ?thesis using m e by simp
  qed
qed


subsection \<open>Skipped and resolved members\<close>

lemma callValidator_calls:
  "EvResolver mid q \<in> set (l_trace (fst (callValidator env mid q s)))"
  by (auto simp: callValidator_def Let_def split: sum.splits)

lemma callValidator_keeps:
  "l_results (fst (callValidator env mid q s)) = l_results s"
  "l_store (fst (callValidator env mid q s)) = l_store s"
  by (auto simp: callValidator_def Let_def split: sum.splits)

lemma callValidator_throws:
  "snd (callValidator env mid q s) = Inl e \<Longrightarrow> \<exists>n. e_validate env n q = Inl e"
  by (auto simp: callValidator_def Let_def split: sum.splits if_splits)

lemma recordResult_results:
  "l_results (recordResult env r result s)
   = l_results s @ [\<lparr>memberId = rec_id r,
                      outcome = Validated result (if rec_id r = [] then None
                                                  else e_storeUpdate env (rec_id r))\<rparr>]"
  by (simp add: recordResult_def Let_def)

lemma recordResult_trace:
  "set (l_trace s) \<subseteq> set (l_trace (recordResult env r result s))"
  by (auto simp: recordResult_def Let_def)

lemma startMember_simps [simp]:
  "l_trace (startMember r s) = l_trace s @ [EvMember (rec_id r)]"
  "l_store (startMember r s) = l_store s"
  "l_results (startMember r s) = l_results s"
  by (simp_all add: startMember_def)

lemma skipMember_simps [simp]:
  "l_trace (skipMember r code msg why s0) = l_trace s0"
  "l_store (skipMember r code msg why s0) = l_store s0"
  "l_results (skipMember r code msg why s0)
   = l_results s0 @ [\<lparr>memberId = rec_id r, outcome = Skipped why\<rparr>]"
  by (simp_all add: skipMember_def)

lemma memberStep_skips:
  assumes "manualPresent r \<or> \<not> discountRequested r \<or> \<not> hasLookupId r"
  shows "snd (memberStep env r s) = None
       \<and> l_trace (fst (memberStep env r s)) = l_trace s @ [EvMember (rec_id r)]
       \<and> l_store (fst (memberStep env r s)) = l_store s
       \<and> l_results (fst (memberStep env r s))
           = l_results s @ [\<lparr>memberId = rec_id r,
                              outcome = Skipped (if manualPresent r then ''manual_override''
                                                 else if \<not> discountRequested r
                                                 then ''no_discount_requested''
                                                 else ''missing search_id'')\<rparr>]"
proof -
  consider "manualPresent r" | "\<not> manualPresent r" "\<not> discountRequested r"
    | "\<not> manualPresent r" "discountRequested r" "\<not> hasLookupId r"
    using assms by blast
  then show ?thesis
  proof cases
    case 1
    then show ?thesis by (simp add: memberStep_manual)
  next
    case 2
    then show ?thesis by (simp add: memberStep_no_request)
  next
    case 3
    then show ?thesis by (simp add: memberStep_no_id)
  qed
qed

lemma memberStep_resolves:
  assumes "\<not> manualPresent r" and "discountRequested r" and "hasLookupId r"
    and "\<not> e_devFake env"
  shows "EvResolver (rec_id r) (memberQuery r) \<in> set (l_trace (fst (memberStep env r s)))
       \<and> (case snd (memberStep env r s) of
            Some e \<Rightarrow> (\<exists>n. e_validate env n (memberQuery r) = Inl e)
                       \<and> l_results (fst (memberStep env r s)) = l_results s
          | None \<Rightarrow> (\<exists>result threw.
                        l_results (fst (memberStep env r s))
                        = l_results s @ [\<lparr>memberId = rec_id r, outcome = Validated result threw\<rparr>]))"
proof -
  obtain s1 res where cv: "callValidator env (rec_id r) (memberQuery r) (startMember r s) = (s1, res)"
    by (cases "callValidator env (rec_id r) (memberQuery r) (startMember r s)") auto
  have c: "EvResolver (rec_id r) (memberQuery r) \<in> set (l_trace s1)"
    using callValidator_calls [of "rec_id r" "memberQuery r" env "startMember r s"] cv by simp
  have k: "l_results s1 = l_results s"
    using callValidator_keeps(1) [of env "rec_id r" "memberQuery r" "startMember r s"] cv by simp
  show ?thesis
  proof (cases res)
    case (Inl e)
    have "\<exists>n. e_validate env n (memberQuery r) = Inl e"
      using callValidator_throws [of env "rec_id r" "memberQuery r" "startMember r s" e] cv Inl
      by simp
    then show ?thesis using assms cv Inl c k by (simp add: memberStep_validate)
  next
    case (Inr result)
    have "EvResolver (rec_id r) (memberQuery r) \<in> set (l_trace (recordResult env r result s1))"
      using c recordResult_trace by blast
    then show ?thesis
      using assms cv Inr k by (simp add: memberStep_validate recordResult_results)
  qed
qed


lemma callValidator_answer:
  "snd (callValidator env mid q s) = resolverAnswer env q (l_refreshed s) (l_attempts s)"
  by (auto simp: callValidator_def resolverAnswer_def Let_def split: sum.splits)

lemma startMember_counters [simp]:
  "l_refreshed (startMember r s) = l_refreshed s"
  "l_attempts (startMember r s) = l_attempts s"
  by (simp_all add: startMember_def)

lemma recordResult_trace_exact:
  "l_trace (recordResult env r result s)
   = l_trace s @ (if rec_id r = [] then [] else [EvStoreWrite (rec_id r)])"
  by (simp add: recordResult_def Let_def)

text \<open>A resolved member, outside the development mode: what the step does, by the answer of
  the Resolver.\<close>

lemma memberStep_resolved:
  assumes "resolvable r" and "\<not> e_devFake env"
  shows "case resolverAnswer env (memberQuery r) (l_refreshed s) (l_attempts s) of
           Inl e \<Rightarrow>
             snd (memberStep env r s) = Some e
             \<and> l_results (fst (memberStep env r s)) = l_results s
             \<and> l_store (fst (memberStep env r s)) = l_store s
         | Inr result \<Rightarrow>
             snd (memberStep env r s) = None
             \<and> l_results (fst (memberStep env r s))
                 = l_results s @ [\<lparr>memberId = rec_id r,
                                    outcome = Validated result
                                                (if rec_id r = [] then None
                                                 else e_storeUpdate env (rec_id r))\<rparr>]"
proof -
  have c: "\<not> manualPresent r" "discountRequested r" "hasLookupId r"
    using assms(1) by (simp_all add: resolvable_def)
  obtain s1 res where cv: "callValidator env (rec_id r) (memberQuery r) (startMember r s) = (s1, res)"
    by (cases "callValidator env (rec_id r) (memberQuery r) (startMember r s)") auto
  have a: "resolverAnswer env (memberQuery r) (l_refreshed s) (l_attempts s) = res"
    using callValidator_answer [of env "rec_id r" "memberQuery r" "startMember r s"] cv by simp
  have k: "l_results s1 = l_results s" "l_store s1 = l_store s"
    using callValidator_keeps [of env "rec_id r" "memberQuery r" "startMember r s"] cv by simp_all
  show ?thesis
  proof (cases res)
    case (Inl e)
    then show ?thesis using c assms(2) cv k by (simp add: a memberStep_validate)
  next
    case (Inr result)
    then show ?thesis
      using c assms(2) cv k by (simp add: a memberStep_validate recordResult_results)
  qed
qed

text \<open>A resolved member in the development mode: no call of the Resolver.\<close>

lemma memberStep_devFake:
  assumes "resolvable r" and "e_devFake env"
  shows "snd (memberStep env r s) = None
       \<and> l_trace (fst (memberStep env r s))
           = l_trace s @ [EvMember (rec_id r)]
               @ (if rec_id r = [] then [] else [EvStoreWrite (rec_id r)])
       \<and> l_results (fst (memberStep env r s))
           = l_results s
             @ [\<lparr>memberId = rec_id r,
                  outcome = Validated (devFakeResult (memberExpected r) (q_name (memberQuery r))
                                         (q_email (memberQuery r)) (q_search_id (memberQuery r)))
                              (if rec_id r = [] then None else e_storeUpdate env (rec_id r))\<rparr>]"
proof -
  have c: "\<not> manualPresent r" "discountRequested r" "hasLookupId r"
    using assms(1) by (simp_all add: resolvable_def)
  show ?thesis
    using c assms(2)
    by (simp add: memberStep_validate recordResult_results recordResult_trace_exact)
qed

lemma memberStep_throws:
  "snd (memberStep env r s) = resolverThrows env r s"
proof (cases "resolvable r")
  case False
  then have "manualPresent r \<or> \<not> discountRequested r \<or> \<not> hasLookupId r"
    by (simp add: resolvable_def)
  then show ?thesis using memberStep_skips [of r env s] False by (simp add: resolverThrows_def)
next
  case True
  show ?thesis
  proof (cases "e_devFake env")
    case True
    then show ?thesis
      using memberStep_devFake [OF \<open>resolvable r\<close> True, of s] by (simp add: resolverThrows_def)
  next
    case False
    then show ?thesis
      using memberStep_resolved [OF True False, of s] True
      by (auto simp: resolverThrows_def split: sum.splits)
  qed
qed

text \<open>
  Claim C4, as stated: the Directory is never called and the outcome is \<open>skipped\<close> exactly
  when a manual-override check is present or no discount was requested; and a member with a
  manual-override category set is never resolved. It fails in both directions. A member who
  asks for a discount, has no manual check and has no lookup id is skipped without any call of
  the Resolver. A member with a manual category but no manual check, who asks for a discount
  and has a lookup id, is resolved, and its outcome is not \<open>skipped\<close>.
\<close>

theorem C4_counterexample:
  "\<not> manualPresent (ex_member ''recM1'' []) \<and> discountRequested (ex_member ''recM1'' [])
   \<and> l_results (fst (memberStep ex_env_no_id (ex_member ''recM1'' [])
                        (init_lstate (new_job 1000) empty_store [])))
       = [\<lparr>memberId = ''recM1'', outcome = Skipped ''missing search_id''\<rparr>]
   \<and> l_trace (fst (memberStep ex_env_no_id (ex_member ''recM1'' [])
                      (init_lstate (new_job 1000) empty_store [])))
       = [EvMember ''recM1'']
   \<and> getField ex_member_manual_cat ''Manual Discount Category'' = ''Current UTS Staff''
   \<and> l_trace (fst (memberStep ex_env_no_id ex_member_manual_cat
                      (init_lstate (new_job 1000) empty_store [])))
       = [EvMember ''recM3'', EvResolver ''recM3'' (memberQuery ex_member_manual_cat),
          EvStoreWrite ''recM3'']
   \<and> l_results (fst (memberStep ex_env_no_id ex_member_manual_cat
                        (init_lstate (new_job 1000) empty_store [])))
       = [\<lparr>memberId = ''recM3'', outcome = Validated ex_valid_result None\<rparr>]"
  by code_simp

text \<open>
  Claim C4, amended. A member is skipped, with no call of the Resolver (hence none of the
  Directory) and no write to the Persistent Store, when a manual-override check is present,
  or else when no discount was requested (the expected category is empty or the
  "none of the above" sentinel), or else when the member has no lookup id; the reasons are
  \<open>manual_override\<close>, \<open>no_discount_requested\<close> and \<open>missing search_id\<close>. In particular a
  member with a manual-override check is never resolved and is always skipped. Every other
  member gets a result and is not skipped. In the development mode that fakes results the
  Resolver is not called and the result recorded is the fixed valid one. Otherwise the
  Resolver is called with the member's query, and the outcome recorded is its answer (the
  answer to the one retry, when the first answer reports a 401 and the token refresh
  succeeds), together with the exception of the write to the Persistent Store, if that threw;
  an exception of the Resolver call itself leaves the loop and records nothing.
\<close>

theorem C4_skipped_without_directory_call:
  "(manualPresent r \<or> \<not> discountRequested r \<or> \<not> hasLookupId r \<longrightarrow>
      snd (memberStep env r s) = None
      \<and> l_trace (fst (memberStep env r s)) = l_trace s @ [EvMember (rec_id r)]
      \<and> l_store (fst (memberStep env r s)) = l_store s
      \<and> l_results (fst (memberStep env r s))
          = l_results s @ [\<lparr>memberId = rec_id r,
                             outcome = Skipped (if manualPresent r then ''manual_override''
                                                else if \<not> discountRequested r
                                                then ''no_discount_requested''
                                                else ''missing search_id'')\<rparr>])
   \<and> (\<not> manualPresent r \<and> discountRequested r \<and> hasLookupId r \<and> e_devFake env \<longrightarrow>
      snd (memberStep env r s) = None
      \<and> l_trace (fst (memberStep env r s))
          = l_trace s @ [EvMember (rec_id r)]
              @ (if rec_id r = [] then [] else [EvStoreWrite (rec_id r)])
      \<and> l_results (fst (memberStep env r s))
          = l_results s
            @ [\<lparr>memberId = rec_id r,
                 outcome = Validated (devFakeResult (memberExpected r) (q_name (memberQuery r))
                                        (q_email (memberQuery r)) (q_search_id (memberQuery r)))
                             (if rec_id r = [] then None else e_storeUpdate env (rec_id r))\<rparr>])
   \<and> (\<not> manualPresent r \<and> discountRequested r \<and> hasLookupId r \<and> \<not> e_devFake env \<longrightarrow>
      EvResolver (rec_id r) (memberQuery r) \<in> set (l_trace (fst (memberStep env r s)))
      \<and> (case resolverAnswer env (memberQuery r) (l_refreshed s) (l_attempts s) of
            Inl e \<Rightarrow>
              snd (memberStep env r s) = Some e
              \<and> l_results (fst (memberStep env r s)) = l_results s
              \<and> l_store (fst (memberStep env r s)) = l_store s
          | Inr result \<Rightarrow>
              snd (memberStep env r s) = None
              \<and> l_results (fst (memberStep env r s))
                  = l_results s @ [\<lparr>memberId = rec_id r,
                                     outcome = Validated result
                                                 (if rec_id r = [] then None
                                                  else e_storeUpdate env (rec_id r))\<rparr>]))"
proof -
  have A: "manualPresent r \<or> \<not> discountRequested r \<or> \<not> hasLookupId r \<longrightarrow>
      snd (memberStep env r s) = None
      \<and> l_trace (fst (memberStep env r s)) = l_trace s @ [EvMember (rec_id r)]
      \<and> l_store (fst (memberStep env r s)) = l_store s
      \<and> l_results (fst (memberStep env r s))
          = l_results s @ [\<lparr>memberId = rec_id r,
                             outcome = Skipped (if manualPresent r then ''manual_override''
                                                else if \<not> discountRequested r
                                                then ''no_discount_requested''
                                                else ''missing search_id'')\<rparr>]"
    using memberStep_skips [of r env s] by (rule impI)
  have B: "\<not> manualPresent r \<and> discountRequested r \<and> hasLookupId r \<and> e_devFake env \<longrightarrow>
      snd (memberStep env r s) = None
      \<and> l_trace (fst (memberStep env r s))
          = l_trace s @ [EvMember (rec_id r)]
              @ (if rec_id r = [] then [] else [EvStoreWrite (rec_id r)])
      \<and> l_results (fst (memberStep env r s))
          = l_results s
            @ [\<lparr>memberId = rec_id r,
                 outcome = Validated (devFakeResult (memberExpected r) (q_name (memberQuery r))
                                        (q_email (memberQuery r)) (q_search_id (memberQuery r)))
                             (if rec_id r = [] then None else e_storeUpdate env (rec_id r))\<rparr>]"
  proof
    assume h: "\<not> manualPresent r \<and> discountRequested r \<and> hasLookupId r \<and> e_devFake env"
    then have "resolvable r" "e_devFake env" by (simp_all add: resolvable_def)
    then show "snd (memberStep env r s) = None
      \<and> l_trace (fst (memberStep env r s))
          = l_trace s @ [EvMember (rec_id r)]
              @ (if rec_id r = [] then [] else [EvStoreWrite (rec_id r)])
      \<and> l_results (fst (memberStep env r s))
          = l_results s
            @ [\<lparr>memberId = rec_id r,
                 outcome = Validated (devFakeResult (memberExpected r) (q_name (memberQuery r))
                                        (q_email (memberQuery r)) (q_search_id (memberQuery r)))
                             (if rec_id r = [] then None else e_storeUpdate env (rec_id r))\<rparr>]"
      by (rule memberStep_devFake)
  qed
  have C: "\<not> manualPresent r \<and> discountRequested r \<and> hasLookupId r \<and> \<not> e_devFake env \<longrightarrow>
      EvResolver (rec_id r) (memberQuery r) \<in> set (l_trace (fst (memberStep env r s)))
      \<and> (case resolverAnswer env (memberQuery r) (l_refreshed s) (l_attempts s) of
            Inl e \<Rightarrow>
              snd (memberStep env r s) = Some e
              \<and> l_results (fst (memberStep env r s)) = l_results s
              \<and> l_store (fst (memberStep env r s)) = l_store s
          | Inr result \<Rightarrow>
              snd (memberStep env r s) = None
              \<and> l_results (fst (memberStep env r s))
                  = l_results s @ [\<lparr>memberId = rec_id r,
                                     outcome = Validated result
                                                 (if rec_id r = [] then None
                                                  else e_storeUpdate env (rec_id r))\<rparr>])"
  proof
    assume h: "\<not> manualPresent r \<and> discountRequested r \<and> hasLookupId r \<and> \<not> e_devFake env"
    then have c: "\<not> manualPresent r" "discountRequested r" "hasLookupId r" "\<not> e_devFake env"
      by simp_all
    then have rs: "resolvable r" by (simp add: resolvable_def)
    have t: "EvResolver (rec_id r) (memberQuery r) \<in> set (l_trace (fst (memberStep env r s)))"
      using memberStep_resolves [OF c, of s] by simp
    from t memberStep_resolved [OF rs c(4), of s]
    show "EvResolver (rec_id r) (memberQuery r) \<in> set (l_trace (fst (memberStep env r s)))
      \<and> (case resolverAnswer env (memberQuery r) (l_refreshed s) (l_attempts s) of
            Inl e \<Rightarrow>
              snd (memberStep env r s) = Some e
              \<and> l_results (fst (memberStep env r s)) = l_results s
              \<and> l_store (fst (memberStep env r s)) = l_store s
          | Inr result \<Rightarrow>
              snd (memberStep env r s) = None
              \<and> l_results (fst (memberStep env r s))
                  = l_results s @ [\<lparr>memberId = rec_id r,
                                     outcome = Validated result
                                                 (if rec_id r = [] then None
                                                  else e_storeUpdate env (rec_id r))\<rparr>])"
      by (rule conjI)
  qed
  from A B C show ?thesis by (intro conjI)
qed

theorem C4_skipped_witness:
  "manualPresent ex_member_manual_check
   \<and> l_trace (fst (memberStep ex_env_no_id ex_member_manual_check
                      (init_lstate (new_job 1000) empty_store [])))
       = [EvMember ''recM5'']
   \<and> l_results (fst (memberStep ex_env_no_id ex_member_manual_check
                        (init_lstate (new_job 1000) empty_store [])))
       = [\<lparr>memberId = ''recM5'', outcome = Skipped ''manual_override''\<rparr>]
   \<and> \<not> manualPresent (ex_member ''recM2'' ''111'') \<and> discountRequested (ex_member ''recM2'' ''111'')
   \<and> hasLookupId (ex_member ''recM2'' ''111'') \<and> \<not> e_devFake ex_env_write_fails
   \<and> EvResolver ''recM2'' (memberQuery (ex_member ''recM2'' ''111''))
       \<in> set (l_trace (fst (memberStep ex_env_write_fails (ex_member ''recM2'' ''111'')
                               (init_lstate (new_job 1000) empty_store []))))
   \<and> l_results (fst (memberStep ex_env_write_fails (ex_member ''recM2'' ''111'')
                        (init_lstate (new_job 1000) empty_store [])))
       = [\<lparr>memberId = ''recM2'', outcome = Validated ex_valid_result (Some ''Airtable 503'')\<rparr>]
   \<and> e_devFake ex_env_dev_fake
   \<and> l_trace (fst (memberStep ex_env_dev_fake (ex_member ''recM2'' ''111'')
                      (init_lstate (new_job 1000) empty_store [])))
       = [EvMember ''recM2'', EvStoreWrite ''recM2'']"
proof -
  let ?s = "init_lstate (new_job 1000) empty_store []"
  have a: "manualPresent ex_member_manual_check" by code_simp
  have b: "\<not> manualPresent (ex_member ''recM2'' ''111'')" "discountRequested (ex_member ''recM2'' ''111'')"
      "hasLookupId (ex_member ''recM2'' ''111'')" "\<not> e_devFake ex_env_write_fails"
      "e_devFake ex_env_dev_fake"
    by code_simp+
  have i: "rec_id ex_member_manual_check = ''recM5''" "rec_id (ex_member ''recM2'' ''111'') = ''recM2''"
    by (simp_all add: ex_member_manual_check_def ex_member_def)
  have l: "l_trace ?s = []" "l_results ?s = []" "l_refreshed ?s = 0" "l_attempts ?s = 0"
    by (simp_all add: init_lstate_def)
  have w: "resolverAnswer ex_env_write_fails (memberQuery (ex_member ''recM2'' ''111'')) 0 0
           = Inr ex_valid_result"
    by code_simp
  have u: "e_storeUpdate ex_env_write_fails ''recM2'' = Some ''Airtable 503''"
    by (simp add: ex_env_write_fails_def)
  show ?thesis
    using C4_skipped_without_directory_call [of ex_member_manual_check ex_env_no_id ?s]
          C4_skipped_without_directory_call [of "ex_member ''recM2'' ''111''" ex_env_write_fails ?s]
          C4_skipped_without_directory_call [of "ex_member ''recM2'' ''111''" ex_env_dev_fake ?s]
          a b
    by (simp add: i l w u)
qed

subsection \<open>The detached run\<close>

lemma failJob_simps [simp]:
  "j_state (r_job (failJob env job st tr e)) = Error"
  "j_result (r_job (failJob env job st tr e)) = ErrorResult e"
  "j_progress (r_job (failJob env job st tr e)) = j_progress job"
  "j_startedAt (r_job (failJob env job st tr e)) = j_startedAt job"
  "r_store (failJob env job st tr e) = st"
  "r_trace (failJob env job st tr e) = tr"
  by (simp_all add: failJob_def)

lemma runJob_fetch_fails:
  "e_fetch env = Inl e \<Longrightarrow> runJob env job st = failJob env job st [EvFetch] e"
  by (simp add: runJob_def)

lemma runJob_fetched:
  assumes "e_fetch env = Inr (startupRec, members)"
  shows "runJob env job st =
         (if \<not> gatesPass startupRec members then
            \<lparr>r_job = (seededJob job members)
                       \<lparr>j_state := Blocked,
                        j_result := BlockedResult (startupFormSubmitted startupRec)
                                      (submissionConfirmation startupRec) (anyRepSubmitted members),
                        j_finishedAt := Some (e_now env)\<rparr>,
             r_store = st, r_trace = [EvFetch, gatesOf startupRec members]\<rparr>
          else
            (case loopOf env job st startupRec members of
               (s, Some e) \<Rightarrow> failJob env (l_job s) (l_store s) (l_trace s) e
             | (s, None) \<Rightarrow>
                 finishRun env (String_of (orEmpty (rget startupRec ''Startup Name (or working title)'')))
                   s))"
  using assms
  by (simp add: runJob_def Let_def gatesPass_def seededJob_def gatesOf_def loopOf_def)

lemma finishRun_trace:
  "\<exists>more. r_trace (finishRun env n s) = l_trace s @ more
          \<and> (\<forall>x \<in> set more. \<not> is_gates x) \<and> (\<forall>x \<in> set more. \<not> is_resolver x)"
  by (auto simp: finishRun_def Let_def failJob_def split: sum.splits option.splits)

lemma finishRun_writes:
  "member_writes (r_store (finishRun env n s)) = member_writes (l_store s)"
  by (auto simp: finishRun_def Let_def failJob_def split: sum.splits option.splits)

lemma finishRun_job:
  "j_progress (r_job (finishRun env n s)) = j_progress (l_job s)"
  "j_members (r_job (finishRun env n s)) = j_members (l_job s)"
  "j_startedAt (r_job (finishRun env n s)) = j_startedAt (l_job s)"
  by (auto simp: finishRun_def Let_def failJob_def split: sum.splits option.splits)

lemma finishRun_payload_fails:
  "e_payload env = Inl e \<Longrightarrow>
   j_state (r_job (finishRun env n s)) = Error \<and> j_result (r_job (finishRun env n s)) = ErrorResult e"
  by (simp add: finishRun_def Let_def)

lemma finishRun_render_fails:
  "e_payload env = Inr p \<Longrightarrow> e_render env = Inl e \<Longrightarrow>
   j_state (r_job (finishRun env n s)) = Error \<and> j_result (r_job (finishRun env n s)) = ErrorResult e"
  by (simp add: finishRun_def Let_def)

lemma finishRun_cache_fails:
  "e_payload env = Inr p \<Longrightarrow> e_render env = Inr b \<Longrightarrow> e_cache env = Some e \<Longrightarrow>
   j_state (r_job (finishRun env n s)) = Error \<and> j_result (r_job (finishRun env n s)) = ErrorResult e"
  by (simp add: finishRun_def Let_def)

lemma finishRun_done:
  "e_payload env = Inr p \<Longrightarrow> e_render env = Inr b \<Longrightarrow> e_cache env = None \<Longrightarrow>
   j_state (r_job (finishRun env n s)) = Done
   \<and> (\<exists>url filename. j_result (r_job (finishRun env n s)) = DoneResult url filename (l_results s))
   \<and> (e_attach env \<noteq> None \<longrightarrow> r_store (finishRun env n s) = l_store s)"
  by (simp add: finishRun_def Let_def)

lemma loopOf_extends:
  "extends (init_lstate (seededJob job members) st [EvFetch, gatesOf startupRec members])
           (fst (loopOf env job st startupRec members))"
  unfolding loopOf_def by (rule extends_loop)

lemma loopOf_trace:
  "\<exists>more. l_trace (fst (loopOf env job st startupRec members))
            = [EvFetch, gatesOf startupRec members] @ more \<and> (\<forall>x \<in> set more. \<not> is_gates x)"
  using loopOf_extends [of job members st startupRec env]
  by (simp add: extends_def init_lstate_def)

lemma loopOf_writes:
  "\<exists>ws. member_writes (l_store (fst (loopOf env job st startupRec members)))
          = member_writes st @ ws"
  using loopOf_extends [of job members st startupRec env]
  by (simp add: extends_def init_lstate_def)


lemma runJob_trace_shape:
  assumes "e_fetch env = Inr (startupRec, members)"
  shows "\<exists>rest. r_trace (runJob env job st) = EvFetch # gatesOf startupRec members # rest
           \<and> (\<forall>x \<in> set rest. \<not> is_gates x)"
proof (cases "gatesPass startupRec members")
  case False
  then show ?thesis by (simp add: runJob_fetched [OF assms])
next
  case True
  obtain s ex where l: "loopOf env job st startupRec members = (s, ex)"
    by (cases "loopOf env job st startupRec members") auto
  obtain more where m: "l_trace s = [EvFetch, gatesOf startupRec members] @ more"
      "\<forall>x \<in> set more. \<not> is_gates x"
    using loopOf_trace [of env job st startupRec members] l by auto
  show ?thesis
  proof (cases ex)
    case (Some e)
    then show ?thesis using True l m by (simp add: runJob_fetched [OF assms])
  next
    case None
    obtain more2 where f: "r_trace (finishRun env
          (String_of (orEmpty (rget startupRec ''Startup Name (or working title)''))) s)
          = l_trace s @ more2" "\<forall>x \<in> set more2. \<not> is_gates x"
      using finishRun_trace by blast
    have "r_trace (runJob env job st) = EvFetch # gatesOf startupRec members # (more @ more2)"
      using True l None f(1) m(1) by (simp add: runJob_fetched [OF assms])
    moreover have "\<forall>x \<in> set (more @ more2). \<not> is_gates x" using m(2) f(2) by auto
    ultimately show ?thesis by blast
  qed
qed

text \<open>
  Claim C2. Whenever the organization-level gates are not all satisfied (organization form
  submitted, submission confirmation recorded, at least one representative-flagged member who
  has submitted the form), the job becomes \<open>blocked\<close>, the Resolver and with it the Directory
  are not called during that run, and nothing is written. In every run that fetched the
  organization the gates are evaluated exactly once, right after the fetch and before any
  per-member work.
\<close>

theorem C2_gates_block_before_member_work:
  assumes "e_fetch env = Inr (startupRec, members)"
  shows "\<exists>rest. r_trace (runJob env job st) = EvFetch # gatesOf startupRec members # rest
           \<and> (\<forall>x \<in> set rest. \<not> is_gates x)
           \<and> (\<not> gatesPass startupRec members \<longrightarrow>
                 rest = []
                 \<and> j_state (r_job (runJob env job st)) = Blocked
                 \<and> (\<forall>x \<in> set (r_trace (runJob env job st)). \<not> is_resolver x)
                 \<and> r_store (runJob env job st) = st)"
proof -
  obtain rest where r: "r_trace (runJob env job st) = EvFetch # gatesOf startupRec members # rest"
      "\<forall>x \<in> set rest. \<not> is_gates x"
    using runJob_trace_shape [OF assms] by blast
  have "rest = [] \<and> j_state (r_job (runJob env job st)) = Blocked
        \<and> (\<forall>x \<in> set (r_trace (runJob env job st)). \<not> is_resolver x)
        \<and> r_store (runJob env job st) = st"
    if "\<not> gatesPass startupRec members"
    using that r(1) by (simp add: runJob_fetched [OF assms] gatesOf_def)
  with r show ?thesis by blast
qed

theorem C2_gates_block_witness:
  "e_fetch ex_env_blocked = Inr (ex_startup_unconfirmed, [ex_member ''recM2'' ''111''])
   \<and> \<not> gatesPass ex_startup_unconfirmed [ex_member ''recM2'' ''111'']
   \<and> j_state (r_job (runJob ex_env_blocked (new_job 1000) empty_store)) = Blocked
   \<and> r_trace (runJob ex_env_blocked (new_job 1000) empty_store) = [EvFetch, EvGates True False True]
   \<and> r_store (runJob ex_env_blocked (new_job 1000) empty_store) = empty_store"
proof -
  have f: "e_fetch ex_env_blocked = Inr (ex_startup_unconfirmed, [ex_member ''recM2'' ''111''])"
    by (simp add: ex_env_blocked_def)
  have g: "\<not> gatesPass ex_startup_unconfirmed [ex_member ''recM2'' ''111'']" by code_simp
  have e: "gatesOf ex_startup_unconfirmed [ex_member ''recM2'' ''111''] = EvGates True False True"
    by code_simp
  show ?thesis
    using C2_gates_block_before_member_work [OF f, of "new_job 1000" empty_store] f g
    by (auto simp: e)
qed

lemma loop_append:
  "runMemberValidationsSequential env (pre @ rest) s =
     (case runMemberValidationsSequential env pre s of
        (s1, Some e) \<Rightarrow> (s1, Some e)
      | (s1, None) \<Rightarrow> runMemberValidationsSequential env rest s1)"
  by (induction pre arbitrary: s) (auto split: prod.splits option.splits)

lemma memberStep_throw_keeps_store:
  assumes "resolverThrows env r s = Some e"
  shows "snd (memberStep env r s) = Some e \<and> l_store (fst (memberStep env r s)) = l_store s"
proof -
  from assms have c: "resolvable r" "\<not> e_devFake env"
    and a: "resolverAnswer env (memberQuery r) (l_refreshed s) (l_attempts s) = Inl e"
    by (auto simp: resolverThrows_def split: if_splits sum.splits)
  show ?thesis using memberStep_resolved [OF c, of s] by (simp add: a)
qed

text \<open>The loop ends at the first member whose Resolver call throws.\<close>

lemma loop_stops_at_throw:
  assumes "runMemberValidationsSequential env pre s = (s1, None)"
    and "resolverThrows env r s1 = Some e"
  shows "snd (runMemberValidationsSequential env (pre @ r # post) s) = Some e
       \<and> l_store (fst (runMemberValidationsSequential env (pre @ r # post) s)) = l_store s1"
proof -
  obtain s2 x where m: "memberStep env r s1 = (s2, x)" by (cases "memberStep env r s1") auto
  have x: "x = Some e" "l_store s2 = l_store s1"
    using memberStep_throw_keeps_store [OF assms(2)] m by simp_all
  have "runMemberValidationsSequential env (pre @ r # post) s = (s2, Some e)"
    using assms(1) m x(1) by (simp add: loop_append)
  then show ?thesis using x(2) by simp
qed

lemma loopOf_loopStart:
  "loopOf env job st startupRec members
   = runMemberValidationsSequential env members (loopStart job st startupRec members)"
  by (simp add: loopOf_def loopStart_def)

lemma loop_writes:
  "\<exists>ws. member_writes (l_store (fst (runMemberValidationsSequential env ms
                                         (loopStart job st startupRec members))))
          = member_writes st @ ws"
  using extends_loop [of "loopStart job st startupRec members" env ms]
  by (simp add: extends_def loopStart_def init_lstate_def)

text \<open>A run that has passed the gates and whose member loop ends without an exception.\<close>

lemma runJob_after_loop:
  assumes "e_fetch env = Inr (startupRec, members)" and "gatesPass startupRec members"
    and "loopOf env job st startupRec members = (s, None)"
  shows "runJob env job st
         = finishRun env (String_of (orEmpty (rget startupRec ''Startup Name (or working title)''))) s"
  using assms(2,3) by (simp add: runJob_fetched [OF assms(1)])

lemma runJob_loop_throws:
  assumes "e_fetch env = Inr (startupRec, members)" and "gatesPass startupRec members"
    and "loopOf env job st startupRec members = (s, Some e)"
  shows "runJob env job st = failJob env (l_job s) (l_store s) (l_trace s) e"
  using assms(2,3) by (simp add: runJob_fetched [OF assms(1)])

text \<open>
  Claim C3, as stated: an exception at any stage, including the attachment write after
  rendering, sets the job state to \<open>error\<close>. When the attachment write throws, the exception
  is caught and logged, and the job ends \<open>done\<close>.
\<close>

theorem C3_counterexample:
  "e_attach ex_env_attach_fails = Some ''Airtable 422''
   \<and> j_state (r_job (runJob ex_env_attach_fails (new_job 1000) empty_store)) = Done
   \<and> j_state (r_job (runJob ex_env_attach_fails (new_job 1000) empty_store)) \<noteq> Error
   \<and> agreement (r_store (runJob ex_env_attach_fails (new_job 1000) empty_store)) = None"
  by code_simp

text \<open>
  Claim C3, amended. An exception while fetching the organization and its members, in a call
  of the Resolver, while assembling the payload, while rendering, or while caching the
  document sets the job state to \<open>error\<close> and records the exception message in the job
  result. An exception of the attachment write, or of the write of the creation date after
  it, is caught: the job still ends \<open>done\<close>. An exception of the write of a member's
  validation is caught as well: the loop goes on. In every case the per-member validation
  writes made before are kept: when a Resolver call throws, the store is as the members
  before it left it, which only adds to what was there, and so it is after the loop.
\<close>

theorem C3_exceptions_set_error_without_rollback:
  "(e_fetch env = Inl e \<longrightarrow>
      j_state (r_job (runJob env job st)) = Error
      \<and> j_result (r_job (runJob env job st)) = ErrorResult e
      \<and> r_store (runJob env job st) = st)
   \<and> (e_fetch env = Inr (startupRec, pre @ r # post)
        \<and> gatesPass startupRec (pre @ r # post)
        \<and> runMemberValidationsSequential env pre
             (loopStart job st startupRec (pre @ r # post)) = (s1, None)
        \<and> resolverThrows env r s1 = Some e \<longrightarrow>
      j_state (r_job (runJob env job st)) = Error
      \<and> j_result (r_job (runJob env job st)) = ErrorResult e
      \<and> r_store (runJob env job st) = l_store s1
      \<and> (\<exists>ws. member_writes (l_store s1) = member_writes st @ ws))
   \<and> (e_fetch env = Inr (startupRec, members) \<and> gatesPass startupRec members
        \<and> loopOf env job st startupRec members = (s, None) \<longrightarrow>
      (\<exists>ws. member_writes (l_store s) = member_writes st @ ws)
      \<and> member_writes (r_store (runJob env job st)) = member_writes (l_store s)
      \<and> (e_payload env = Inl e \<longrightarrow>
            j_state (r_job (runJob env job st)) = Error
            \<and> j_result (r_job (runJob env job st)) = ErrorResult e)
      \<and> (e_payload env = Inr p \<and> e_render env = Inl e \<longrightarrow>
            j_state (r_job (runJob env job st)) = Error
            \<and> j_result (r_job (runJob env job st)) = ErrorResult e)
      \<and> (e_payload env = Inr p \<and> e_render env = Inr b \<and> e_cache env = Some e \<longrightarrow>
            j_state (r_job (runJob env job st)) = Error
            \<and> j_result (r_job (runJob env job st)) = ErrorResult e)
      \<and> (e_payload env = Inr p \<and> e_render env = Inr b \<and> e_cache env = None \<longrightarrow>
            j_state (r_job (runJob env job st)) = Done))
   \<and> (resolvable r' \<and> \<not> e_devFake env
        \<and> resolverAnswer env (memberQuery r') (l_refreshed s') (l_attempts s') = Inr result \<longrightarrow>
      snd (memberStep env r' s') = None)"
proof -
  have A: "e_fetch env = Inl e \<longrightarrow>
      j_state (r_job (runJob env job st)) = Error
      \<and> j_result (r_job (runJob env job st)) = ErrorResult e
      \<and> r_store (runJob env job st) = st"
    by (simp add: runJob_fetch_fails)
  have B: "e_fetch env = Inr (startupRec, pre @ r # post)
        \<and> gatesPass startupRec (pre @ r # post)
        \<and> runMemberValidationsSequential env pre
             (loopStart job st startupRec (pre @ r # post)) = (s1, None)
        \<and> resolverThrows env r s1 = Some e \<longrightarrow>
      j_state (r_job (runJob env job st)) = Error
      \<and> j_result (r_job (runJob env job st)) = ErrorResult e
      \<and> r_store (runJob env job st) = l_store s1
      \<and> (\<exists>ws. member_writes (l_store s1) = member_writes st @ ws)"
  proof
    assume h: "e_fetch env = Inr (startupRec, pre @ r # post)
        \<and> gatesPass startupRec (pre @ r # post)
        \<and> runMemberValidationsSequential env pre
             (loopStart job st startupRec (pre @ r # post)) = (s1, None)
        \<and> resolverThrows env r s1 = Some e"
    let ?ms = "pre @ r # post"
    from h have f: "e_fetch env = Inr (startupRec, ?ms)" and g: "gatesPass startupRec ?ms"
      and l: "runMemberValidationsSequential env pre (loopStart job st startupRec ?ms) = (s1, None)"
      and t: "resolverThrows env r s1 = Some e"
      by simp_all
    obtain s2 x where lo: "loopOf env job st startupRec ?ms = (s2, x)"
      by (cases "loopOf env job st startupRec ?ms") auto
    have x: "x = Some e" "l_store s2 = l_store s1"
      using loop_stops_at_throw [OF l t, of post] lo by (simp_all add: loopOf_loopStart)
    have R: "runJob env job st = failJob env (l_job s2) (l_store s2) (l_trace s2) e"
      using runJob_loop_throws [OF f g] lo x(1) by simp
    have w: "\<exists>ws. member_writes (l_store s1) = member_writes st @ ws"
      using loop_writes [of env pre job st startupRec ?ms] l by simp
    show "j_state (r_job (runJob env job st)) = Error
      \<and> j_result (r_job (runJob env job st)) = ErrorResult e
      \<and> r_store (runJob env job st) = l_store s1
      \<and> (\<exists>ws. member_writes (l_store s1) = member_writes st @ ws)"
      unfolding R using x(2) w by simp
  qed
  have C: "e_fetch env = Inr (startupRec, members) \<and> gatesPass startupRec members
        \<and> loopOf env job st startupRec members = (s, None) \<longrightarrow>
      (\<exists>ws. member_writes (l_store s) = member_writes st @ ws)
      \<and> member_writes (r_store (runJob env job st)) = member_writes (l_store s)
      \<and> (e_payload env = Inl e \<longrightarrow>
            j_state (r_job (runJob env job st)) = Error
            \<and> j_result (r_job (runJob env job st)) = ErrorResult e)
      \<and> (e_payload env = Inr p \<and> e_render env = Inl e \<longrightarrow>
            j_state (r_job (runJob env job st)) = Error
            \<and> j_result (r_job (runJob env job st)) = ErrorResult e)
      \<and> (e_payload env = Inr p \<and> e_render env = Inr b \<and> e_cache env = Some e \<longrightarrow>
            j_state (r_job (runJob env job st)) = Error
            \<and> j_result (r_job (runJob env job st)) = ErrorResult e)
      \<and> (e_payload env = Inr p \<and> e_render env = Inr b \<and> e_cache env = None \<longrightarrow>
            j_state (r_job (runJob env job st)) = Done)"
  proof
    assume h: "e_fetch env = Inr (startupRec, members) \<and> gatesPass startupRec members
        \<and> loopOf env job st startupRec members = (s, None)"
    let ?n = "String_of (orEmpty (rget startupRec ''Startup Name (or working title)''))"
    from h have f: "e_fetch env = Inr (startupRec, members)" and g: "gatesPass startupRec members"
      and l: "loopOf env job st startupRec members = (s, None)"
      by simp_all
    have R: "runJob env job st = finishRun env ?n s" by (rule runJob_after_loop [OF f g l])
    have w: "\<exists>ws. member_writes (l_store s) = member_writes st @ ws"
      using loopOf_writes [of env job st startupRec members] l by simp
    have k: "member_writes (r_store (runJob env job st)) = member_writes (l_store s)"
      unfolding R by (rule finishRun_writes)
    have e2: "e_payload env = Inl e \<longrightarrow>
            j_state (r_job (runJob env job st)) = Error
            \<and> j_result (r_job (runJob env job st)) = ErrorResult e"
      unfolding R using finishRun_payload_fails [of env e ?n s] by simp
    have e3: "e_payload env = Inr p \<and> e_render env = Inl e \<longrightarrow>
            j_state (r_job (runJob env job st)) = Error
            \<and> j_result (r_job (runJob env job st)) = ErrorResult e"
      unfolding R using finishRun_render_fails [of env p e ?n s] by simp
    have e4: "e_payload env = Inr p \<and> e_render env = Inr b \<and> e_cache env = Some e \<longrightarrow>
            j_state (r_job (runJob env job st)) = Error
            \<and> j_result (r_job (runJob env job st)) = ErrorResult e"
      unfolding R using finishRun_cache_fails [of env p b e ?n s] by simp
    have e5: "e_payload env = Inr p \<and> e_render env = Inr b \<and> e_cache env = None \<longrightarrow>
            j_state (r_job (runJob env job st)) = Done"
      unfolding R using finishRun_done [of env p b ?n s] by simp
    from w k e2 e3 e4 e5
    show "(\<exists>ws. member_writes (l_store s) = member_writes st @ ws)
      \<and> member_writes (r_store (runJob env job st)) = member_writes (l_store s)
      \<and> (e_payload env = Inl e \<longrightarrow>
            j_state (r_job (runJob env job st)) = Error
            \<and> j_result (r_job (runJob env job st)) = ErrorResult e)
      \<and> (e_payload env = Inr p \<and> e_render env = Inl e \<longrightarrow>
            j_state (r_job (runJob env job st)) = Error
            \<and> j_result (r_job (runJob env job st)) = ErrorResult e)
      \<and> (e_payload env = Inr p \<and> e_render env = Inr b \<and> e_cache env = Some e \<longrightarrow>
            j_state (r_job (runJob env job st)) = Error
            \<and> j_result (r_job (runJob env job st)) = ErrorResult e)
      \<and> (e_payload env = Inr p \<and> e_render env = Inr b \<and> e_cache env = None \<longrightarrow>
            j_state (r_job (runJob env job st)) = Done)"
      by (intro conjI)
  qed
  have D: "resolvable r' \<and> \<not> e_devFake env
        \<and> resolverAnswer env (memberQuery r') (l_refreshed s') (l_attempts s') = Inr result \<longrightarrow>
      snd (memberStep env r' s') = None"
  proof
    assume h: "resolvable r' \<and> \<not> e_devFake env
        \<and> resolverAnswer env (memberQuery r') (l_refreshed s') (l_attempts s') = Inr result"
    then have c: "resolvable r'" "\<not> e_devFake env"
      and a: "resolverAnswer env (memberQuery r') (l_refreshed s') (l_attempts s') = Inr result"
      by simp_all
    show "snd (memberStep env r' s') = None"
      using memberStep_resolved [OF c, of s'] by (simp add: a)
  qed
  from A B C D show ?thesis by (intro conjI)
qed

theorem C3_exceptions_witness:
  "e_fetch ex_env_second_throws
     = Inr (ex_startup, [ex_member ''recM2'' ''111''] @ ex_member ''recM4'' ''222'' # [])
   \<and> gatesPass ex_startup [ex_member ''recM2'' ''111'', ex_member ''recM4'' ''222'']
   \<and> snd (runMemberValidationsSequential ex_env_second_throws [ex_member ''recM2'' ''111'']
             (loopStart (new_job 1000) empty_store ex_startup
                [ex_member ''recM2'' ''111'', ex_member ''recM4'' ''222''])) = None
   \<and> e_validate ex_env_second_throws 0 (memberQuery (ex_member ''recM4'' ''222''))
       = Inl ''socket hang up''
   \<and> j_state (r_job (runJob ex_env_second_throws (new_job 1000) empty_store)) = Error
   \<and> j_result (r_job (runJob ex_env_second_throws (new_job 1000) empty_store))
       = ErrorResult ''socket hang up''
   \<and> map fst (member_writes (r_store (runJob ex_env_second_throws (new_job 1000) empty_store)))
       = [''recM2'']"
proof -
  let ?m1 = "ex_member ''recM2'' ''111''" and ?m2 = "ex_member ''recM4'' ''222''"
  let ?s0 = "loopStart (new_job 1000) empty_store ex_startup [?m1, ?m2]"
  let ?l = "runMemberValidationsSequential ex_env_second_throws [?m1] ?s0"
  have f: "e_fetch ex_env_second_throws = Inr (ex_startup, [?m1] @ ?m2 # [])"
    by (simp add: ex_env_second_throws_def ex_env_def)
  have g: "gatesPass ex_startup ([?m1] @ ?m2 # [])" by code_simp
  have n: "snd ?l = None" by code_simp
  have l: "runMemberValidationsSequential ex_env_second_throws [?m1]
             (loopStart (new_job 1000) empty_store ex_startup ([?m1] @ ?m2 # [])) = (fst ?l, None)"
    using n by (simp add: prod_eq_iff)
  have t: "resolverThrows ex_env_second_throws ?m2 (fst ?l) = Some ''socket hang up''"
    by code_simp
  have v: "e_validate ex_env_second_throws 0 (memberQuery ?m2) = Inl ''socket hang up''"
    by code_simp
  have w: "map fst (member_writes (l_store (fst ?l))) = [''recM2'']" by code_simp
  show ?thesis
    using C3_exceptions_set_error_without_rollback
            [where env = ex_env_second_throws and e = "''socket hang up''" and job = "new_job 1000"
               and st = empty_store and startupRec = ex_startup and pre = "[?m1]" and r = ?m2
               and post = "[]" and ?s1.0 = "fst ?l",
             THEN conjunct2, THEN conjunct1]
          f g l t n v w
    by simp
qed

lemma runJob_progress_bounded:
  assumes "validated (j_progress job) = 0"
  shows "validated (j_progress (r_job (runJob env job st)))
         \<le> total (j_progress (r_job (runJob env job st)))"
proof (cases "e_fetch env")
  case (Inl e)
  then show ?thesis using assms by (simp add: runJob_fetch_fails)
next
  case (Inr pr)
  obtain startupRec members where pr: "pr = (startupRec, members)" by (cases pr) auto
  have f: "e_fetch env = Inr (startupRec, members)" using Inr pr by simp
  show ?thesis
  proof (cases "gatesPass startupRec members")
    case False
    then show ?thesis using assms by (simp add: runJob_fetched [OF f] seededJob_def)
  next
    case True
    obtain s ex where l: "loopOf env job st startupRec members = (s, ex)"
      by (cases "loopOf env job st startupRec members") auto
    have "extends (init_lstate (seededJob job members) st [EvFetch, gatesOf startupRec members]) s"
      using loopOf_extends [of job members st startupRec env] l by simp
    then have b: "validated (j_progress (l_job s)) \<le> total (j_progress (l_job s))"
      using assms by (simp add: extends_def init_lstate_def seededJob_def)
    show ?thesis
      using True l b by (cases ex) (simp_all add: runJob_fetched [OF f] finishRun_job)
  qed
qed

text \<open>
  Claim C8. Every member whose outcome becomes terminal advances \<open>progress.validated\<close> by
  one, so a job that reaches \<open>done\<close> has \<open>progress.validated\<close> equal to \<open>progress.total\<close>. The
  code keeps \<open>validated\<close> from going back and from exceeding \<open>total\<close>, but two terminal
  outcomes do not advance it. A member who asks for a discount and has no lookup id is pushed
  to the results as skipped without any checklist update: the job of an organization with this
  one member ends \<open>done\<close> with progress 0 of 1 and the member still \<open>pending\<close>. A member for
  whom the Resolver answers \<open>not_found\<close> gets its checklist entry updated, but \<open>not_found\<close> is
  not in the list of statuses that advance the counter: again \<open>done\<close> with progress 0 of 1.
\<close>

theorem C8_done_with_progress_short_of_total:
  "j_state (r_job (runJob ex_env_no_id (new_job 1000) empty_store)) = Done
   \<and> j_progress (r_job (runJob ex_env_no_id (new_job 1000) empty_store))
       = \<lparr>validated = 0, total = 1\<rparr>
   \<and> map ce_status (j_members (r_job (runJob ex_env_no_id (new_job 1000) empty_store)))
       = [''pending'']
   \<and> j_result (r_job (runJob ex_env_no_id (new_job 1000) empty_store))
       = DoneResult ''https://host/agreement/latest/tok''
           ''Acme Pty Ltd - UTS Incubator Agreement - 2026-01-01.pdf''
           [\<lparr>memberId = ''recM1'', outcome = Skipped ''missing search_id''\<rparr>]
   \<and> j_state (r_job (runJob ex_env_not_found (new_job 1000) empty_store)) = Done
   \<and> j_progress (r_job (runJob ex_env_not_found (new_job 1000) empty_store))
       = \<lparr>validated = 0, total = 1\<rparr>
   \<and> map ce_status (j_members (r_job (runJob ex_env_not_found (new_job 1000) empty_store)))
       = [''not_found'']"
  by code_simp

end
